(* ===== verification/Prelude.thy ===== *)
theory Prelude imports Main "HOL-Library.Word" begin

text \<open>
  Shared vocabulary of the development: bytes and the C integer types, the outcome of code
  that may abort or touch memory out of bounds, reads and writes in a buffer, the 32-bit
  integer conversions of C++ and of JavaScript, and the generic lemmas on them that several
  components use.  Two collections carry the automation: \<open>buffer_simps\<close> (reads and
  writes in concatenated buffers) and \<open>outcome_simps\<close> (running code that may abort).
\<close>

unbundle bit_operations_syntax

named_theorems buffer_simps "reads and writes in concatenated buffers"
named_theorems outcome_simps "running code that may abort"

section \<open>Machine types\<close>

type_synonym byte = "8 word"
type_synonym uint32 = "32 word"
type_synonym cint = "32 word"      \<comment> \<open>\<open>int\<close>, and the enums stored in one\<close>
type_synonym cint64 = "64 word"    \<comment> \<open>\<open>int64_t\<close>\<close>

text \<open>\<open>sizeof(T) / sizeof(byte_t)\<close> of an integer type.\<close>

definition sizeof :: "'a::len word \<Rightarrow> nat" where
  "sizeof v = LENGTH('a) div 8"

text \<open>Passing an \<open>int\<close> as a 64-bit \<open>size_t\<close>: a negative value becomes a huge one.\<close>

definition size_t_of_int :: "cint \<Rightarrow> nat" where
  "size_t_of_int n = unat (scast n :: 64 word)"

section \<open>Code that may abort\<close>

text \<open>
  \<open>Return\<close> is a normal return, \<open>Fatal\<close> the process abort of a failed
  \<open>LOG_IF(FATAL, \<dots>)\<close>, and \<open>OutOfBounds\<close> a read or write outside the buffer
  (undefined behaviour in C++, nothing is claimed after it).
\<close>

datatype 'a outcome = Return 'a | Fatal | OutOfBounds

fun bind_outcome :: "'a outcome \<Rightarrow> ('a \<Rightarrow> 'b outcome) \<Rightarrow> 'b outcome" where
  "bind_outcome (Return x) k = k x"
| "bind_outcome Fatal k = Fatal"
| "bind_outcome OutOfBounds k = OutOfBounds"

lemma bind_outcome_Return [outcome_simps, simp]: "bind_outcome m Return = m"
  by (cases m) simp_all

lemma bind_outcome_assoc [outcome_simps]:
  "bind_outcome (bind_outcome m f) g = bind_outcome m (\<lambda>x. bind_outcome (f x) g)"
  by (cases m) simp_all

lemma bind_outcome_eq_Return:
  "bind_outcome m k = Return y \<longleftrightarrow> (\<exists>x. m = Return x \<and> k x = Return y)"
  by (cases m) simp_all

section \<open>Reads and writes in a buffer\<close>

text \<open>The \<open>n\<close> bytes at position \<open>pos\<close>, and writing \<open>xs\<close> at a position.\<close>

definition read_at :: "'a list \<Rightarrow> nat \<Rightarrow> nat \<Rightarrow> 'a list outcome" where
  "read_at bs pos n = (if pos + n \<le> length bs then Return (take n (drop pos bs)) else OutOfBounds)"

definition write_at :: "'a list \<Rightarrow> nat \<Rightarrow> 'a list \<Rightarrow> 'a list outcome" where
  "write_at bs pos xs =
     (if pos + length xs \<le> length bs then Return (take pos bs @ xs @ drop (pos + length xs) bs)
      else OutOfBounds)"

lemma read_at_append [buffer_simps]:
  "length pre = pos \<Longrightarrow> length xs = n \<Longrightarrow> read_at (pre @ xs @ post) pos n = Return xs"
  by (auto simp: read_at_def)

text \<open>A reader's cursor: what is left of the buffer from position \<open>pos\<close> on.\<close>

definition left_at :: "'a list \<Rightarrow> nat \<Rightarrow> 'a list \<Rightarrow> bool" where
  "left_at bs pos xs \<longleftrightarrow> pos \<le> length bs \<and> drop pos bs = xs"

lemma left_at_start: "left_at (pre @ xs) (length pre) xs"
  by (simp add: left_at_def)

lemma left_at_read: "left_at bs pos (xs @ rest) \<Longrightarrow> read_at bs pos (length xs) = Return xs"
  by (auto simp: left_at_def read_at_def dest: arg_cong [where f = length])

lemma left_at_next: "left_at bs pos (xs @ rest) \<Longrightarrow> left_at bs (pos + length xs) rest"
proof -
  assume at: "left_at bs pos (xs @ rest)"
  then have "drop (length xs) (drop pos bs) = rest" by (simp add: left_at_def)
  moreover have "length bs - pos = length xs + length rest" "pos \<le> length bs"
    using at by (metis left_at_def length_append length_drop, simp add: left_at_def)
  then have "pos + length xs \<le> length bs" by linarith
  ultimately show ?thesis by (simp add: left_at_def add.commute)
qed

lemma read_at_length: "read_at bs pos n = Return xs \<Longrightarrow> length xs = n \<and> pos + n \<le> length bs"
  by (auto simp: read_at_def split: if_splits)

lemma write_at_append [buffer_simps]:
  "length pre = pos \<Longrightarrow> length xs \<le> length rest \<Longrightarrow>
     write_at (pre @ rest) pos xs = Return (pre @ xs @ drop (length xs) rest)"
  by (auto simp: write_at_def)

lemma write_at_length: "write_at bs pos xs = Return bs' \<Longrightarrow> length bs' = length bs"
  by (auto simp: write_at_def split: if_splits)

section \<open>Shifts as the languages define them\<close>

text \<open>JavaScript's \<open>x >> n\<close> on an integral number: \<open>ToInt32\<close>, then an arithmetic shift.\<close>

definition js_shr :: "int \<Rightarrow> nat \<Rightarrow> int" where
  "js_shr x n = sint (signed_drop_bit n (word_of_int x :: 32 word))"

text \<open>C++'s \<open>x >> n\<close> on a 32-bit \<open>int\<close>.\<close>

definition cxx_shr :: "int \<Rightarrow> nat \<Rightarrow> int" where
  "cxx_shr x n = x div 2 ^ n"

lemma js_shr_eq:
  assumes "0 \<le> x" "x < 2 ^ 31" "n \<le> 31"
  shows "js_shr x n = x div 2 ^ n"
proof -
  have "sint (word_of_int x :: 32 word) = x"
    using assms by (simp add: sint_sbintrunc' signed_take_bit_int_eq_self)
  then show ?thesis
    by (simp add: js_shr_def sint_signed_drop_bit_eq drop_bit_eq_div)
qed

lemma half_mono: "0 \<le> (x::int) \<Longrightarrow> x div 4 \<le> x div 2 \<and> x div 2 - x div 4 \<ge> x div 4"
  by presburger

section \<open>Lists\<close>

text \<open>\<open>std::find_if\<close> followed by \<open>erase\<close>: remove the first element with \<open>P\<close>, if any.\<close>

fun erase_first :: "('a \<Rightarrow> bool) \<Rightarrow> 'a list \<Rightarrow> 'a list" where
  "erase_first P [] = []"
| "erase_first P (x # xs) = (if P x then xs else x # erase_first P xs)"

lemma erase_first_none: "list_all (\<lambda>x. \<not> P x) xs \<Longrightarrow> erase_first P xs = xs"
  by (induction xs) auto

lemma length_erase_first: "list_ex P xs \<Longrightarrow> Suc (length (erase_first P xs)) = length xs"
  by (induction xs) auto

lemma filter_erase_first: "filter (\<lambda>x. \<not> P x) (erase_first P xs) = filter (\<lambda>x. \<not> P x) xs"
  by (induction xs) auto

lemma set_erase_first: "set (erase_first P xs) \<subseteq> set xs"
  by (induction xs) auto

text \<open>The \<open>n\<close>-th element with \<open>P\<close>, and the list without it.\<close>

fun take_nth :: "('a \<Rightarrow> bool) \<Rightarrow> nat \<Rightarrow> 'a list \<Rightarrow> ('a \<times> 'a list) option" where
  "take_nth P n [] = None"
| "take_nth P n (x # xs) =
     (if P x \<and> n = 0 then Some (x, xs)
      else map_option (apsnd (Cons x)) (take_nth P (if P x then n - 1 else n) xs))"

lemma take_nth_split:
  "take_nth P n xs = Some (x, rest) \<Longrightarrow>
     \<exists>pre post. xs = pre @ x # post \<and> rest = pre @ post \<and> P x \<and> length (filter P pre) = n"
proof (induction xs arbitrary: n rest)
  case (Cons y ys)
  show ?case
  proof (cases "P y \<and> n = 0")
    case True
    then show ?thesis using Cons.prems by (intro exI [of _ "[]"] exI [of _ rest]) auto
  next
    case False
    then obtain r where "take_nth P (if P y then n - 1 else n) ys = Some (x, r)" "rest = y # r"
      using Cons.prems by auto
    then obtain pre post where "ys = pre @ x # post" "r = pre @ post" "P x"
        "length (filter P pre) = (if P y then n - 1 else n)"
      using Cons.IH by blast
    then show ?thesis using False \<open>rest = y # r\<close> by (intro exI [of _ "y # pre"] exI [of _ post]) auto
  qed
qed simp

lemma take_nth_set: "take_nth P n xs = Some (x, rest) \<Longrightarrow> set rest \<subseteq> set xs"
  by (auto dest!: take_nth_split)

end
