(* ===== verification/Js.thy ===== *)
theory Js imports Prelude begin

text \<open>
  What the browser-side components use of JavaScript: values, truthiness, objects with spread,
  and code that throws as a state transformer whose state survives the exception (as it does in
  JavaScript).  \<open>triple\<close> is a Hoare triple with a postcondition for each way to leave the code;
  its rules are collected in \<open>js_rules\<close> and carry the proofs of the components.
\<close>

named_theorems js_rules "Hoare rules of code that may throw"

section \<open>Values and objects\<close>

datatype js_val =
    JUndefined | JNull
  | JBool bool
  | JNum int
  | JStr string
  | JObj nat
  | JFun nat

fun truthy :: "js_val \<Rightarrow> bool" where
  "truthy JUndefined = False"
| "truthy JNull = False"
| "truthy (JBool b) = b"
| "truthy (JNum n) = (n \<noteq> 0)"
| "truthy (JStr s) = (s \<noteq> [])"
| "truthy (JObj _) = True"
| "truthy (JFun _) = True"

text \<open>\<open>v == null\<close>.\<close>

definition nullish :: "js_val \<Rightarrow> bool" where
  "nullish v \<longleftrightarrow> v = JUndefined \<or> v = JNull"

type_synonym js_object = "string \<rightharpoonup> js_val"

definition get_prop :: "js_object \<Rightarrow> string \<Rightarrow> js_val" where
  "get_prop obj k = (case obj k of None \<Rightarrow> JUndefined | Some v \<Rightarrow> v)"

text \<open>\<open>{ \<dots>a, \<dots>b }\<close>: the properties of \<open>b\<close> win.\<close>

definition spread :: "js_object \<Rightarrow> js_object \<Rightarrow> js_object" where
  "spread a b = a ++ b"

lemma get_prop_spread: "get_prop (spread a b) k = (if k \<in> dom b then get_prop b k else get_prop a k)"
  by (auto simp: get_prop_def spread_def map_add_def split: option.splits)

section \<open>Code that may throw\<close>

datatype js_exn = TypeError | SyntaxError | NativeAbort | ThrownBy nat

type_synonym ('s, 'a) js = "'s \<Rightarrow> (js_exn + 'a) \<times> 's"

definition ret :: "'a \<Rightarrow> ('s, 'a) js" where
  "ret x s = (Inr x, s)"

definition throw :: "js_exn \<Rightarrow> ('s, 'a) js" where
  "throw e s = (Inl e, s)"

definition js_bind :: "('s, 'a) js \<Rightarrow> ('a \<Rightarrow> ('s, 'b) js) \<Rightarrow> ('s, 'b) js" where
  "js_bind m k s = (case m s of (Inl e, s') \<Rightarrow> (Inl e, s') | (Inr x, s') \<Rightarrow> k x s')"

abbreviation js_seq :: "('s, 'a) js \<Rightarrow> ('s, 'b) js \<Rightarrow> ('s, 'b) js" where
  "js_seq m k \<equiv> js_bind m (\<lambda>_. k)"

text \<open>\<open>try { m } finally { f }\<close>: \<open>f\<close> runs in both cases; if it throws, that exception wins.\<close>

definition js_finally :: "('s, 'a) js \<Rightarrow> ('s, unit) js \<Rightarrow> ('s, 'a) js" where
  "js_finally m f s =
     (case m s of (r, s') \<Rightarrow> (case f s' of (Inl e, s'') \<Rightarrow> (Inl e, s'') | (Inr _, s'') \<Rightarrow> (r, s'')))"

definition gets :: "('s \<Rightarrow> 'a) \<Rightarrow> ('s, 'a) js" where
  "gets f s = (Inr (f s), s)"

definition modify :: "('s \<Rightarrow> 's) \<Rightarrow> ('s, unit) js" where
  "modify f s = (Inr (), f s)"

definition js_when :: "bool \<Rightarrow> ('s, unit) js \<Rightarrow> ('s, unit) js" where
  "js_when b m = (if b then m else ret ())"

fun js_all :: "('s, unit) js list \<Rightarrow> ('s, unit) js" where
  "js_all [] = ret ()"
| "js_all (m # ms) = js_seq m (js_all ms)"

lemmas js_defs = ret_def throw_def js_bind_def js_finally_def gets_def modify_def js_when_def

text \<open>\<open>js_all\<close> without the trailing \<open>ret ()\<close>.\<close>

lemma js_all_run: "js_all [m] = m" "js_all (m # n # ms) = js_seq m (js_all (n # ms))"
  by (auto simp: js_defs fun_eq_iff split: prod.splits sum.splits)

section \<open>Hoare triples\<close>

definition triple ::
  "('s \<Rightarrow> bool) \<Rightarrow> ('s, 'a) js \<Rightarrow> ('a \<Rightarrow> 's \<Rightarrow> bool) \<Rightarrow> (js_exn \<Rightarrow> 's \<Rightarrow> bool) \<Rightarrow> bool" where
  "triple P m Q E \<longleftrightarrow>
     (\<forall>s. P s \<longrightarrow> (case m s of (Inr x, s') \<Rightarrow> Q x s' | (Inl e, s') \<Rightarrow> E e s'))"

lemma tripleD:
  assumes "triple P m Q E" and "P s"
  shows "m s = (Inr x, s') \<Longrightarrow> Q x s'" and "m s = (Inl e, s') \<Longrightarrow> E e s'"
  using assms by (auto simp: triple_def split: prod.splits sum.splits)

lemma triple_iff:
  "triple P m Q E \<longleftrightarrow> (\<forall>s. P s \<longrightarrow>
     (\<forall>x s'. m s = (Inr x, s') \<longrightarrow> Q x s') \<and> (\<forall>e s'. m s = (Inl e, s') \<longrightarrow> E e s'))"
  by (auto simp: triple_def split: prod.splits sum.splits)

lemma triple_snd: "triple P m (\<lambda>_. R) (\<lambda>_. R) \<Longrightarrow> P s \<Longrightarrow> R (snd (m s))"
  unfolding triple_iff by (metis snd_conv surj_pair sum.exhaust)

lemma triple_weaken:
  "triple P' m Q' E' \<Longrightarrow> (\<And>s. P s \<Longrightarrow> P' s) \<Longrightarrow> (\<And>x s. Q' x s \<Longrightarrow> Q x s) \<Longrightarrow> (\<And>e s. E' e s \<Longrightarrow> E e s) \<Longrightarrow>
     triple P m Q E"
  unfolding triple_iff by blast

lemma triple_pre: "triple P' m Q E \<Longrightarrow> (\<And>s. P s \<Longrightarrow> P' s) \<Longrightarrow> triple P m Q E"
  by (auto simp: triple_def)

lemma triple_ret [js_rules]: "triple (Q x) (ret x) Q E"
  by (simp add: triple_def ret_def)

lemma triple_throw [js_rules]: "triple (E e) (throw e) Q E"
  by (simp add: triple_def throw_def)

lemma triple_gets [js_rules]: "triple (\<lambda>s. Q (f s) s) (gets f) Q E"
  by (simp add: triple_def gets_def)

lemma triple_modify [js_rules]: "triple (\<lambda>s. Q () (f s)) (modify f) Q E"
  by (simp add: triple_def modify_def)

lemma triple_bind [js_rules]:
  "triple P m R E \<Longrightarrow> (\<And>x. triple (R x) (k x) Q E) \<Longrightarrow> triple P (js_bind m k) Q E"
  by (fastforce simp: triple_def js_bind_def split: prod.splits sum.splits)

lemma triple_finally:
  "triple P m (\<lambda>x. R (Inr x)) (\<lambda>e. R (Inl e)) \<Longrightarrow>
   (\<And>r. triple (R r) f (\<lambda>_ s. case r of Inr x \<Rightarrow> Q x s | Inl e \<Rightarrow> E e s) E) \<Longrightarrow>
     triple P (js_finally m f) Q E"
  by (fastforce simp: triple_def js_finally_def split: prod.splits sum.splits)

lemma triple_when: "(b \<Longrightarrow> triple P m (\<lambda>_. Q) E) \<Longrightarrow> (\<not> b \<Longrightarrow> (\<And>s. P s \<Longrightarrow> Q s)) \<Longrightarrow> triple P (js_when b m) (\<lambda>_. Q) E"
  by (auto simp: js_when_def triple_def ret_def)

lemma triple_if: "(b \<Longrightarrow> triple P m Q E) \<Longrightarrow> (\<not> b \<Longrightarrow> triple P m' Q E) \<Longrightarrow> triple P (if b then m else m') Q E"
  by simp

text \<open>Code that keeps a property of the state whether it returns or throws.\<close>

definition keeps :: "('s \<Rightarrow> bool) \<Rightarrow> ('s, 'a) js \<Rightarrow> bool" where
  "keeps P m \<longleftrightarrow> triple P m (\<lambda>_. P) (\<lambda>_. P)"

lemma keeps_iff: "keeps P m \<longleftrightarrow> (\<forall>s. P s \<longrightarrow> P (snd (m s)))"
  unfolding keeps_def triple_iff by (metis snd_conv surj_pair sum.exhaust)

lemma keepsD: "keeps P m \<Longrightarrow> P s \<Longrightarrow> P (snd (m s))"
  by (simp add: keeps_iff)

lemma keeps_bind [js_rules]: "keeps P m \<Longrightarrow> (\<And>x. keeps P (k x)) \<Longrightarrow> keeps P (js_bind m k)"
  unfolding keeps_def by (rule triple_bind)

lemma triple_bind_keeps:
  assumes "keeps K m" "\<And>x. triple K (k x) Q E" "\<And>e s. K s \<Longrightarrow> E e s"
  shows "triple K (js_bind m k) Q E"
  using assms(2)
proof (rule triple_bind [rotated])
  show "triple K m (\<lambda>_. K) E"
    using assms(1) unfolding keeps_def by (rule triple_weaken) (auto intro: assms(3))
qed

lemma keeps_simple [js_rules]:
  "keeps P (ret x)" "keeps P (throw e)" "keeps P (gets g)"
  "(\<And>s. P s \<Longrightarrow> P (f s)) \<Longrightarrow> keeps P (modify f)"
  "(b \<Longrightarrow> keeps P m') \<Longrightarrow> keeps P (js_when b m')"
  by (auto simp: keeps_iff js_defs)

lemma keeps_if [js_rules]: "(b \<Longrightarrow> keeps P m) \<Longrightarrow> (\<not> b \<Longrightarrow> keeps P m') \<Longrightarrow> keeps P (if b then m else m')"
  by simp

lemma keeps_case_option [js_rules]:
  "(v = None \<Longrightarrow> keeps P m) \<Longrightarrow> (\<And>x. v = Some x \<Longrightarrow> keeps P (k x)) \<Longrightarrow>
     keeps P (case v of None \<Rightarrow> m | Some x \<Rightarrow> k x)"
  by (cases v) auto

lemma keeps_finally [js_rules]: "keeps P m \<Longrightarrow> keeps P f \<Longrightarrow> keeps P (js_finally m f)"
  by (fastforce simp: keeps_iff js_finally_def split: prod.splits sum.splits)

lemma keeps_all: "(\<And>m. m \<in> set ms \<Longrightarrow> keeps P m) \<Longrightarrow> keeps P (js_all ms)"
  by (induction ms) (auto intro!: js_rules)

end
