(* ===== verification/WsClient.thy ===== *)
theory WsClient imports Js begin

text \<open>
  \<open>ws-wasm-player/lib/ws_client.js\<close>: the browser's WebSocket client.  The state is the object's
  private fields, plus the resources its calls into the page and the wasm module create: native
  decoders, frame handles, buffers of the wasm heap, sockets.  Every call that leaves the file
  is recorded in \<open>trace\<close>.  What the outside does is the parameter \<open>env\<close> (which callbacks throw,
  which URLs and stream descriptions are accepted) and, for a message, the argument \<open>native\<close>
  (what the native decoder does with it).  Callbacks do not call back into the client.
\<close>

section \<open>State, environment and effects\<close>

text \<open>A template string is kept as the list of its parts.\<close>

datatype part = Lit string | Val js_val | FrameField nat string | Millis int

datatype arg = Msg "part list" | OptionsArg js_object | Ev nat | DataArg "byte list" | FrameArg nat

datatype effect =
    Called nat "arg list"                     \<comment> \<open>a function of the page\<close>
  | Console string
  | SetV js_val
  | NewOpenGLPlayer nat
  | NewDecoder nat
  | OpenDecoder nat js_val js_val js_val js_val
  | DeleteDecoder nat
  | NewSocket nat js_val
  | CloseSocket nat
  | LeakCheck
  | Malloc nat nat
  | HeapSet nat "byte list"
  | DecodeCall nat nat nat
  | DecodeAsyncCall nat nat nat
  | Free nat
  | NewFrame nat
  | GetBytes nat
  | Render js_val nat
  | DeleteFrame nat

record client =
  options :: js_object
  ws :: "nat option"
  decoder :: "nat option"
  t_onmsg :: int
  next_id :: nat                              \<comment> \<open>ids handed out so far\<close>
  live_decoders :: "nat set"
  live_frames :: "nat set"
  allocated :: "nat set"
  trace :: "effect list"

record env =
  throws :: "nat \<Rightarrow> bool"                      \<comment> \<open>the page's function throws when called\<close>
  accepts_url :: "js_val \<Rightarrow> bool"              \<comment> \<open>\<open>new WebSocket(url)\<close> does not throw\<close>
  accepts_stream :: "js_val \<Rightarrow> bool"           \<comment> \<open>the native \<open>open\<close> does not fail\<close>
  is_webgl_player :: "js_val \<Rightarrow> bool"          \<comment> \<open>\<open>instanceof WebGLPlayer\<close>\<close>
  render_throws :: "js_val \<Rightarrow> bool"
  has_leak_check :: bool

text \<open>The native decoder on one message: frames handed to the callback, then maybe an abort.\<close>

record native =
  frames_out :: nat
  aborts :: bool

type_synonym 'a act = "(client, 'a) js"

definition effect :: "effect \<Rightarrow> unit act" where
  "effect e = modify (\<lambda>c. c\<lparr>trace := trace c @ [e]\<rparr>)"

definition fresh_id :: "nat act" where
  "fresh_id = js_bind (gets next_id) (\<lambda>n. js_seq (modify (\<lambda>c. c\<lparr>next_id := Suc n\<rparr>)) (ret n))"

definition opt :: "string \<Rightarrow> js_val act" where
  "opt k = gets (\<lambda>c. get_prop (options c) k)"

text \<open>\<open>f(\<dots>args)\<close> on a value.\<close>

definition call_fn :: "env \<Rightarrow> js_val \<Rightarrow> arg list \<Rightarrow> unit act" where
  "call_fn env v args =
     (case v of
        JFun f \<Rightarrow> js_seq (effect (Called f args)) (if throws env f then throw (ThrownBy f) else ret ())
      | _ \<Rightarrow> throw TypeError)"

text \<open>\<open>this.#options.k && this.#options.k(\<dots>args)\<close>.\<close>

definition call_opt :: "env \<Rightarrow> string \<Rightarrow> arg list \<Rightarrow> unit act" where
  "call_opt env k args = js_bind (opt k) (\<lambda>v. js_when (truthy v) (call_fn env v args))"

definition when_opt :: "string \<Rightarrow> unit act \<Rightarrow> unit act" where
  "when_opt k m = js_bind (opt k) (\<lambda>v. js_when (truthy v) m)"

section \<open>The class\<close>

definition console_log :: nat where "console_log = 0"

definition WsClientOptions :: js_object where
  "WsClientOptions =
     [''url'' \<mapsto> JNull, ''stream'' \<mapsto> JNull,
      ''decode_async'' \<mapsto> JBool False, ''decode_queue_size'' \<mapsto> JNum 0,
      ''decode_thread_count'' \<mapsto> JNum 0, ''decode_thread_type'' \<mapsto> JNum 0,
      ''player'' \<mapsto> JNull,
      ''onopen'' \<mapsto> JNull, ''onmessage'' \<mapsto> JNull, ''onclose'' \<mapsto> JNull, ''onerror'' \<mapsto> JNull,
      ''ondata'' \<mapsto> JNull,
      ''dbg'' \<mapsto> JBool False, ''log'' \<mapsto> JFun console_log, ''wasm_log_v'' \<mapsto> JNum 0]"

text \<open>\<open>#log\<close> and \<open>#logd\<close>.\<close>

definition log :: "env \<Rightarrow> arg list \<Rightarrow> unit act" where
  "log env args = js_bind (opt ''log'') (\<lambda>f. call_fn env f args)"

definition logd :: "env \<Rightarrow> arg list \<Rightarrow> unit act" where
  "logd env args = when_opt ''dbg'' (log env args)"

text \<open>The object before its constructor runs: the field initialisers.\<close>

definition fields :: "int \<Rightarrow> nat \<Rightarrow> client" where
  "fields now n = \<lparr>options = Map.empty, ws = None, decoder = None, t_onmsg = now, next_id = n,
     live_decoders = {}, live_frames = {}, allocated = {}, trace = []\<rparr>"

definition constructor :: "env \<Rightarrow> js_object \<Rightarrow> unit act" where
  "constructor env opts = js_all
    [modify (\<lambda>c. c\<lparr>options := spread WsClientOptions opts\<rparr>),
     logd env [Msg [Lit ''ws options:'']],
     js_bind (gets options) (\<lambda>os. logd env [OptionsArg os]),
     js_bind (opt ''wasm_log_v'') (\<lambda>v. effect (SetV v))]"

definition createOpenGLPlayer :: "nat act" where
  "createOpenGLPlayer = js_bind fresh_id (\<lambda>n. js_seq (effect (NewOpenGLPlayer n)) (ret n))"

definition isOpen :: "client \<Rightarrow> bool" where
  "isOpen c \<longleftrightarrow> ws c \<noteq> None"

definition open_decoder :: "env \<Rightarrow> unit act" where
  "open_decoder env =
     js_bind fresh_id (\<lambda>d.
     js_seq (effect (NewDecoder d))
    (js_seq (modify (\<lambda>c. c\<lparr>decoder := Some d, live_decoders := insert d (live_decoders c)\<rparr>))
    (js_bind (opt ''stream'') (\<lambda>stream. js_bind (opt ''decode_queue_size'') (\<lambda>size.
     js_bind (opt ''decode_thread_count'') (\<lambda>count. js_bind (opt ''decode_thread_type'') (\<lambda>type.
     js_seq (effect (OpenDecoder d stream size count type))
       (if accepts_stream env stream then ret () else throw NativeAbort))))))))"

definition open_socket :: "env \<Rightarrow> unit act" where
  "open_socket env =
     js_bind (opt ''url'') (\<lambda>url.
     if accepts_url env url then
       js_bind fresh_id (\<lambda>n. js_seq (effect (NewSocket n url)) (modify (\<lambda>c. c\<lparr>ws := Some n\<rparr>)))
     else throw SyntaxError)"

text \<open>\<open>open\<close> of a client that is not open, and the guard in front of it.\<close>

definition open_closed :: "env \<Rightarrow> js_object \<Rightarrow> unit act" where
  "open_closed env opts =
     js_seq (modify (\<lambda>c. c\<lparr>options := spread (options c) opts\<rparr>))
    (js_seq (logd env [Msg [Lit ''ws open options:'']])
    (js_seq (js_bind (gets options) (\<lambda>os. logd env [OptionsArg os]))
    (js_bind (opt ''url'') (\<lambda>url.
       if nullish url then log env [Msg [Lit ''ws open error: url is null'']]
       else js_bind (opt ''stream'') (\<lambda>stream.
       if nullish stream then log env [Msg [Lit ''ws open error: stream is null'']]
       else js_seq (open_decoder env) (open_socket env))))))"

definition open_ws :: "env \<Rightarrow> js_object \<Rightarrow> unit act" where
  "open_ws env opts =
     js_bind (gets ws) (\<lambda>w.
     if w \<noteq> None then log env [Msg [Lit ''ws open error: already opened'']]
     else open_closed env opts)"

definition close :: "env \<Rightarrow> unit act" where
  "close env =
     js_bind (gets ws) (\<lambda>w.
     case w of
       None \<Rightarrow> ret ()
     | Some n \<Rightarrow> js_all
         [logd env [Msg [Lit ''ws close'']],
          effect (CloseSocket n),
          modify (\<lambda>c. c\<lparr>ws := None\<rparr>),
          js_bind (gets decoder) (\<lambda>d.
            case d of
              None \<Rightarrow> throw TypeError
            | Some d \<Rightarrow> js_seq (effect (DeleteDecoder d))
                (modify (\<lambda>c. c\<lparr>live_decoders := live_decoders c - {d}\<rparr>))),
          modify (\<lambda>c. c\<lparr>decoder := None\<rparr>),
          when_opt ''dbg'' (js_when (has_leak_check env) (effect LeakCheck))])"

section \<open>Event handlers\<close>

definition onopen :: "env \<Rightarrow> nat \<Rightarrow> unit act" where
  "onopen env e = js_seq (js_bind (opt ''url'') (\<lambda>url. logd env [Msg [Lit ''ws open: '', Val url]]))
    (call_opt env ''onopen'' [Ev e])"

definition onclose :: "env \<Rightarrow> nat \<Rightarrow> unit act" where
  "onclose env e = js_seq (js_bind (opt ''url'') (\<lambda>url. logd env [Msg [Lit ''ws close: '', Val url]]))
    (call_opt env ''onclose'' [Ev e])"

definition onerror :: "env \<Rightarrow> nat \<Rightarrow> unit act" where
  "onerror env e = js_seq (js_bind (opt ''url'') (\<lambda>url. logd env [Msg [Lit ''ws error: '', Val url, Lit '', '', Val (JObj e)]]))
    (call_opt env ''onerror'' [Ev e])"

text \<open>A frame reaches JavaScript as a handle that must be deleted.\<close>

definition new_frame :: "nat act" where
  "new_frame = js_bind fresh_id (\<lambda>h.
     js_seq (effect (NewFrame h))
    (js_seq (modify (\<lambda>c. c\<lparr>live_frames := insert h (live_frames c)\<rparr>)) (ret h)))"

definition delete_frame :: "nat \<Rightarrow> unit act" where
  "delete_frame h = js_seq (effect (DeleteFrame h))
     (modify (\<lambda>c. c\<lparr>live_frames := live_frames c - {h}\<rparr>))"

definition render :: "env \<Rightarrow> js_val \<Rightarrow> nat \<Rightarrow> unit act" where
  "render env player h =
     js_seq (js_when (is_webgl_player env player) (effect (GetBytes h)))
    (js_seq (effect (Render player h))
       (if render_throws env player then throw TypeError else ret ()))"

definition ondecode :: "env \<Rightarrow> nat option \<Rightarrow> unit act" where
  "ondecode env frame = js_all
     [when_opt ''dbg'' (effect (Console ''time ws ondecode'')),
      (case frame of
         Some h \<Rightarrow> js_all
           [logd env [Msg [Lit ''ws frame size='', FrameField h ''width'', Lit ''x'', FrameField h ''height'',
              Lit '', pts='', FrameField h ''pts'']],
            js_bind (opt ''player'') (\<lambda>player. js_when (truthy player) (render env player h)),
            call_opt env ''ondata'' [FrameArg h],
            delete_frame h]
       | None \<Rightarrow> logd env [Msg [Lit ''ws frame is null: decode error or need new packets'']]),
      when_opt ''dbg'' (effect (Console ''timeEnd ws ondecode''))]"

text \<open>The native calls: each frame is handed to \<open>ondecode\<close> under a handle of its own, and
  \<open>decode\<close> returns one more handle to the last one.\<close>

fun deliver :: "env \<Rightarrow> nat \<Rightarrow> unit act" where
  "deliver env 0 = ret ()"
| "deliver env (Suc n) =
     js_bind new_frame (\<lambda>h. js_seq (ondecode env (Some h)) (deliver env n))"

definition decode :: "env \<Rightarrow> native \<Rightarrow> nat \<Rightarrow> nat \<Rightarrow> nat \<Rightarrow> nat option act" where
  "decode env nv d buf n =
     js_seq (effect (DecodeCall d buf n))
    (if aborts nv then throw NativeAbort
     else if frames_out nv = 0 then ret None
     else js_seq (deliver env 1) (js_bind new_frame (\<lambda>h. ret (Some h))))"

definition decodeAsync :: "env \<Rightarrow> native \<Rightarrow> nat \<Rightarrow> nat \<Rightarrow> nat \<Rightarrow> unit act" where
  "decodeAsync env nv d buf n =
     js_seq (effect (DecodeAsyncCall d buf n))
    (js_seq (deliver env (frames_out nv)) (if aborts nv then throw NativeAbort else ret ()))"

text \<open>\<open>const buf = Module._malloc(n); try { \<dots> } finally { Module._free(buf); }\<close>.\<close>

definition with_buffer :: "nat \<Rightarrow> (nat \<Rightarrow> unit act) \<Rightarrow> unit act" where
  "with_buffer n body =
     js_bind fresh_id (\<lambda>buf.
     js_seq (effect (Malloc buf n))
    (js_seq (modify (\<lambda>c. c\<lparr>allocated := insert buf (allocated c)\<rparr>))
       (js_finally (body buf)
         (js_seq (effect (Free buf)) (modify (\<lambda>c. c\<lparr>allocated := allocated c - {buf}\<rparr>))))))"

definition decode_buffer :: "env \<Rightarrow> native \<Rightarrow> nat \<Rightarrow> byte list \<Rightarrow> nat \<Rightarrow> unit act" where
  "decode_buffer env nv d data buf =
     js_seq (effect (HeapSet buf data))
    (js_bind (opt ''decode_async'') (\<lambda>async.
       if truthy async then decodeAsync env nv d buf (length data)
       else js_bind (decode env nv d buf (length data)) (\<lambda>frame.
         case frame of None \<Rightarrow> ret () | Some h \<Rightarrow> delete_frame h)))"

definition onmessage :: "env \<Rightarrow> native \<Rightarrow> int \<Rightarrow> byte list \<Rightarrow> unit act" where
  "onmessage env nv now data = js_all
     [when_opt ''dbg''
        (js_seq (js_bind (opt ''url'') (\<lambda>url. js_bind (gets t_onmsg) (\<lambda>t. logd env
           [Msg [Lit ''ws message: '', Val url, Lit '', interval: '', Millis (now - t), Lit '' ms'']])))
        (modify (\<lambda>c. c\<lparr>t_onmsg := now\<rparr>))),
      when_opt ''dbg'' (effect (Console ''time ws onmessage'')),
      js_bind (gets decoder) (\<lambda>d.
        case d of
          None \<Rightarrow> call_opt env ''ondata'' [DataArg data]
        | Some d \<Rightarrow> with_buffer (length data) (decode_buffer env nv d data)),
      when_opt ''dbg'' (effect (Console ''timeEnd ws onmessage''))]"

section \<open>The client driven by the page and the socket\<close>

datatype event =
    UserOpen js_object | UserClose
  | SockOpen nat | SockMessage native int "byte list" | SockClose nat | SockError nat

fun handle_event :: "env \<Rightarrow> event \<Rightarrow> unit act" where
  "handle_event env (UserOpen opts) = open_ws env opts"
| "handle_event env UserClose = close env"
| "handle_event env (SockOpen e) = onopen env e"
| "handle_event env (SockMessage nv now data) = onmessage env nv now data"
| "handle_event env (SockClose e) = onclose env e"
| "handle_event env (SockError e) = onerror env e"

text \<open>An exception ends its handler, not the page.\<close>

fun run :: "env \<Rightarrow> event list \<Rightarrow> client \<Rightarrow> client" where
  "run env [] c = c"
| "run env (e # es) c = run env es (snd (handle_event env e c))"

section \<open>What the pieces keep\<close>

text \<open>Logging, callbacks and option reads touch the trace only.\<close>

definition trace_free :: "(client \<Rightarrow> bool) \<Rightarrow> bool" where
  "trace_free P \<longleftrightarrow> (\<forall>c t. P c \<longrightarrow> P (c\<lparr>trace := t\<rparr>))"

lemma trace_freeD: "trace_free P \<Longrightarrow> P c \<Longrightarrow> P (c\<lparr>trace := t\<rparr>)"
  by (simp add: trace_free_def)

lemma keeps_effect [js_rules]: "trace_free P \<Longrightarrow> keeps P (effect e)"
  by (auto simp: effect_def keeps_iff modify_def intro: trace_freeD)

lemma keeps_call_fn [js_rules]: "trace_free P \<Longrightarrow> keeps P (call_fn env v args)"
  by (cases v) (auto simp: call_fn_def intro!: js_rules)

lemma keeps_opt [js_rules]: "keeps P (opt k)"
  by (simp add: opt_def js_rules)

lemma keeps_quiet [js_rules]:
  assumes "trace_free P"
  shows "keeps P (call_opt env k args)" "keeps P (log env args)" "keeps P (logd env args)"
    "keeps P m \<Longrightarrow> keeps P (when_opt k m)"
  using assms by (auto simp: call_opt_def log_def logd_def when_opt_def intro!: js_rules)

text \<open>The client's own invariant: an open client has a decoder, and that decoder has not been
  deleted; every id handed out is below \<open>next_id\<close>.\<close>

definition client_ok :: "client \<Rightarrow> bool" where
  "client_ok c \<longleftrightarrow>
     (ws c \<noteq> None \<longrightarrow> decoder c \<noteq> None) \<and>
     (\<forall>d. decoder c = Some d \<longrightarrow> d \<in> live_decoders c) \<and>
     (\<forall>x \<in> live_decoders c \<union> live_frames c \<union> allocated c. x < next_id c)"

lemma client_ok_trace_free: "trace_free client_ok"
  by (simp add: trace_free_def client_ok_def)

lemma client_ok_fields: "client_ok (fields now n)"
  by (simp add: client_ok_def fields_def)

lemma keeps_frames [js_rules]:
  "keeps client_ok fresh_id" "keeps client_ok new_frame" "keeps client_ok (delete_frame h)"
  by (auto simp: keeps_iff js_defs fresh_id_def new_frame_def delete_frame_def effect_def client_ok_def
      less_Suc_eq)

lemma keeps_ondecode [js_rules]: "keeps client_ok (ondecode env f)"
  using client_ok_trace_free
  by (cases f) (auto simp: ondecode_def render_def intro!: js_rules keeps_all)

lemma keeps_deliver [js_rules]: "keeps client_ok (deliver env n)"
  by (induction n) (auto intro!: js_rules)

lemma keeps_native [js_rules]:
  "keeps client_ok (decode env nv d b n)" "keeps client_ok (decodeAsync env nv d b n)"
  using client_ok_trace_free by (auto simp: decode_def decodeAsync_def intro!: js_rules)

lemma keeps_with_buffer:
  assumes "\<And>buf. keeps client_ok (body buf)"
  shows "keeps client_ok (with_buffer n body)"
proof -
  have "keeps client_ok (js_finally (body b)
      (js_seq (effect (Free b)) (modify (\<lambda>c. c\<lparr>allocated := allocated c - {b}\<rparr>))))" for b
    using client_ok_trace_free assms
    by (intro js_rules) (auto simp: client_ok_def)
  moreover have "client_ok c \<Longrightarrow> client_ok (c\<lparr>next_id := Suc (next_id c), trace := t,
      allocated := insert (next_id c) (allocated c)\<rparr>)" for c t
    by (auto simp: client_ok_def less_Suc_eq)
  ultimately show ?thesis
    unfolding with_buffer_def keeps_iff by (simp add: js_bind_def fresh_id_def effect_def modify_def gets_def ret_def)
qed

lemma keeps_decode_buffer: "keeps client_ok (decode_buffer env nv d data buf)"
  using client_ok_trace_free by (auto simp: decode_buffer_def intro!: js_rules)

lemma keeps_onmessage [js_rules]: "keeps client_ok (onmessage env nv now data)"
proof -
  have "keeps client_ok (modify (\<lambda>c. c\<lparr>t_onmsg := now\<rparr>))"
    by (auto simp: keeps_iff modify_def client_ok_def)
  then show ?thesis
    using client_ok_trace_free unfolding onmessage_def
    by (intro keeps_all) (auto intro!: js_rules keeps_with_buffer keeps_decode_buffer)
qed

lemma triple_open_decoder:
  "triple client_ok (open_decoder env) (\<lambda>_ c. client_ok c \<and> decoder c \<noteq> None) (\<lambda>_. client_ok)"
  by (auto simp: triple_iff open_decoder_def js_defs fresh_id_def effect_def opt_def client_ok_def
      less_Suc_eq split: if_splits)

lemma triple_open_socket:
  "triple (\<lambda>c. client_ok c \<and> decoder c \<noteq> None) (open_socket env) (\<lambda>_. client_ok) (\<lambda>_. client_ok)"
  by (auto simp: triple_iff open_socket_def js_defs fresh_id_def effect_def opt_def client_ok_def
      less_Suc_eq split: if_splits)

lemma keeps_open [js_rules]: "keeps client_ok (open_ws env opts)"
proof -
  have "keeps client_ok (js_seq (open_decoder env) (open_socket env))"
    unfolding keeps_def by (rule triple_bind [OF triple_open_decoder triple_open_socket])
  moreover have "keeps client_ok (modify (\<lambda>c. c\<lparr>options := spread (options c) opts\<rparr>))"
    by (simp add: keeps_iff modify_def client_ok_def)
  ultimately show ?thesis
    using client_ok_trace_free unfolding open_ws_def open_closed_def by (auto intro!: js_rules)
qed

text \<open>Closing: after the log line nothing can throw, because the decoder is there.\<close>

definition closed :: "env \<Rightarrow> nat \<Rightarrow> nat \<Rightarrow> client \<Rightarrow> client" where
  "closed env n d c = c\<lparr>ws := None, decoder := None, live_decoders := live_decoders c - {d},
     trace := trace c @ [CloseSocket n, DeleteDecoder d] @
       (if truthy (get_prop (options c) ''dbg'') \<and> has_leak_check env then [LeakCheck] else [])\<rparr>"

lemma close_eq:
  assumes "ws c = Some n" and "decoder c = Some d"
  shows "close env c = (case logd env [Msg [Lit ''ws close'']] c of
      (Inl e, c') \<Rightarrow> (Inl e, c') | (Inr _, c') \<Rightarrow> (Inr (), closed env n d c'))"
proof -
  have "keeps (\<lambda>c'. ws c' = ws c \<and> decoder c' = decoder c) (logd env [Msg [Lit ''ws close'']])"
    by (intro js_rules) (simp add: trace_free_def)
  then have "ws (snd (logd env [Msg [Lit ''ws close'']] c)) = Some n \<and>
      decoder (snd (logd env [Msg [Lit ''ws close'']] c)) = Some d"
    using assms by (auto dest!: keepsD [of _ _ c])
  then show ?thesis
    using assms
    by (auto simp: close_def js_defs effect_def when_opt_def opt_def closed_def split: prod.splits sum.splits)
qed

lemma keeps_close [js_rules]: "keeps client_ok (close env)"
  unfolding keeps_iff
proof (intro allI impI)
  fix c assume ok: "client_ok c"
  show "client_ok (snd (close env c))"
  proof (cases "ws c")
    case None
    then show ?thesis using ok by (simp add: close_def js_defs)
  next
    case (Some n)
    then obtain d where d: "decoder c = Some d" using ok by (auto simp: client_ok_def)
    have "keeps client_ok (logd env [Msg [Lit ''ws close'']])"
      by (intro js_rules client_ok_trace_free)
    then have "client_ok (snd (logd env [Msg [Lit ''ws close'']] c))" using ok by (rule keepsD)
    then show ?thesis
      by (auto simp: close_eq [OF Some d] closed_def client_ok_def split: prod.splits sum.splits)
  qed
qed

lemma keeps_handle_event: "keeps client_ok (handle_event env e)"
  using client_ok_trace_free
  by (cases e) (auto simp: onopen_def onclose_def onerror_def intro!: js_rules)

lemma run_keeps:
  assumes "\<And>e. e \<in> set es \<Longrightarrow> keeps P (handle_event env e)" and "P c"
  shows "P (run env es c)"
  using assms by (induction es arbitrary: c) (auto dest: keepsD)

section \<open>Native resources\<close>

text \<open>The buffer of a message: the code between \<open>_malloc\<close> and \<open>_free\<close> leaves the allocated
  blocks alone.\<close>

lemma keeps_allocated_frames:
  "keeps (\<lambda>c. allocated c = A) fresh_id" "keeps (\<lambda>c. allocated c = A) new_frame"
  "keeps (\<lambda>c. allocated c = A) (delete_frame h)"
  by (auto simp: keeps_iff js_defs fresh_id_def new_frame_def delete_frame_def effect_def)

lemma allocated_trace_free: "trace_free (\<lambda>c. allocated c = A)"
  by (simp add: trace_free_def)

lemma keeps_allocated_ondecode: "keeps (\<lambda>c. allocated c = A) (ondecode env f)"
  using allocated_trace_free
  by (cases f) (auto simp: ondecode_def render_def intro!: js_rules keeps_all keeps_allocated_frames)

lemma keeps_allocated_deliver: "keeps (\<lambda>c. allocated c = A) (deliver env n)"
  by (induction n) (auto intro!: js_rules keeps_allocated_frames keeps_allocated_ondecode)

lemma keeps_allocated_decode_buffer: "keeps (\<lambda>c. allocated c = A) (decode_buffer env nv d data buf)"
  using allocated_trace_free
  by (auto simp: decode_buffer_def decode_def decodeAsync_def
      intro!: js_rules keeps_allocated_frames keeps_allocated_deliver keeps_allocated_ondecode)

lemma keeps_allocated_with_buffer:
  assumes "\<And>A buf. keeps (\<lambda>c. allocated c = A) (body buf)"
  shows "keeps (\<lambda>c. allocated c = {}) (with_buffer n body)"
proof -
  have "allocated c = {b} \<Longrightarrow> allocated (snd (js_finally (body b)
      (js_seq (effect (Free b)) (modify (\<lambda>c. c\<lparr>allocated := allocated c - {b}\<rparr>))) c)) = {}" for b c
    using keepsD [OF assms, of c _ b]
    by (auto simp: js_finally_def js_bind_def effect_def modify_def split: prod.splits)
  then show ?thesis
    by (simp add: keeps_iff with_buffer_def js_bind_def fresh_id_def effect_def modify_def gets_def ret_def)
qed

lemma keeps_allocated_event: "keeps (\<lambda>c. allocated c = {}) (handle_event env e)"
proof -
  have quiet: "keeps (\<lambda>c. allocated c = A) (modify (\<lambda>c. c\<lparr>t_onmsg := now\<rparr>))"
    "keeps (\<lambda>c. allocated c = A) (modify (\<lambda>c. c\<lparr>options := f c\<rparr>))"
    "keeps (\<lambda>c. allocated c = A) (modify (\<lambda>c. c\<lparr>ws := v\<rparr>))"
    "keeps (\<lambda>c. allocated c = A) (modify (\<lambda>c. c\<lparr>decoder := v\<rparr>))"
    "keeps (\<lambda>c. allocated c = A) (modify (\<lambda>c. c\<lparr>live_decoders := live_decoders c - D\<rparr>))"
    "keeps (\<lambda>c. allocated c = A) (modify (\<lambda>c. c\<lparr>decoder := v, live_decoders := insert x (live_decoders c)\<rparr>))"
    for A now v D x and f :: "client \<Rightarrow> js_object"
    by (auto simp: keeps_iff modify_def)
  note rules = js_rules quiet keeps_all keeps_allocated_frames allocated_trace_free
    keeps_allocated_with_buffer keeps_allocated_decode_buffer
  show ?thesis
  proof (cases e)
    case (UserOpen opts)
    then show ?thesis
      by (auto simp: open_ws_def open_closed_def open_decoder_def open_socket_def intro!: rules)
  next
    case UserClose
    then show ?thesis by (auto simp: close_def intro!: rules)
  next
    case (SockMessage nv now data)
    then show ?thesis by (auto simp: onmessage_def intro!: rules)
  qed (auto simp: onopen_def onclose_def onerror_def intro!: rules)
qed

text \<open>The decoders: exactly the current one is live, as long as nothing between creating the
  decoder and storing the socket throws.\<close>

definition decoders_exact :: "client \<Rightarrow> bool" where
  "decoders_exact c \<longleftrightarrow>
     (ws c = None \<longleftrightarrow> decoder c = None) \<and> live_decoders c = set_option (decoder c)"

lemma decoders_exact_trace_free: "trace_free decoders_exact" "trace_free (\<lambda>c. decoders_exact c \<and> ws c = None)"
  by (auto simp: trace_free_def decoders_exact_def)

lemma open_socket_accepted:
  assumes "\<And>u. accepts_url env u" "\<And>st. accepts_stream env st" "decoders_exact c" "ws c = None"
  shows "decoders_exact (snd (js_seq (open_decoder env) (open_socket env) c))"
  using assms
  by (simp add: open_decoder_def open_socket_def js_defs fresh_id_def effect_def opt_def decoders_exact_def)

lemma open_closed_exact:
  assumes accepted: "\<And>u. accepts_url env u" "\<And>st. accepts_stream env st"
  shows "triple (\<lambda>c. decoders_exact c \<and> ws c = None) (open_closed env opts)
    (\<lambda>_. decoders_exact) (\<lambda>_. decoders_exact)"
proof -
  let ?K = "\<lambda>c. decoders_exact c \<and> ws c = None"
  note quiet = js_rules decoders_exact_trace_free(2)
  have opened: "triple ?K (js_seq (open_decoder env) (open_socket env)) (\<lambda>_. decoders_exact) (\<lambda>_. decoders_exact)"
    using open_socket_accepted [OF accepted] unfolding triple_iff by (metis snd_conv)
  have logged: "triple ?K (log env args) (\<lambda>_. decoders_exact) (\<lambda>_. decoders_exact)" for args
  proof -
    have "keeps ?K (log env args)" by (intro quiet)
    then show ?thesis unfolding keeps_def by (rule triple_weaken) auto
  qed
  have set_options: "keeps ?K (modify (\<lambda>c. c\<lparr>options := spread (options c) opts\<rparr>))"
    by (auto simp: keeps_iff modify_def decoders_exact_def)
  show ?thesis
    unfolding open_closed_def
    by (rule triple_bind_keeps, rule set_options, rule triple_bind_keeps, (intro quiet)[1],
        rule triple_bind_keeps, (intro quiet)[1], rule triple_bind_keeps, (intro quiet)[1],
        rule triple_if, rule logged, rule triple_bind_keeps, (intro quiet)[1],
        rule triple_if, rule logged, rule opened) auto
qed

lemma decoders_exact_open:
  assumes "\<And>u. accepts_url env u" "\<And>st. accepts_stream env st"
  shows "keeps decoders_exact (open_ws env opts)"
  unfolding keeps_iff
proof (intro allI impI)
  fix c assume exact: "decoders_exact c"
  have "keeps decoders_exact (log env args)" for args
    by (intro js_rules decoders_exact_trace_free)
  moreover have "ws c = None \<Longrightarrow> decoders_exact (snd (open_closed env opts c))"
    using exact by (blast intro: triple_snd [OF open_closed_exact [OF assms]])
  ultimately show "decoders_exact (snd (open_ws env opts c))"
    using exact by (auto simp: open_ws_def js_bind_def gets_def keepsD)
qed

lemma decoders_exact_close: "keeps decoders_exact (close env)"
  unfolding keeps_iff
proof (intro allI impI)
  fix c assume exact: "decoders_exact c"
  have "keeps decoders_exact (logd env args)" for args
    by (intro js_rules decoders_exact_trace_free)
  then have logged: "decoders_exact (snd (logd env args c))" for args
    using exact by (rule keepsD)
  show "decoders_exact (snd (close env c))"
  proof (cases "ws c")
    case None
    then show ?thesis using exact by (simp add: close_def js_defs)
  next
    case (Some n)
    then obtain d where d: "decoder c = Some d" using exact by (auto simp: decoders_exact_def)
    have "keeps (\<lambda>c. decoder c = Some d) (logd env [Msg [Lit ''ws close'']])"
      by (intro js_rules) (simp add: trace_free_def)
    then have "decoder (snd (logd env [Msg [Lit ''ws close'']] c)) = Some d" using d by (rule keepsD)
    moreover obtain r c' where c': "logd env [Msg [Lit ''ws close'']] c = (r, c')" by (rule prod.exhaust)
    ultimately have "decoders_exact c' \<and> decoder c' = Some d"
      using logged [of "[Msg [Lit ''ws close'']]"] by (simp add: c')
    then show ?thesis
      unfolding close_eq [OF Some d] c' by (cases r) (auto simp: closed_def decoders_exact_def)
  qed
qed

text \<open>What the events of the socket keep: any property of the state that does not look at the
  trace, the clock, the ids, the frame handles and the blocks of the heap.\<close>

definition socket_free :: "(client \<Rightarrow> bool) \<Rightarrow> bool" where
  "socket_free P \<longleftrightarrow> (\<forall>c t m k F A. P c \<longrightarrow>
     P (c\<lparr>trace := t\<rparr>) \<and> P (c\<lparr>t_onmsg := m\<rparr>) \<and> P (c\<lparr>next_id := k\<rparr>) \<and> P (c\<lparr>live_frames := F\<rparr>) \<and>
     P (c\<lparr>allocated := A\<rparr>))"

fun socket_event :: "event \<Rightarrow> bool" where
  "socket_event (UserOpen _) = False"
| "socket_event UserClose = False"
| "socket_event _ = True"

lemma keeps_onmessage_free:
  assumes free: "socket_free P"
  shows "keeps P (onmessage env nv now data)"
proof -
  have quiet: "trace_free P" using free by (simp add: socket_free_def trace_free_def)
  have fields: "P c \<Longrightarrow> P (c\<lparr>next_id := k\<rparr>)" "P c \<Longrightarrow> P (c\<lparr>live_frames := F\<rparr>)" "P c \<Longrightarrow> P (c\<lparr>allocated := A\<rparr>)"
    "P c \<Longrightarrow> P (c\<lparr>t_onmsg := m\<rparr>)" for c k F A m
    using free by (auto simp: socket_free_def)
  have fresh: "keeps P fresh_id" by (auto simp: fresh_id_def intro!: js_rules fields)
  note rules = js_rules keeps_all quiet fields fresh
  have frames: "keeps P new_frame" "keeps P (delete_frame h)" for h
    by (auto simp: new_frame_def delete_frame_def intro!: rules)
  have ondecode: "keeps P (ondecode env f)" for f
    by (cases f) (auto simp: ondecode_def render_def intro!: rules frames)
  have deliver: "keeps P (deliver env n)" for n
    by (induction n) (auto intro!: rules frames ondecode)
  have "keeps P (decode_buffer env nv d data buf)" for d buf
    by (auto simp: decode_buffer_def decode_def decodeAsync_def intro!: rules frames deliver ondecode)
  then show ?thesis
    by (auto simp: onmessage_def with_buffer_def intro!: rules)
qed

lemma keeps_socket_event:
  assumes "socket_free P" and "socket_event e"
  shows "keeps P (handle_event env e)"
proof -
  have "trace_free P" using assms(1) by (simp add: socket_free_def trace_free_def)
  then show ?thesis
    using assms keeps_onmessage_free [OF assms(1)]
    by (cases e) (auto simp: onopen_def onclose_def onerror_def intro!: js_rules)
qed

lemma decoders_exact_free: "socket_free decoders_exact"
  by (simp add: socket_free_def decoders_exact_def)

lemma decoders_exact_message: "keeps decoders_exact (onmessage env nv now data)"
  by (rule keeps_onmessage_free [OF decoders_exact_free])

lemma decoders_exact_event:
  assumes "\<And>u. accepts_url env u" "\<And>st. accepts_stream env st"
  shows "keeps decoders_exact (handle_event env e)"
  using decoders_exact_open [OF assms] decoders_exact_close decoders_exact_message
    decoders_exact_trace_free
  by (cases e) (auto simp: onopen_def onclose_def onerror_def intro!: js_rules)

text \<open>The frame handles: code that returns normally has deleted every handle it was given.\<close>

definition frames_are :: "nat set \<Rightarrow> client \<Rightarrow> bool" where
  "frames_are F c \<longleftrightarrow> live_frames c = F \<and> client_ok c"

definition holds_frame :: "nat set \<Rightarrow> nat \<Rightarrow> client \<Rightarrow> bool" where
  "holds_frame F h c \<longleftrightarrow> frames_are (insert h F) c \<and> h \<notin> F"

lemma frames_trace_free: "trace_free (frames_are F)" "trace_free (holds_frame F h)"
  by (auto simp: trace_free_def frames_are_def holds_frame_def client_ok_def)

lemmas frame_rules = js_rules frames_trace_free

lemma new_frame_returns: "triple (frames_are F) new_frame (\<lambda>h. holds_frame F h) (\<lambda>_ _. True)"
  by (auto simp: triple_iff js_defs new_frame_def fresh_id_def effect_def holds_frame_def frames_are_def
      client_ok_def less_Suc_eq)

lemma delete_frame_returns: "triple (holds_frame F h) (delete_frame h) (\<lambda>_. frames_are F) (\<lambda>_ _. True)"
  by (auto simp: triple_iff js_defs delete_frame_def effect_def holds_frame_def frames_are_def client_ok_def)

lemma returns_keeps: "keeps K m \<Longrightarrow> triple K m (\<lambda>_. K) (\<lambda>_ _. True)"
  unfolding keeps_def triple_iff by blast

lemma ondecode_returns: "triple (holds_frame F h) (ondecode env (Some h)) (\<lambda>_. frames_are F) (\<lambda>_ _. True)"
proof -
  have player: "keeps (holds_frame F h)
      (js_bind (opt ''player'') (\<lambda>player. js_when (truthy player) (render env player h)))"
    by (auto simp: render_def intro!: frame_rules)
  show ?thesis
    unfolding ondecode_def js_all.simps option.case
    by (rule triple_bind_keeps, (intro frame_rules)[1], rule triple_bind, rule triple_bind_keeps,
        (intro frame_rules)[1], rule triple_bind_keeps, rule player, rule triple_bind_keeps,
        (intro frame_rules)[1], rule triple_bind, rule delete_frame_returns, rule triple_ret, rule TrueI,
        rule TrueI, rule TrueI, rule returns_keeps, (intro frame_rules)[1], rule TrueI)
qed

lemma deliver_returns: "triple (frames_are F) (deliver env n) (\<lambda>_. frames_are F) (\<lambda>_ _. True)"
proof (induction n)
  case 0
  show ?case using triple_ret [of "\<lambda>_. frames_are F"] by simp
next
  case (Suc n)
  show ?case
    unfolding deliver.simps
    by (rule triple_bind [OF new_frame_returns triple_bind [OF ondecode_returns Suc]])
qed

lemma decode_returns:
  "triple (frames_are F) (decode env nv d buf n)
     (\<lambda>r. case r of None \<Rightarrow> frames_are F | Some h \<Rightarrow> holds_frame F h) (\<lambda>_ _. True)"
proof -
  let ?Q = "\<lambda>r. case r of None \<Rightarrow> frames_are F | Some h \<Rightarrow> holds_frame F h"
  have delivered: "triple (frames_are F) (js_seq (deliver env 1) (js_bind new_frame (\<lambda>h. ret (Some h))))
      (\<lambda>r. case r of None \<Rightarrow> frames_are F | Some h \<Rightarrow> holds_frame F h) (\<lambda>_ _. True)"
    by (rule triple_bind [OF deliver_returns triple_bind [OF new_frame_returns]])
      (simp add: triple_iff ret_def)
  have "triple (frames_are F) (throw NativeAbort) ?Q (\<lambda>_ _. True)"
    "triple (frames_are F) (ret None) ?Q (\<lambda>_ _. True)"
    by (auto simp: triple_iff throw_def ret_def)
  then show ?thesis
    unfolding decode_def using delivered
    by (intro triple_bind_keeps [OF keeps_effect [OF frames_trace_free(1)]] triple_if) simp_all
qed

lemma decodeAsync_returns: "triple (frames_are F) (decodeAsync env nv d buf n) (\<lambda>_. frames_are F) (\<lambda>_ _. True)"
  unfolding decodeAsync_def
  by (rule triple_bind_keeps, (intro frame_rules)[1], rule triple_bind, rule deliver_returns)
    (auto simp: triple_iff throw_def ret_def)

lemma decode_buffer_returns: "triple (frames_are F) (decode_buffer env nv d data buf) (\<lambda>_. frames_are F) (\<lambda>_ _. True)"
proof -
  have "triple (case r of None \<Rightarrow> frames_are F | Some h \<Rightarrow> holds_frame F h)
      (case r of None \<Rightarrow> ret () | Some h \<Rightarrow> delete_frame h) (\<lambda>_. frames_are F) (\<lambda>_ _. True)" for r
    using delete_frame_returns by (cases r) (auto simp: triple_iff ret_def)
  then show ?thesis
    unfolding decode_buffer_def
    by (intro triple_bind_keeps triple_if triple_bind [OF decode_returns] decodeAsync_returns)
      (auto intro!: frame_rules)
qed

lemma with_buffer_returns:
  assumes "\<And>buf. triple (frames_are F) (body buf) (\<lambda>_. frames_are F) (\<lambda>_ _. True)"
  shows "triple (frames_are F) (with_buffer n body) (\<lambda>_. frames_are F) (\<lambda>_ _. True)"
proof -
  have "triple (frames_are F) (js_finally (body b)
      (js_seq (effect (Free b)) (modify (\<lambda>c. c\<lparr>allocated := allocated c - {b}\<rparr>))))
      (\<lambda>_. frames_are F) (\<lambda>_ _. True)" for b
    using assms [of b]
    by (fastforce simp: triple_def js_defs effect_def frames_are_def client_ok_def split: prod.splits sum.splits)
  moreover have "frames_are F c \<Longrightarrow> frames_are F (c\<lparr>next_id := Suc (next_id c), trace := t,
      allocated := insert (next_id c) (allocated c)\<rparr>)" for c t
    by (auto simp: frames_are_def client_ok_def less_Suc_eq)
  ultimately show ?thesis
    unfolding with_buffer_def triple_iff
    by (simp add: js_bind_def fresh_id_def effect_def modify_def gets_def ret_def) blast
qed

lemma onmessage_returns:
  "triple (frames_are F) (onmessage env nv now data) (\<lambda>_. frames_are F) (\<lambda>_ _. True)"
proof -
  have timed: "frames_are F c \<Longrightarrow> frames_are F (c\<lparr>t_onmsg := now\<rparr>)" for c
    by (auto simp: frames_are_def client_ok_def)
  have decoded: "triple (frames_are F) (case d of None \<Rightarrow> call_opt env ''ondata'' [DataArg data]
      | Some d \<Rightarrow> with_buffer (length data) (decode_buffer env nv d data))
      (\<lambda>_. frames_are F) (\<lambda>_ _. True)" for d
    by (cases d) (auto intro!: returns_keeps frame_rules with_buffer_returns decode_buffer_returns)
  have quiet: "triple (frames_are F) (when_opt ''dbg'' (effect e)) (\<lambda>_. frames_are F) (\<lambda>_ _. True)" for e
    by (intro returns_keeps frame_rules)
  show ?thesis
    unfolding onmessage_def js_all.simps
    by (rule triple_bind_keeps, (intro frame_rules timed; assumption), rule triple_bind, rule quiet,
        rule triple_bind, rule triple_bind_keeps, (intro frame_rules)[1], rule decoded, rule TrueI,
        rule triple_bind, rule quiet, rule triple_ret, rule TrueI)
qed

section \<open>Properties\<close>

text \<open>A page and a decoder for the witnesses, and the options of a page that plays a stream.\<close>

definition sample_env :: env where
  "sample_env = \<lparr>throws = (\<lambda>_. False), accepts_url = (\<lambda>v. v \<noteq> JStr ''rtsp://x''), accepts_stream = (\<lambda>_. True),
     is_webgl_player = (\<lambda>v. v = JObj 7), render_throws = (\<lambda>_. False), has_leak_check = False\<rparr>"

definition sample_options :: js_object where
  "sample_options = [''url'' \<mapsto> JStr ''ws://x'', ''stream'' \<mapsto> JObj 3, ''player'' \<mapsto> JObj 7, ''ondata'' \<mapsto> JFun 5]"

lemmas client_simps = js_defs open_ws_def open_closed_def open_decoder_def open_socket_def
  effect_def opt_def fresh_id_def when_opt_def logd_def log_def call_opt_def call_fn_def

text \<open>C7.  In every sequence of page calls and socket events, whatever the page's callbacks
  throw, a client that reports itself open has a native decoder that was not deleted; so
  \<open>close\<close> and the message handler never use a deleted or missing decoder.\<close>

theorem open_client_has_live_decoder:
  assumes "isOpen (run env es (snd (constructor env opts (fields now n))))"
  shows "\<exists>d. decoder (run env es (snd (constructor env opts (fields now n)))) = Some d \<and>
    d \<in> live_decoders (run env es (snd (constructor env opts (fields now n))))"
proof -
  have "keeps client_ok (modify (\<lambda>c. c\<lparr>options := spread WsClientOptions opts\<rparr>))"
    by (simp add: keeps_iff modify_def client_ok_def)
  then have "keeps client_ok (constructor env opts)"
    using client_ok_trace_free unfolding constructor_def by (auto intro!: keeps_all js_rules)
  then have "client_ok (run env es (snd (constructor env opts (fields now n))))"
    by (intro run_keeps [where P = client_ok] keeps_handle_event keepsD [where P = client_ok] client_ok_fields)
  then show ?thesis using assms by (auto simp: client_ok_def isOpen_def)
qed

theorem open_client_has_live_decoder_witness:
  "\<exists>d. decoder (run sample_env [UserOpen sample_options]
      (snd (constructor sample_env Map.empty (fields 0 0)))) = Some d \<and>
    d \<in> live_decoders (run sample_env [UserOpen sample_options]
      (snd (constructor sample_env Map.empty (fields 0 0))))"
  by (rule open_client_has_live_decoder)
    (simp add: client_simps constructor_def fields_def sample_env_def sample_options_def isOpen_def
      WsClientOptions_def spread_def get_prop_def nullish_def)

text \<open>C6.  When the WebSocket constructor and the native \<open>open\<close> accept what the page passes,
  the current decoder is the only live one after any sequence of page calls and socket events
  (callbacks that throw included): no decoder is leaked, and none exists while the client is
  closed.\<close>

theorem only_current_decoder_is_live:
  assumes "\<And>u. accepts_url env u" and "\<And>st. accepts_stream env st"
  shows "live_decoders (run env es (fields now n)) = set_option (decoder (run env es (fields now n))) \<and>
    isOpen (run env es (fields now n)) = (decoder (run env es (fields now n)) \<noteq> None)"
proof -
  have "decoders_exact (run env es (fields now n))"
    by (rule run_keeps [where P = decoders_exact], rule decoders_exact_event [OF assms])
      (simp add: decoders_exact_def fields_def)
  then show ?thesis by (auto simp: decoders_exact_def isOpen_def)
qed

theorem only_current_decoder_is_live_witness:
  "let c = run (sample_env\<lparr>accepts_url := \<lambda>_. True\<rparr>) [UserOpen sample_options, UserClose, UserOpen sample_options]
      (fields 0 0)
   in live_decoders c = set_option (decoder c) \<and> isOpen c = (decoder c \<noteq> None)"
  unfolding Let_def by (rule only_current_decoder_is_live) (simp_all add: sample_env_def)

text \<open>A URL that the WebSocket constructor rejects (it throws a \<open>SyntaxError\<close>) leaks the
  decoder created just before: the exception reaches the page, the client reports itself
  closed, the decoder stays alive, and \<open>close\<close> does nothing about it.\<close>

lemma refused_url_leaks_decoder:
  assumes "ws c = None" and "decoder c = None"
    and "get_prop (spread (options c) opts) ''dbg'' = JBool False"
    and "get_prop (spread (options c) opts) ''url'' = url" "\<not> nullish url" "\<not> accepts_url env url"
    and "get_prop (spread (options c) opts) ''stream'' = stream" "\<not> nullish stream" "accepts_stream env stream"
  shows "fst (open_ws env opts c) = Inl SyntaxError \<and>
    \<not> isOpen (snd (open_ws env opts c)) \<and>
    next_id c \<in> live_decoders (snd (open_ws env opts c)) \<and>
    close env (snd (open_ws env opts c)) = (Inr (), snd (open_ws env opts c))"
  using assms by (simp_all add: client_simps isOpen_def close_def)

text \<open>C17.  The buffer that carries a message to the native decoder is freed on every path: after
  any sequence of events no block of the wasm heap is left allocated, even when the decoder
  aborts or a callback of the page throws.\<close>

theorem message_buffers_are_freed: "allocated (run env es (fields now n)) = {}"
  by (rule run_keeps [where P = "\<lambda>c. allocated c = {}"], rule keeps_allocated_event) (simp add: fields_def)

text \<open>C16.  A message handler that returns normally has deleted every frame handle the decoder
  gave it, in synchronous and asynchronous decoding: the frame handles alive are those that
  were alive before.\<close>

theorem frames_deleted_on_return:
  assumes "client_ok c" and "fst (onmessage env nv now data c) = Inr ()"
  shows "live_frames (snd (onmessage env nv now data c)) = live_frames c"
proof -
  have "frames_are (live_frames c) c" using assms(1) by (simp add: frames_are_def)
  moreover obtain c' where "onmessage env nv now data c = (Inr (), c')"
    using assms(2) by (cases "onmessage env nv now data c") simp
  ultimately show ?thesis
    using tripleD(1) [OF onmessage_returns] by (fastforce simp: frames_are_def)
qed

definition playing_client :: client where
  "playing_client = (fields 0 2)\<lparr>options := spread WsClientOptions sample_options, ws := Some 1,
     decoder := Some 0, live_decoders := {0}\<rparr>"

theorem frames_deleted_on_return_witness:
  "live_frames (snd (onmessage sample_env \<lparr>frames_out = 1, aborts = False\<rparr> 9 [1, 2] playing_client)) =
   live_frames playing_client"
  by (rule frames_deleted_on_return)
    (simp_all add: playing_client_def fields_def client_ok_def client_simps onmessage_def with_buffer_def
      decode_buffer_def decode_def new_frame_def ondecode_def render_def delete_frame_def
      sample_env_def sample_options_def WsClientOptions_def spread_def get_prop_def)

text \<open>One message on an open client that renders with WebGL and has an \<open>ondata\<close> callback:
  the exact sequence of native and page calls, with the frame rendered before \<open>ondata\<close> sees it,
  both handles of the frame deleted, and the buffer freed last.\<close>

lemma message_trace:
  assumes "decoder c = Some d" and "options c = spread WsClientOptions opts"
    and "get_prop (options c) ''dbg'' = JBool False" and "\<not> truthy (get_prop (options c) ''decode_async'')"
    and "get_prop (options c) ''player'' = JObj p" "is_webgl_player env (JObj p)" "\<not> render_throws env (JObj p)"
    and "get_prop (options c) ''ondata'' = JFun f" "\<not> throws env f"
    and "0 < frames_out nv" "\<not> aborts nv"
  shows "trace (snd (onmessage env nv now data c)) = trace c @
    [Malloc (next_id c) (length data), HeapSet (next_id c) data,
     DecodeCall d (next_id c) (length data),
     NewFrame (next_id c + 1), GetBytes (next_id c + 1), Render (JObj p) (next_id c + 1),
     Called f [FrameArg (next_id c + 1)], DeleteFrame (next_id c + 1),
     NewFrame (next_id c + 2), DeleteFrame (next_id c + 2), Free (next_id c)]"
  using assms(1,3-)
  by (simp add: client_simps onmessage_def with_buffer_def decode_buffer_def decode_def new_frame_def
      ondecode_def render_def delete_frame_def)

text \<open>The client does not notice that its socket is gone: after a close and an error event
  of the socket it still reports itself open, and \<open>open\<close> only logs that it is already open,
  until the page calls \<open>close\<close>.\<close>

lemma socket_close_leaves_client_open:
  assumes "ws c = Some s" and "get_prop (options c) ''log'' = JFun g" "\<not> throws env g"
    and "get_prop (options c) ''dbg'' = JBool False"
    and "get_prop (options c) ''onclose'' = JNull" "get_prop (options c) ''onerror'' = JNull"
  shows "run env [SockError e1, SockClose e2, UserOpen opts] c =
    c\<lparr>trace := trace c @ [Called g [Msg [Lit ''ws open error: already opened'']]]\<rparr>"
  using assms by (simp add: client_simps onclose_def onerror_def)

end
