(* ===== verification/WebGL.thy ===== *)
theory WebGL imports Js Complex_Main begin

text \<open>
  \<open>ws-wasm-player/lib/webgl.js\<close>: the textures, the shader set-up, the rendering of a YUV420P
  frame and the fullscreen switches.  The calls into WebGL are recorded in order in \<open>calls\<close>.
  \<open>gl_exec\<close> is what the WebGL documentation says those calls do to the texture units; what
  the samplers of the shader read is defined from it.  The native players are modelled over the same
  calls (theory \<open>NativeGl\<close>).
\<close>

section \<open>The WebGL context\<close>

datatype gl_call =
    PixelStorei string nat
  | CreateProgram nat
  | CreateShader nat string | ShaderSource nat string | CompileShader nat
  | AttachShader nat nat | LinkProgram nat | UseProgram nat
  | CreateBuffer nat | BindBuffer string nat | BufferData string "rat list" string
  | EnableVertexAttribArray nat string
  | VertexAttribPointer nat string nat string bool nat nat
  | CreateTexture nat | BindTexture nat | TexParameteri string string
  | ActiveTexture nat | Uniform1i nat string nat
  | TexImage2D string int int "byte list"
  | Viewport int int int int | ClearColor rat rat rat rat | Clear string
  | DrawArrays string nat nat
  | Log string
  \<comment> \<open>only the native players\<close>
  | DeleteShader nat | DeleteProgram nat | DeleteTexture nat | DeleteBuffer nat
  | GenVertexArray nat | BindVertexArray nat | DeleteVertexArray nat
  | EnableLocation nat | LocationPointer nat nat nat nat
  | CreateWindowAndRenderer int int | SetAttribute string nat | SwapWindow
  | DestroyRenderer | DestroyWindow

text \<open>The player and its context: the names handed out, the textures stored as \<open>gl.y\<close>,
  \<open>gl.u\<close>, \<open>gl.v\<close>, and the calls made.\<close>

record gl_page =
  has_gl :: bool
  canvas_width :: int
  canvas_height :: int
  tex_y :: "nat option"
  tex_u :: "nat option"
  tex_v :: "nat option"
  next_name :: nat
  calls :: "gl_call list"

record gl_env =
  context_available :: bool
  shader_info_log :: "nat \<Rightarrow> string"
  link_ok :: bool

type_synonym 'a gl_act = "(gl_page, 'a) js"

definition call :: "gl_call \<Rightarrow> unit gl_act" where
  "call c = modify (\<lambda>p. p\<lparr>calls := calls p @ [c]\<rparr>)"

definition create :: "(nat \<Rightarrow> gl_call) \<Rightarrow> nat gl_act" where
  "create mk = js_bind (gets next_name) (\<lambda>n. js_seq (modify (\<lambda>p. p\<lparr>next_name := Suc n\<rparr>))
     (js_seq (call (mk n)) (ret n)))"

section \<open>Texture\<close>

definition Texture_constructor :: "nat gl_act" where
  "Texture_constructor =
     js_bind (create CreateTexture) (\<lambda>t. js_seq (js_all
       [call (BindTexture t),
        call (TexParameteri ''TEXTURE_MAG_FILTER'' ''LINEAR''),
        call (TexParameteri ''TEXTURE_MIN_FILTER'' ''LINEAR''),
        call (TexParameteri ''TEXTURE_WRAP_S'' ''CLAMP_TO_EDGE''),
        call (TexParameteri ''TEXTURE_WRAP_T'' ''CLAMP_TO_EDGE'')]) (ret t))"

definition bind_texture :: "nat \<Rightarrow> nat \<Rightarrow> nat \<Rightarrow> string \<Rightarrow> unit gl_act" where
  "bind_texture t n program name = js_all
     [call (ActiveTexture n), call (BindTexture t), call (Uniform1i program name n)]"

definition fill :: "nat \<Rightarrow> int \<Rightarrow> int \<Rightarrow> byte list \<Rightarrow> string option \<Rightarrow> unit gl_act" where
  "fill t width height data format =
     (let format = (case format of None \<Rightarrow> ''LUMINANCE'' | Some f \<Rightarrow> f) in
      js_all [call (BindTexture t), call (TexImage2D format width height data)])"

section \<open>Initialisation\<close>

text \<open>\<open>[\<dots>].join("\n")\<close>.\<close>

fun join_lines :: "string list \<Rightarrow> string" where
  "join_lines [] = []"
| "join_lines [l] = l"
| "join_lines (l # ls) = l @ CHR 0x0A # join_lines ls"

definition vertexShaderSource :: string where
  "vertexShaderSource = join_lines
    [''attribute highp vec3 aPos;'',
     ''attribute vec2 aTexCoord;'',
     ''varying highp vec2 vTexCoord;'',
     ''void main(void) {'',
     ''  gl_Position = vec4(aPos, 1.0);'',
     ''  vTexCoord = aTexCoord;'',
     ''}'']"

definition fragmentShaderSource :: string where
  "fragmentShaderSource = join_lines
    [''precision highp float;'',
     ''varying lowp vec2 vTexCoord;'',
     ''uniform sampler2D yTex;'',
     ''uniform sampler2D uTex;'',
     ''uniform sampler2D vTex;'',
     ''const mat4 YUV2RGB = mat4('',
     ''  1.1643828125,             0, 1.59602734375, -.87078515625,'',
     ''  1.1643828125, -.39176171875,    -.81296875,     .52959375,'',
     ''  1.1643828125,   2.017234375,             0,  -1.081390625,'',
     ''             0,             0,             0,             1'',
     '');'',
     ''void main(void) {'',
     ''  // gl_FragColor = vec4(vTexCoord.x, vTexCoord.y, 0., 1.0);'',
     ''  gl_FragColor = vec4('',
     ''    texture2D(yTex, vTexCoord).x,'',
     ''    texture2D(uTex, vTexCoord).x,'',
     ''    texture2D(vTex, vTexCoord).x,'',
     ''    1'',
     ''  ) * YUV2RGB;'',
     ''}'']"

text \<open>The fragment shader's arithmetic.  \<open>mat4\<close> takes its columns in order, and a row vector
  times a matrix is the product with each column: each line of the constant is one channel.\<close>

definition YUV2RGB :: "rat list list" where
  "YUV2RGB =
    [[11643828125 / 10000000000, 0, 159602734375 / 100000000000, - 87078515625 / 100000000000],
     [11643828125 / 10000000000, - 39176171875 / 100000000000, - 81296875 / 100000000, 52959375 / 100000000],
     [11643828125 / 10000000000, 2017234375 / 1000000000, 0, - 1081390625 / 1000000000],
     [0, 0, 0, 1]]"

fun dot :: "rat list \<Rightarrow> rat list \<Rightarrow> rat" where
  "dot (x # xs) (y # ys) = x * y + dot xs ys"
| "dot _ _ = 0"

definition gl_FragColor :: "rat \<Rightarrow> rat \<Rightarrow> rat \<Rightarrow> rat list" where
  "gl_FragColor y u v = map (dot [y, u, v, 1]) YUV2RGB"

definition vertices :: "rat list" where
  "vertices =
    [-1, -1, 0,  0, 1,
      1, -1, 0,  1, 1,
     -1,  1, 0,  0, 0,
      1,  1, 0,  1, 0]"

definition check_shader :: "gl_env \<Rightarrow> nat \<Rightarrow> string \<Rightarrow> unit gl_act" where
  "check_shader env shader what =
     js_when (shader_info_log env shader \<noteq> [])
       (js_seq (call (Log what)) (call (Log (shader_info_log env shader))))"

definition create_shader :: "gl_env \<Rightarrow> string \<Rightarrow> string \<Rightarrow> string \<Rightarrow> nat gl_act" where
  "create_shader env kind source what =
     js_bind (create (\<lambda>n. CreateShader n kind)) (\<lambda>shader. js_seq (js_all
       [call (ShaderSource shader source), call (CompileShader shader), check_shader env shader what])
       (ret shader))"

definition setup_vertices :: "nat \<Rightarrow> unit gl_act" where
  "setup_vertices program =
     js_bind (create CreateBuffer) (\<lambda>buffer. js_all
       [call (BindBuffer ''ARRAY_BUFFER'' buffer),
        call (BufferData ''ARRAY_BUFFER'' vertices ''STATIC_DRAW''),
        call (EnableVertexAttribArray program ''aPos''),
        call (VertexAttribPointer program ''aPos'' 3 ''FLOAT'' False 20 0),
        call (EnableVertexAttribArray program ''aTexCoord''),
        call (VertexAttribPointer program ''aTexCoord'' 2 ''FLOAT'' False 20 12)])"

definition setup_textures :: "nat \<Rightarrow> unit gl_act" where
  "setup_textures program =
     js_bind Texture_constructor (\<lambda>y. js_seq (modify (\<lambda>p. p\<lparr>tex_y := Some y\<rparr>))
    (js_bind Texture_constructor (\<lambda>u. js_seq (modify (\<lambda>p. p\<lparr>tex_u := Some u\<rparr>))
    (js_bind Texture_constructor (\<lambda>v. js_seq (modify (\<lambda>p. p\<lparr>tex_v := Some v\<rparr>))
    (js_all [bind_texture y 0 program ''yTex'', bind_texture u 1 program ''uTex'',
             bind_texture v 2 program ''vTex'']))))))"

definition init :: "gl_env \<Rightarrow> unit gl_act" where
  "init env =
     js_bind (gets has_gl) (\<lambda>gl.
     if \<not> gl then call (Log ''[ERROR] WebGL not supported'')
     else
       js_seq (call (PixelStorei ''UNPACK_ALIGNMENT'' 1))
      (js_bind (create CreateProgram) (\<lambda>program.
       js_bind (create_shader env ''VERTEX_SHADER'' vertexShaderSource ''[ERROR] Vertex shader compile failed'')
         (\<lambda>vertexShader.
       js_bind (create_shader env ''FRAGMENT_SHADER'' fragmentShaderSource ''[ERROR] Fragment shader compile failed'')
         (\<lambda>fragmentShader. js_all
         [call (AttachShader program vertexShader),
          call (AttachShader program fragmentShader),
          call (LinkProgram program),
          call (UseProgram program),
          js_when (\<not> link_ok env) (call (Log ''[ERROR] Shader link failed'')),
          setup_vertices program,
          setup_textures program])))))"

text \<open>\<open>new WebGLPlayer(canvas)\<close>.\<close>

definition WebGLPlayer :: "gl_env \<Rightarrow> int \<Rightarrow> int \<Rightarrow> gl_page" where
  "WebGLPlayer env width height = snd (init env
     \<lparr>has_gl = context_available env, canvas_width = width, canvas_height = height,
      tex_y = None, tex_u = None, tex_v = None, next_name = 0, calls = []\<rparr>)"

section \<open>Rendering\<close>

record frame =
  frame_width :: int
  frame_height :: int
  frame_bytes :: "byte list"

text \<open>\<open>TypedArray.subarray(begin, end)\<close>: negative positions count from the end, both are clamped.\<close>

definition clamp_index :: "nat \<Rightarrow> int \<Rightarrow> nat" where
  "clamp_index n i = (if i < 0 then nat (max 0 (int n + i)) else min n (nat i))"

definition subarray :: "'a list \<Rightarrow> int \<Rightarrow> int \<Rightarrow> 'a list" where
  "subarray xs b e = take (clamp_index (length xs) e - clamp_index (length xs) b)
     (drop (clamp_index (length xs) b) xs)"

definition fill_tex :: "(gl_page \<Rightarrow> nat option) \<Rightarrow> int \<Rightarrow> int \<Rightarrow> byte list \<Rightarrow> unit gl_act" where
  "fill_tex tex width height data =
     js_bind (gets tex) (\<lambda>t. case t of None \<Rightarrow> throw TypeError | Some t \<Rightarrow> fill t width height data None)"

definition fill_planes :: "frame \<Rightarrow> unit gl_act" where
  "fill_planes frame =
     (let width = frame_width frame; height = frame_height frame; bytes = frame_bytes frame;
          len_y = width * height; len_u = js_shr len_y 2; len_uv = js_shr len_y 1 in
      js_all
        [fill_tex tex_y width height (subarray bytes 0 len_y),
         fill_tex tex_u (js_shr width 1) (js_shr height 1) (subarray bytes len_y (len_y + len_u)),
         fill_tex tex_v (js_shr width 1) (js_shr height 1) (subarray bytes (len_y + len_u) (len_y + len_uv))])"

definition render :: "frame \<Rightarrow> unit gl_act" where
  "render frame =
     js_bind (gets has_gl) (\<lambda>gl.
     if \<not> gl then call (Log ''[ERROR] Render failed due to WebGL not supported'')
     else js_bind (gets canvas_width) (\<lambda>width. js_bind (gets canvas_height) (\<lambda>height. js_all
       [call (Viewport 0 0 width height),
        call (ClearColor 0 0 0 0),
        call (Clear ''COLOR_BUFFER_BIT''),
        fill_planes frame,
        call (DrawArrays ''TRIANGLE_STRIP'' 0 4)])))"

section \<open>Fullscreen\<close>

datatype screen_call = Method string | Alert string

text \<open>\<open>has m\<close>: the object has a method \<open>m\<close>.\<close>

definition fullscreen :: "(string \<Rightarrow> bool) \<Rightarrow> screen_call" where
  "fullscreen has =
    (if has ''RequestFullScreen'' then Method ''RequestFullScreen''
     else if has ''webkitRequestFullScreen'' then Method ''webkitRequestFullScreen''
     else if has ''mozRequestFullScreen'' then Method ''mozRequestFullScreen''
     else if has ''msRequestFullscreen'' then Method ''msRequestFullscreen''
     else Alert ''This browser doesn't support fullscreen'')"

definition exitFullscreen :: "(string \<Rightarrow> bool) \<Rightarrow> screen_call" where
  "exitFullscreen has =
    (if has ''exitFullscreen'' then Method ''exitFullscreen''
     else if has ''webkitExitFullscreen'' then Method ''webkitExitFullscreen''
     else if has ''mozCancelFullScreen'' then Method ''mozCancelFullScreen''
     else if has ''msExitFullscreen'' then Method ''msExitFullscreen''
     else Alert ''Exit fullscreen doesn't work'')"

section \<open>What the calls do to the texture units\<close>

text \<open>As documented for WebGL: \<open>bindTexture\<close> binds to the active unit, \<open>texImage2D\<close> replaces the
  image of the texture bound to the active unit, a sampler uniform holds a unit.\<close>

record units =
  active :: nat
  bound :: "nat \<Rightarrow> nat option"
  images :: "nat \<Rightarrow> (string \<times> int \<times> int \<times> byte list) option"
  samplers :: "string \<Rightarrow> nat option"

definition no_units :: units where
  "no_units = \<lparr>active = 0, bound = (\<lambda>_. None), images = (\<lambda>_. None), samplers = (\<lambda>_. None)\<rparr>"

fun gl_exec :: "gl_call \<Rightarrow> units \<Rightarrow> units" where
  "gl_exec (ActiveTexture n) u = u\<lparr>active := n\<rparr>"
| "gl_exec (BindTexture t) u = u\<lparr>bound := (bound u)(active u := Some t)\<rparr>"
| "gl_exec (Uniform1i program name n) u = u\<lparr>samplers := (samplers u)(name := Some n)\<rparr>"
| "gl_exec (TexImage2D format w h data) u =
     (case bound u (active u) of None \<Rightarrow> u
      | Some t \<Rightarrow> u\<lparr>images := (images u)(t := Some (format, w, h, data))\<rparr>)"
| "gl_exec _ u = u"

definition gl_state :: "gl_call list \<Rightarrow> units" where
  "gl_state cs = fold gl_exec cs no_units"

definition sampled :: "units \<Rightarrow> string \<Rightarrow> (string \<times> int \<times> int \<times> byte list) option" where
  "sampled u name = (case samplers u name of None \<Rightarrow> None | Some k \<Rightarrow>
     (case bound u k of None \<Rightarrow> None | Some t \<Rightarrow> images u t))"

lemma gl_state_append [simp]: "gl_state (cs @ ds) = fold gl_exec ds (gl_state cs)"
  by (simp add: gl_state_def)

text \<open>The images that are uploaded, in order.\<close>

fun uploads :: "gl_call list \<Rightarrow> (int \<times> int \<times> byte list) list" where
  "uploads [] = []"
| "uploads (TexImage2D format w h data # cs) = (w, h, data) # uploads cs"
| "uploads (_ # cs) = uploads cs"

lemma uploads_append [simp]: "uploads (cs @ ds) = uploads cs @ uploads ds"
  by (induction cs rule: uploads.induct) auto

section \<open>The texture units between frames\<close>

lemmas gl_defs = js_defs call_def create_def

text \<open>Each helper as one step on the page.\<close>

lemma gl_run:
  "call c p = (Inr (), p\<lparr>calls := calls p @ [c]\<rparr>)"
  "create mk p = (Inr (next_name p), p\<lparr>next_name := Suc (next_name p), calls := calls p @ [mk (next_name p)]\<rparr>)"
  "Texture_constructor p = (Inr (next_name p), p\<lparr>next_name := Suc (next_name p), calls := calls p @
     [CreateTexture (next_name p), BindTexture (next_name p),
      TexParameteri ''TEXTURE_MAG_FILTER'' ''LINEAR'', TexParameteri ''TEXTURE_MIN_FILTER'' ''LINEAR'',
      TexParameteri ''TEXTURE_WRAP_S'' ''CLAMP_TO_EDGE'', TexParameteri ''TEXTURE_WRAP_T'' ''CLAMP_TO_EDGE'']\<rparr>)"
  "bind_texture t n program name p =
     (Inr (), p\<lparr>calls := calls p @ [ActiveTexture n, BindTexture t, Uniform1i program name n]\<rparr>)"
  "fill t w h data None p = (Inr (), p\<lparr>calls := calls p @ [BindTexture t, TexImage2D ''LUMINANCE'' w h data]\<rparr>)"
  by (simp_all add: gl_defs Texture_constructor_def bind_texture_def fill_def)

lemma setup_vertices_run:
  "setup_vertices program p = (Inr (), p\<lparr>next_name := Suc (next_name p), calls := calls p @
     [CreateBuffer (next_name p), BindBuffer ''ARRAY_BUFFER'' (next_name p),
      BufferData ''ARRAY_BUFFER'' vertices ''STATIC_DRAW'',
      EnableVertexAttribArray program ''aPos'', VertexAttribPointer program ''aPos'' 3 ''FLOAT'' False 20 0,
      EnableVertexAttribArray program ''aTexCoord'', VertexAttribPointer program ''aTexCoord'' 2 ''FLOAT'' False 20 12]\<rparr>)"
  by (simp add: gl_defs setup_vertices_def)

text \<open>Set-up calls that leave the texture units alone.\<close>

definition unit_free :: "gl_call list \<Rightarrow> bool" where
  "unit_free cs \<longleftrightarrow> fold gl_exec cs = id"

lemma create_shader_run:
  "\<exists>cs. unit_free cs \<and> create_shader env kind source what p =
     (Inr (next_name p), p\<lparr>next_name := Suc (next_name p), calls := calls p @ cs\<rparr>)"
proof (cases "shader_info_log env (next_name p) = []")
  case True
  then show ?thesis
    by (intro exI [of _ "[CreateShader (next_name p) kind, ShaderSource (next_name p) source,
        CompileShader (next_name p)]"])
      (auto simp: create_shader_def check_shader_def gl_defs unit_free_def)
next
  case False
  then show ?thesis
    by (intro exI [of _ "[CreateShader (next_name p) kind, ShaderSource (next_name p) source,
        CompileShader (next_name p), Log what, Log (shader_info_log env (next_name p))]"])
      (auto simp: create_shader_def check_shader_def gl_defs unit_free_def)
qed

text \<open>A player ready to render: three textures, each on its own unit for its own sampler, with
  the third unit active, so that every upload goes through that unit.\<close>

definition units_ready :: "nat \<Rightarrow> nat \<Rightarrow> nat \<Rightarrow> units \<Rightarrow> bool" where
  "units_ready y u v s \<longleftrightarrow> distinct [y, u, v] \<and> active s = 2 \<and> bound s 0 = Some y \<and> bound s 1 = Some u \<and>
     samplers s ''yTex'' = Some 0 \<and> samplers s ''uTex'' = Some 1 \<and> samplers s ''vTex'' = Some 2"

definition textures_ready :: "gl_page \<Rightarrow> bool" where
  "textures_ready p \<longleftrightarrow> has_gl p \<and> (\<exists>y u v. tex_y p = Some y \<and> tex_u p = Some u \<and> tex_v p = Some v \<and>
     units_ready y u v (gl_state (calls p)))"

lemma setup_textures_ready:
  assumes "has_gl p"
  shows "textures_ready (snd (setup_textures program p))"
  using assms by (simp add: setup_textures_def js_defs gl_run textures_ready_def units_ready_def)

lemma textures_ready_new:
  assumes "context_available env"
  shows "textures_ready (WebGLPlayer env w h)"
proof -
  define p0 where "p0 = \<lparr>has_gl = True, canvas_width = w, canvas_height = h,
      tex_y = None, tex_u = None, tex_v = None, next_name = Suc 0, calls = [PixelStorei ''UNPACK_ALIGNMENT'' 1, CreateProgram 0]\<rparr>"
  obtain p1 where p1: "create_shader env ''VERTEX_SHADER'' vertexShaderSource ''[ERROR] Vertex shader compile failed'' p0
      = (Inr (next_name p0), p1)" "has_gl p1"
    using create_shader_run [of env _ _ _ p0] unfolding p0_def by force
  obtain p2 where p2: "create_shader env ''FRAGMENT_SHADER'' fragmentShaderSource ''[ERROR] Fragment shader compile failed'' p1
      = (Inr (next_name p1), p2)" "has_gl p2"
    using create_shader_run [of env _ _ _ p1] p1(2) by force
  show ?thesis
    using assms p1 p2
    by (simp add: WebGLPlayer_def init_def gl_run js_defs p0_def setup_vertices_run setup_textures_ready js_all_run
        del: js_all.simps)
qed

text \<open>What \<open>render\<close> leaves on the samplers of a frame, whatever its size: the slices at the offsets it computes.\<close>

definition slices_sampled :: "frame \<Rightarrow> units \<Rightarrow> bool" where
  "slices_sampled f s \<longleftrightarrow>
     (let w = frame_width f; h = frame_height f; n = w * h in
      sampled s ''yTex'' = Some (''LUMINANCE'', w, h, subarray (frame_bytes f) 0 n) \<and>
      sampled s ''uTex'' = Some (''LUMINANCE'', js_shr w 1, js_shr h 1,
        subarray (frame_bytes f) n (n + js_shr n 2)) \<and>
      sampled s ''vTex'' = Some (''LUMINANCE'', js_shr w 1, js_shr h 1,
        subarray (frame_bytes f) (n + js_shr n 2) (n + js_shr n 1)))"

lemma render_ready:
  assumes "textures_ready p"
  shows "textures_ready (snd (render f p))" and "slices_sampled f (gl_state (calls (snd (render f p))))"
    and "fst (render f p) = Inr ()"
  using assms
  by (auto simp: textures_ready_def units_ready_def render_def fill_planes_def fill_tex_def gl_run js_defs Let_def
      slices_sampled_def sampled_def)

lemma render_all_ready:
  assumes "textures_ready p"
  shows "textures_ready (snd (js_all (map render fs) p)) \<and> fst (js_all (map render fs) p) = Inr ()"
  using assms
proof (induction fs arbitrary: p)
  case (Cons f fs)
  obtain p' where p': "render f p = (Inr (), p')"
    using render_ready(3) [OF Cons.prems, of f] by (cases "render f p") simp
  then show ?case using Cons render_ready(1) [OF Cons.prems, of f] by (simp add: js_bind_def)
qed (simp add: ret_def)

section \<open>The planes of a frame\<close>

lemma subarray_slice:
  assumes "0 \<le> b" "b \<le> e" "e \<le> int (length xs)"
  shows "subarray xs b e = take (nat (e - b)) (drop (nat b) xs)"
  using assms by (simp add: subarray_def clamp_index_def nat_diff_distrib min_def nat_le_iff)

lemma render_uploads:
  assumes "textures_ready p"
  shows "uploads (calls (snd (render f p))) = uploads (calls p) @
    (let w = frame_width f; h = frame_height f; n = w * h; data = frame_bytes f in
      [(w, h, subarray data 0 n),
       (js_shr w 1, js_shr h 1, subarray data n (n + js_shr n 2)),
       (js_shr w 1, js_shr h 1, subarray data (n + js_shr n 2) (n + js_shr n 1))])"
  using assms
  by (auto simp: textures_ready_def units_ready_def render_def fill_planes_def fill_tex_def gl_run js_defs Let_def)

text \<open>The packed YUV420P layout that FFmpeg documents: the chroma planes have half the size, rounded up.\<close>

definition chroma_len :: "int \<Rightarrow> int \<Rightarrow> int" where
  "chroma_len w h = ((w + 1) div 2) * ((h + 1) div 2)"

definition yuv420p :: "frame \<Rightarrow> byte list \<Rightarrow> byte list \<Rightarrow> byte list \<Rightarrow> bool" where
  "yuv420p f y u v \<longleftrightarrow>
     (let w = frame_width f; h = frame_height f in
      0 < w \<and> 0 < h \<and> w * h < 2 ^ 31 \<and> frame_bytes f = y @ u @ v \<and>
      int (length y) = w * h \<and> int (length u) = chroma_len w h \<and> int (length v) = chroma_len w h)"

text \<open>The planes of a frame in that layout, and a frame whose bytes have it.\<close>

definition y_plane :: "frame \<Rightarrow> byte list" where
  "y_plane f = take (nat (frame_width f * frame_height f)) (frame_bytes f)"

definition u_plane :: "frame \<Rightarrow> byte list" where
  "u_plane f = take (nat (chroma_len (frame_width f) (frame_height f)))
     (drop (nat (frame_width f * frame_height f)) (frame_bytes f))"

definition v_plane :: "frame \<Rightarrow> byte list" where
  "v_plane f = drop (nat (frame_width f * frame_height f) + nat (chroma_len (frame_width f) (frame_height f))) (frame_bytes f)"

definition packed :: "frame \<Rightarrow> bool" where
  "packed f \<longleftrightarrow> yuv420p f (y_plane f) (u_plane f) (v_plane f)"

lemma yuv420p_planes: "yuv420p f y u v \<Longrightarrow> y = y_plane f \<and> u = u_plane f \<and> v = v_plane f"
proof -
  assume f: "yuv420p f y u v"
  then have "nat (frame_width f * frame_height f) = length y"
      "nat (chroma_len (frame_width f) (frame_height f)) = length u" "frame_bytes f = y @ u @ v"
    unfolding yuv420p_def Let_def by (metis nat_int)+
  then show ?thesis by (simp add: y_plane_def u_plane_def v_plane_def)
qed

text \<open>The shader reads the frame: its luma plane on \<open>yTex\<close>, and its two chroma planes, whole and in their size.\<close>

definition planes_sampled :: "frame \<Rightarrow> units \<Rightarrow> bool" where
  "planes_sampled f s \<longleftrightarrow>
     (let w = frame_width f; h = frame_height f; cw = (w + 1) div 2; ch = (h + 1) div 2 in
      sampled s ''yTex'' = Some (''LUMINANCE'', w, h, y_plane f) \<and>
      sampled s ''uTex'' = Some (''LUMINANCE'', cw, ch, u_plane f) \<and>
      sampled s ''vTex'' = Some (''LUMINANCE'', cw, ch, v_plane f))"

definition even_frame :: "frame \<Rightarrow> bool" where
  "even_frame f \<longleftrightarrow> even (frame_width f) \<and> even (frame_height f)"

lemma dims_small:
  assumes "0 < w" "0 < (h::int)" "w * h < 2 ^ 31"
  shows "w < 2 ^ 31" "h < 2 ^ 31"
proof -
  have "w * 1 \<le> w * h" "1 * h \<le> w * h"
    using assms by (auto intro!: mult_left_mono mult_right_mono)
  then show "w < 2 ^ 31" "h < 2 ^ 31" using assms by linarith+
qed

lemma shr_dims:
  assumes "0 < w" "0 < h" "w * h < 2 ^ 31"
  shows "js_shr w 1 = w div 2" "js_shr h 1 = h div 2" "js_shr (w * h) 1 = w * h div 2" "js_shr (w * h) 2 = w * h div 4"
  using assms dims_small [OF assms] js_shr_eq [of w 1] js_shr_eq [of h 1] js_shr_eq [of "w * h" 1] js_shr_eq [of "w * h" 2]
  by simp_all

lemma even_dims:
  assumes "even w" "even (h::int)"
  shows "w * h div 4 = (w div 2) * (h div 2)" "w * h div 2 = 2 * ((w div 2) * (h div 2))"
    "chroma_len w h = (w div 2) * (h div 2)"
  using assms by (auto simp: chroma_len_def elim!: evenE)

lemma odd_dims:
  assumes "0 < w" "0 < h" "odd w \<or> odd (h::int)"
  shows "w * h div 4 < chroma_len w h"
proof -
  have cw: "w \<le> 2 * ((w + 1) div 2)" "h \<le> 2 * ((h + 1) div 2)" by presburger+
  have "w * h < (2 * ((w + 1) div 2)) * (2 * ((h + 1) div 2))"
    using assms(3)
  proof
    assume "odd w"
    then have "w + 1 = 2 * ((w + 1) div 2)" by presburger
    then have "w * h < (2 * ((w + 1) div 2)) * h" using assms by simp
    also have "\<dots> \<le> (2 * ((w + 1) div 2)) * (2 * ((h + 1) div 2))"
      using cw assms by (intro mult_left_mono) auto
    finally show ?thesis .
  next
    assume "odd h"
    then have "h + 1 = 2 * ((h + 1) div 2)" by presburger
    then have "w * h < w * (2 * ((h + 1) div 2))" using assms by simp
    also have "\<dots> \<le> (2 * ((w + 1) div 2)) * (2 * ((h + 1) div 2))"
      using cw assms by (intro mult_right_mono) auto
    finally show ?thesis .
  qed
  then show ?thesis by (simp add: chroma_len_def)
qed

lemma uv_bound: "0 \<le> (n::int) \<Longrightarrow> n div 4 \<le> n div 2" by presburger

lemma plane_slices:
  assumes "int (length y) = n" "int (length u) = m" "int (length v) = m"
  shows "subarray (y @ u @ v) 0 n = y" "subarray (y @ u @ v) n (n + m) = u" "subarray (y @ u @ v) (n + m) (n + 2 * m) = v"
proof -
  have "nat n = length y" "nat m = length u" "nat (n + m) = length y + length u" "length v = length u"
    "nat (n + 2 * m) = length y + length u + length v" using assms by linarith+
  then show "subarray (y @ u @ v) 0 n = y" "subarray (y @ u @ v) n (n + m) = u" "subarray (y @ u @ v) (n + m) (n + 2 * m) = v"
    using assms by (simp_all add: subarray_slice)
qed

lemma even_uploads:
  assumes "textures_ready p" and "yuv420p f y u v" and "even (frame_width f)" "even (frame_height f)"
  shows "uploads (calls (snd (render f p))) = uploads (calls p) @
    [(frame_width f, frame_height f, y),
     (frame_width f div 2, frame_height f div 2, u), (frame_width f div 2, frame_height f div 2, v)]"
proof -
  let ?w = "frame_width f" and ?h = "frame_height f"
  define n where "n = ?w * ?h"
  define m where "m = (?w div 2) * (?h div 2)"
  have dims: "0 < ?w" "0 < ?h" "n < 2 ^ 31" and bytes: "frame_bytes f = y @ u @ v"
    and ly: "int (length y) = n" and lu: "int (length u) = m" and lv: "int (length v) = m"
    using assms(2-4) even_dims(3) [of ?w ?h] by (auto simp: yuv420p_def Let_def n_def m_def)
  have shr: "js_shr ?w 1 = ?w div 2" "js_shr ?h 1 = ?h div 2" "js_shr n 1 = 2 * m" "js_shr n 2 = m"
    using shr_dims [of ?w ?h] dims even_dims(1,2) [OF assms(3,4)] by (auto simp: n_def m_def)
  note slices = plane_slices [OF ly lu lv]
  show ?thesis
    unfolding render_uploads [OF assms(1)] Let_def n_def [symmetric] shr bytes slices
    by (rule refl)
qed

text \<open>The slices are the planes exactly if the size is even.\<close>

lemma slices_are_planes:
  assumes "packed f"
  shows "slices_sampled f s \<Longrightarrow> planes_sampled f s \<longleftrightarrow> even_frame f"
proof -
  let ?w = "frame_width f" and ?h = "frame_height f"
  define n where "n = ?w * ?h"
  define m where "m = chroma_len ?w ?h"
  have dims: "0 < ?w" "0 < ?h" "n < 2 ^ 31" and bytes: "frame_bytes f = y_plane f @ u_plane f @ v_plane f"
    and ly: "int (length (y_plane f)) = n" and lu: "int (length (u_plane f)) = m" and lv: "int (length (v_plane f)) = m"
    using assms by (simp_all add: packed_def yuv420p_def Let_def n_def m_def)
  assume slices: "slices_sampled f s"
  show ?thesis
  proof
    assume "planes_sampled f s"
    then have "js_shr ?w 1 = (?w + 1) div 2" "js_shr ?h 1 = (?h + 1) div 2"
      using slices by (auto simp: planes_sampled_def slices_sampled_def Let_def)
    then have "?w div 2 = (?w + 1) div 2" "?h div 2 = (?h + 1) div 2"
      using shr_dims [of ?w ?h] dims by (simp_all add: n_def)
    then show "even_frame f" unfolding even_frame_def by presburger
  next
    assume even: "even_frame f"
    then have "(?w + 1) div 2 = ?w div 2" "(?h + 1) div 2 = ?h div 2" unfolding even_frame_def by presburger+
    moreover have "n div 4 = m" "n div 2 = 2 * m"
      using even even_dims [of ?w ?h] unfolding n_def m_def even_frame_def by simp_all
    ultimately have shr: "js_shr ?w 1 = (?w + 1) div 2" "js_shr ?h 1 = (?h + 1) div 2" "js_shr n 1 = 2 * m" "js_shr n 2 = m"
      using shr_dims [of ?w ?h] dims unfolding n_def by simp_all
    have "subarray (frame_bytes f) 0 n = y_plane f" "subarray (frame_bytes f) n (n + m) = u_plane f"
      "subarray (frame_bytes f) (n + m) (n + 2 * m) = v_plane f"
      using plane_slices [OF ly lu lv] unfolding bytes [symmetric] by simp_all
    then show "planes_sampled f s"
      using slices shr by (simp add: planes_sampled_def slices_sampled_def Let_def n_def [symmetric])
  qed
qed

section \<open>Properties\<close>

definition sample_frame :: frame where
  "sample_frame = \<lparr>frame_width = 2, frame_height = 2, frame_bytes = [1, 2, 3, 4, 5, 6]\<rparr>"

definition sample_gl :: gl_env where
  "sample_gl = \<lparr>context_available = True, shader_info_log = (\<lambda>_. []), link_ok = True\<rparr>"

lemma render_all_sampled:
  assumes "context_available env"
  shows "slices_sampled f (gl_state (calls (snd (js_all (map render (fs @ [f])) (WebGLPlayer env w h)))))"
proof -
  have "js_all (map render (gs @ [f])) p = js_seq (js_all (map render gs)) (render f) p"
    if "textures_ready p" for gs p
    using that
  proof (induction gs arbitrary: p)
    case Nil
    then show ?case by (cases "render f p"; use render_ready(3) [OF Nil, of f] in \<open>simp add: js_defs\<close>)
  next
    case (Cons g gs)
    obtain p' where "render g p = (Inr (), p')" using render_ready(3) [OF Cons.prems, of g] by (cases "render g p") simp
    then show ?case using Cons render_ready(1) [OF Cons.prems, of g] by (simp add: js_bind_def)
  qed
  moreover obtain p where p: "js_all (map render fs) (WebGLPlayer env w h) = (Inr (), p)" "textures_ready p"
    using render_all_ready [OF textures_ready_new [OF assms]] by (metis prod.collapse)
  ultimately show ?thesis
    using textures_ready_new [OF assms] render_ready(2) [OF p(2)] by (simp add: js_bind_def)
qed

text \<open>C8.  What the shader reads.  After the player is created in a browser that has WebGL and any number of frames is
  rendered, let the next be a frame in FFmpeg's packed YUV420P layout, whose chroma planes have half the size rounded
  up.  The three samplers then read its three planes, whole and in their size, exactly if its width and its height are
  even.  For those it holds although every upload goes through the texture unit that initialisation left active: the
  third texture, which belongs there, is bound last.\<close>

theorem samplers_read_the_frame:
  assumes "context_available env" and "packed f"
  shows "planes_sampled f (gl_state (calls (snd (js_all (map render (fs @ [f])) (WebGLPlayer env w h))))) \<longleftrightarrow> even_frame f"
  by (rule slices_are_planes [OF assms(2) render_all_sampled [OF assms(1)]])

definition odd_frame :: frame where
  "odd_frame = \<lparr>frame_width = 3, frame_height = 1, frame_bytes = [1, 2, 3, 4, 5, 6, 7]\<rparr>"

lemma sample_frame_packed: "packed sample_frame" "even_frame sample_frame" "packed odd_frame" "\<not> even_frame odd_frame"
  by (simp_all add: packed_def yuv420p_def y_plane_def u_plane_def v_plane_def even_frame_def sample_frame_def odd_frame_def
      chroma_len_def)

theorem samplers_read_the_frame_witness:
  "planes_sampled sample_frame (gl_state (calls (snd
    (js_all (map render ([odd_frame] @ [sample_frame])) (WebGLPlayer sample_gl 2 2))))) \<and>
   \<not> planes_sampled odd_frame (gl_state (calls (snd
    (js_all (map render ([sample_frame] @ [odd_frame])) (WebGLPlayer sample_gl 2 2)))))"
proof -
  have gl: "context_available sample_gl" by (simp add: sample_gl_def)
  show ?thesis
    using samplers_read_the_frame [OF gl sample_frame_packed(1), of "[odd_frame]" 2 2]
      samplers_read_the_frame [OF gl sample_frame_packed(3), of "[sample_frame]" 2 2] sample_frame_packed(2,4)
    by blast
qed

text \<open>A packed YUV420P frame of even size is uploaded plane by plane: the three textures get
  exactly the luma plane and the two chroma planes, and the player returns normally.\<close>

lemma even_frame_uploads_its_planes:
  assumes "textures_ready p" and "yuv420p f y u v" and "even (frame_width f)" "even (frame_height f)"
  shows "fst (render f p) = Inr () \<and> uploads (calls (snd (render f p))) = uploads (calls p) @
    [(frame_width f, frame_height f, y),
     (frame_width f div 2, frame_height f div 2, u), (frame_width f div 2, frame_height f div 2, v)]"
  using even_uploads [OF assms] render_ready(3) [OF assms(1)] by simp

text \<open>A frame of odd width or height is not: the data given to the third texture starts with
  the end of the first chroma plane, because its offset is computed as a quarter of the luma size
  while the planes are rounded up.\<close>

lemma odd_frame_reads_v_from_the_u_plane:
  assumes "textures_ready p" and "yuv420p f y u v" and "odd (frame_width f) \<or> odd (frame_height f)"
  shows "let q = nat (frame_width f * frame_height f div 4); l = nat (frame_width f * frame_height f div 2) in
    q < length u \<and> uploads (calls (snd (render f p))) = uploads (calls p) @
    [(frame_width f, frame_height f, y),
     (frame_width f div 2, frame_height f div 2, take q u),
     (frame_width f div 2, frame_height f div 2, take (l - q) (drop q (u @ v)))]"
proof -
  let ?w = "frame_width f" and ?h = "frame_height f"
  define n where "n = ?w * ?h"
  have dims: "0 < ?w" "0 < ?h" "n < 2 ^ 31" and bytes: "frame_bytes f = y @ u @ v"
    and ly: "int (length y) = n" and lu: "int (length u) = chroma_len ?w ?h" and lv: "int (length v) = int (length u)"
    using assms(2) by (auto simp: yuv420p_def Let_def n_def)
  have less: "n div 4 < int (length u)"
    using odd_dims [OF dims(1,2) assms(3)] lu by (simp add: n_def)
  have "0 \<le> n" using ly by linarith
  then have "0 \<le> n div 4" by presburger
  have half: "n div 4 \<le> n div 2" "n div 2 \<le> 2 * (n div 4) + 1" using \<open>0 \<le> n\<close> by presburger+
  have fits: "n + n div 2 \<le> int (length (y @ u @ v))" using half less ly lv by simp
  have shr: "js_shr ?w 1 = ?w div 2" "js_shr ?h 1 = ?h div 2" "js_shr n 1 = n div 2" "js_shr n 2 = n div 4"
    using shr_dims [of ?w ?h] dims by (auto simp: n_def)
  have nats: "nat n = length y" "nat (n + n div 4) = length y + nat (n div 4)"
    "nat (n + n div 2 - (n + n div 4)) = nat (n div 2) - nat (n div 4)" "nat (n div 4) < length u"
    using ly less \<open>0 \<le> n\<close> by (auto simp: nat_diff_distrib nat_add_distrib)
  have slices: "subarray (y @ u @ v) 0 n = y" "subarray (y @ u @ v) n (n + n div 4) = take (nat (n div 4)) u"
    using nats less ly \<open>0 \<le> n\<close> \<open>0 \<le> n div 4\<close> subarray_slice [of 0 n "y @ u @ v"] subarray_slice [of n "n + n div 4" "y @ u @ v"]
    by simp_all
  have "subarray (y @ u @ v) (n + n div 4) (n + n div 2) =
      take (nat (n + n div 2 - (n + n div 4))) (drop (nat (n + n div 4)) (y @ u @ v))"
    using fits half(1) \<open>0 \<le> n\<close> \<open>0 \<le> n div 4\<close> by (intro subarray_slice) linarith+
  then have "subarray (y @ u @ v) (n + n div 4) (n + n div 2) =
      take (nat (n div 2) - nat (n div 4)) (drop (nat (n div 4)) (u @ v))"
    unfolding nats(2,3) by simp
  then show ?thesis
    unfolding render_uploads [OF assms(1)] Let_def n_def [symmetric] shr bytes slices
    using nats(4) by (intro conjI) simp_all
qed

text \<open>The BT.601 studio-swing conversion, on bytes.\<close>

definition bt601 :: "rat \<Rightarrow> rat \<Rightarrow> rat \<Rightarrow> rat list" where
  "bt601 y u v =
    [298082 / 256000 * y + 408583 / 256000 * v - 222921 / 1000,
     298082 / 256000 * y - 100291 / 256000 * u - 208120 / 256000 * v + 135576 / 1000,
     298082 / 256000 * y + 516412 / 256000 * u - 276836 / 1000]"

text \<open>The shader converts with the BT.601 studio-swing formula for bytes (coefficients over 256), except that the constant terms, meant for bytes, are
  scaled by 256 while the samplers scale bytes by 255: each channel is off by a fixed fraction of
  a level, whatever the pixel.\<close>

lemma shader_is_bt601:
  "map (\<lambda>c. 255 * c) (gl_FragColor (y / 255) (u / 255) (v / 255)) =
     map2 (+) (bt601 y u v) [222921 / 256000, - 135576 / 256000, 276836 / 256000] @ [255]"
  by (simp add: gl_FragColor_def YUV2RGB_def bt601_def field_simps)

text \<open>A browser that offers only the standard fullscreen method is told that it does not
  support fullscreen: the code tests for \<open>RequestFullScreen\<close>, which is no method of an element.
  With any of the four names it tests for, the first one that exists is called.\<close>

lemma standard_fullscreen_is_not_used:
  "fullscreen (\<lambda>m. m = ''requestFullscreen'') = Alert ''This browser doesn't support fullscreen'' \<and>
   exitFullscreen (\<lambda>m. m = ''exitFullscreen'') = Method ''exitFullscreen''"
  by (simp add: fullscreen_def exitFullscreen_def)

end
