(* ===== verification/Page.thy ===== *)
theory Page imports WsClient WebGL "HOL-Library.List_Lexorder" "HOL-Library.Char_ord" begin

text \<open>
  The script of \<open>ws-wasm-player/index.html\<close>: the input checks, the list of streams fetched from the
  server, the selection, and the button that opens and closes the client.  The page's fields are
  what its input elements hold and show; the client and the WebGL player are those of the
  theories \<open>WsClient\<close> and \<open>WebGL\<close>.
\<close>

section \<open>Input checks\<close>

definition is_digit :: "char \<Rightarrow> bool" where
  "is_digit c \<longleftrightarrow> CHR ''0'' \<le> c \<and> c \<le> CHR ''9''"

text \<open>\<open>s.split(sep)\<close> with a one-character separator.\<close>

fun split_on :: "char \<Rightarrow> string \<Rightarrow> string list" where
  "split_on sep [] = [[]]"
| "split_on sep (c # cs) =
     (if c = sep then [] # split_on sep cs
      else case split_on sep cs of [] \<Rightarrow> [[c]] | q # qs \<Rightarrow> (c # q) # qs)"

text \<open>The number of a string of digits (\<open>Number\<close> and \<open>parseInt\<close> agree on it).\<close>

definition digits_value :: "string \<Rightarrow> int" where
  "digits_value s = foldl (\<lambda>n c. 10 * n + (of_char c - of_char CHR ''0'')) 0 s"

text \<open>The regular expression of \<open>isIp\<close>: four groups of one to three digits between dots.\<close>

definition matches_ip :: "string \<Rightarrow> bool" where
  "matches_ip s \<longleftrightarrow>
     (let parts = split_on CHR ''.'' s in
      length parts = 4 \<and> list_all (\<lambda>p. 1 \<le> length p \<and> length p \<le> 3 \<and> list_all is_digit p) parts)"

definition isIp :: "js_val \<Rightarrow> bool" where
  "isIp v =
     (case v of
        JStr s \<Rightarrow>
          if \<not> matches_ip s then False
          else length (filter (\<lambda>n. 0 \<le> digits_value n \<and> digits_value n \<le> 255) (split_on CHR ''.'' s)) = 4
      | _ \<Rightarrow> False)"

definition isPort :: "js_val \<Rightarrow> bool" where
  "isPort v =
     (case v of
        JStr s \<Rightarrow>
          if s = [] \<or> \<not> list_all is_digit s then False
          else 0 \<le> digits_value s \<and> digits_value s \<le> 65535
      | JNum n \<Rightarrow> 0 \<le> n \<and> n \<le> 65535
      | _ \<Rightarrow> False)"

section \<open>The page\<close>

record stream_entry =
  stream_id :: string
  video_size :: "(int \<times> int) option"        \<comment> \<open>\<open>stream.video.codecpar\<close>\<close>
  stream_ref :: nat                           \<comment> \<open>the JSON object itself\<close>

record page =
  host :: string
  port :: string
  host_error :: bool
  port_error :: bool
  stream_url :: string
  protocol_http :: string
  protocol_ws :: string
  streams :: "stream_entry list option"
  streamSelectId :: "string option"
  select_options :: "string list"
  stream_info :: "nat option"
  message :: "string option"
  player_name :: string
  canvas :: "int \<times> int"
  webgl :: "gl_page option"
  gl_player :: "nat option"
  live_players :: "nat set"                   \<comment> \<open>native OpenGL players not deleted\<close>
  button :: string
  requests :: "string list"
  alerts :: "string list"
  client :: WsClient.client

definition getStream :: "page \<Rightarrow> stream_entry option" where
  "getStream p = (case streams p of None \<Rightarrow> None
     | Some ss \<Rightarrow> find (\<lambda>s. Some (stream_id s) = streamSelectId p) ss)"

definition resetStreams :: "page \<Rightarrow> page" where
  "resetStreams p = p\<lparr>streams := None, streamSelectId := None\<rparr>"

definition getUrl :: "string \<Rightarrow> page \<Rightarrow> string" where
  "getUrl protocol p = protocol @ ''://'' @ host p @ '':'' @ port p"

definition updateStreamUrl :: "page \<Rightarrow> page" where
  "updateStreamUrl p = p\<lparr>stream_url := getUrl (protocol_ws p) p @ ''/stream/''\<rparr>"

definition host_input :: "string \<Rightarrow> page \<Rightarrow> page" where
  "host_input s p =
     (let p = p\<lparr>host := s\<rparr> in
      if isIp (JStr s) then updateStreamUrl (p\<lparr>host_error := False\<rparr>) else p\<lparr>host_error := True\<rparr>)"

definition port_input :: "string \<Rightarrow> page \<Rightarrow> page" where
  "port_input s p =
     (let p = p\<lparr>port := s\<rparr> in
      if isPort (JStr s) then updateStreamUrl (p\<lparr>port_error := False\<rparr>) else p\<lparr>port_error := True\<rparr>)"

definition updateErrorMessage :: "string option \<Rightarrow> page \<Rightarrow> page" where
  "updateErrorMessage msg p = p\<lparr>message := msg\<rparr>"

definition updateStreamInfo :: "page \<Rightarrow> page" where
  "updateStreamInfo p = (case getStream p of None \<Rightarrow> p | Some s \<Rightarrow> p\<lparr>stream_info := Some (stream_ref s)\<rparr>)"

text \<open>\<open>$('#stream_select_id option:first').val()\<close> is undefined when there is no option.\<close>

definition updateStreamIds :: "stream_entry list \<Rightarrow> page \<Rightarrow> page" where
  "updateStreamIds ss p =
     (let ids = List.map stream_id ss in
      updateStreamInfo (p\<lparr>select_options := ids,
        streamSelectId := (case ids of [] \<Rightarrow> None | i # _ \<Rightarrow> Some i)\<rparr>))"

definition select_change :: "string \<Rightarrow> page \<Rightarrow> page" where
  "select_change v p = updateStreamInfo (p\<lparr>streamSelectId := Some v\<rparr>)"

definition resetStreamUi :: "page \<Rightarrow> page" where
  "resetStreamUi p = resetStreams (p\<lparr>select_options := [], stream_info := None\<rparr>)"

definition getStreamIds :: "page \<Rightarrow> page" where
  "getStreamIds p = p\<lparr>requests := requests p @ [getUrl (protocol_http p) p @ ''/streams'']\<rparr>"

text \<open>The response: \<open>Some ss\<close> when it has the key \<open>streams\<close>.  \<open>sort\<close> is stable.\<close>

definition streams_done :: "stream_entry list option \<Rightarrow> page \<Rightarrow> page" where
  "streams_done data p =
     (case data of
        Some ss \<Rightarrow>
          let ss = sort_key stream_id ss in
          updateErrorMessage None (updateStreamIds ss (p\<lparr>streams := Some ss\<rparr>))
      | None \<Rightarrow> resetStreamUi (updateErrorMessage (Some ''stream ids get fail, or key not found'') p))"

definition streams_fail :: "page \<Rightarrow> page" where
  "streams_fail p = resetStreamUi (updateErrorMessage (Some ''stream ids get fail'') p)"

section \<open>The open/close button\<close>

type_synonym 'a page_act = "(page, 'a) js"

definition on_client :: "'a act \<Rightarrow> 'a page_act" where
  "on_client m p = (case m (client p) of (r, c) \<Rightarrow> (r, p\<lparr>client := c\<rparr>))"

definition updateStreamStatus :: "unit page_act" where
  "updateStreamStatus = modify (\<lambda>p. p\<lparr>button := (if isOpen (client p) then ''Close'' else ''Open'')\<rparr>)"

definition delete_player :: "unit page_act" where
  "delete_player = js_bind (gets gl_player) (\<lambda>g. case g of
      None \<Rightarrow> ret ()
    | Some n \<Rightarrow> modify (\<lambda>p. p\<lparr>live_players := live_players p - {n}, gl_player := None\<rparr>))"

definition new_webgl_player :: "gl_env \<Rightarrow> stream_entry option \<Rightarrow> js_val page_act" where
  "new_webgl_player gl stream = (case stream of
      None \<Rightarrow> throw TypeError
    | Some s \<Rightarrow> js_seq
        (modify (\<lambda>p. p\<lparr>canvas := (case video_size s of None \<Rightarrow> canvas p | Some wh \<Rightarrow> wh)\<rparr>))
       (js_bind (on_client fresh_id) (\<lambda>n. js_seq
        (modify (\<lambda>p. p\<lparr>webgl := Some (WebGLPlayer gl (fst (canvas p)) (snd (canvas p)))\<rparr>))
        (ret (JObj n)))))"

definition new_opengl_player :: "js_val page_act" where
  "new_opengl_player = js_bind (on_client createOpenGLPlayer) (\<lambda>n. js_seq
     (modify (\<lambda>p. p\<lparr>gl_player := Some n, live_players := insert n (live_players p)\<rparr>)) (ret (JObj n)))"

definition open_with :: "env \<Rightarrow> stream_entry option \<Rightarrow> js_val \<Rightarrow> unit page_act" where
  "open_with env stream player = (case stream of
      None \<Rightarrow> throw TypeError
    | Some s \<Rightarrow> js_bind (gets (\<lambda>p. getUrl (protocol_ws p) p)) (\<lambda>url. on_client (open_ws env
        [''url'' \<mapsto> JStr (url @ ''/stream/'' @ stream_id s), ''stream'' \<mapsto> JObj (stream_ref s), ''player'' \<mapsto> player])))"

definition btn_open_click :: "env \<Rightarrow> gl_env \<Rightarrow> unit page_act" where
  "btn_open_click env gl =
     js_bind (gets getStream) (\<lambda>stream.
     js_bind (gets (\<lambda>p. isOpen (client p))) (\<lambda>opened.
     if opened then js_seq delete_player (js_seq (on_client (close env)) updateStreamStatus)
     else js_bind (gets player_name) (\<lambda>name.
       if name = ''webgl'' then
         js_seq (js_bind (new_webgl_player gl stream) (open_with env stream)) updateStreamStatus
       else if name = ''opengl'' then
         js_seq (js_bind new_opengl_player (open_with env stream)) updateStreamStatus
       else modify (\<lambda>p. p\<lparr>alerts := alerts p @ [''unknown player'']\<rparr>))))"

section \<open>Lemmas on the input checks\<close>

text \<open>How a number is written.\<close>

fun decimal :: "nat \<Rightarrow> string" where
  "decimal n = (if n < 10 then [char_of (48 + n)] else decimal (n div 10) @ [char_of (48 + n mod 10)])"

declare decimal.simps [simp del]

lemma is_digit_char_of: "k < 10 \<Longrightarrow> is_digit (char_of (48 + k :: nat))"
  by (simp add: is_digit_def less_eq_char_def)

lemma decimal_digits: "list_all is_digit (decimal n)"
  by (induction n rule: decimal.induct) (subst decimal.simps, simp add: is_digit_char_of)

lemma decimal_nonempty: "decimal n \<noteq> []"
  by (subst decimal.simps) simp

lemma digits_value_append: "digits_value (s @ [c]) = 10 * digits_value s + (of_char c - of_char CHR ''0'')"
  by (simp add: digits_value_def)

lemma digits_value_decimal: "digits_value (decimal n) = int n"
proof (induction n rule: decimal.induct)
  case (1 n)
  have digit: "k < 10 \<Longrightarrow> of_char (char_of (48 + k :: nat)) - of_char CHR ''0'' = int k" for k
  proof -
    assume "k < 10"
    then have "of_char (char_of (48 + k) :: char) = (48 + k :: nat)" by simp
    then have "of_char (char_of (48 + k :: nat)) = int (48 + k)" by (metis of_nat_of_char)
    then show ?thesis by simp
  qed
  show ?case
  proof (cases "n < 10")
    case True
    then show ?thesis using digit [of n] digits_value_append [of "[]"] by (simp add: decimal.simps digits_value_def)
  next
    case False
    moreover have "10 * int (n div 10) + int (n mod 10) = int n"
      by (metis mult_div_mod_eq of_nat_add of_nat_mult of_nat_numeral)
    ultimately show ?thesis
      using 1 digit [of "n mod 10"] by (subst decimal.simps) (simp add: digits_value_append)
  qed
qed

lemma length_decimal: "n < 1000 \<Longrightarrow> length (decimal n) \<le> 3"
  by (subst decimal.simps; subst decimal.simps; subst decimal.simps) auto

lemma dot_not_digit: "list_all is_digit s \<Longrightarrow> CHR ''.'' \<notin> set s"
  by (induction s) (auto simp: is_digit_def less_eq_char_def)

lemma split_on_last: "sep \<notin> set s \<Longrightarrow> split_on sep s = [s]"
  by (induction s) auto

lemma split_on_cons: "sep \<notin> set s \<Longrightarrow> split_on sep (s @ sep # t) = s # split_on sep t"
  by (induction s) auto

lemma decimal_no_dot: "CHR ''.'' \<notin> set (decimal n)"
  by (intro dot_not_digit decimal_digits)

section \<open>Properties\<close>

text \<open>The input checks accept exactly the addresses and ports they should: four numbers
  written in decimal between dots pass as an address if and only if each is at most 255, and a
  decimal number passes as a port if and only if it is at most 65535.\<close>

lemma input_checks_accept_addresses_and_ports:
  "isIp (JStr (decimal a @ ''.'' @ decimal b @ ''.'' @ decimal c @ ''.'' @ decimal d)) =
     (a \<le> 255 \<and> b \<le> 255 \<and> c \<le> 255 \<and> d \<le> 255) \<and>
   isPort (JStr (decimal n)) = (n \<le> 65535)"
proof
  have split: "split_on CHR ''.'' (decimal a @ ''.'' @ decimal b @ ''.'' @ decimal c @ ''.'' @ decimal d) =
      [decimal a, decimal b, decimal c, decimal d]"
    by (simp add: split_on_cons split_on_last decimal_no_dot)
  have len: "k \<le> 255 \<Longrightarrow> 1 \<le> length (decimal k) \<and> length (decimal k) \<le> 3" for k
    using length_decimal [of k] decimal_nonempty [of k] by (cases "decimal k") auto
  show "isIp (JStr (decimal a @ ''.'' @ decimal b @ ''.'' @ decimal c @ ''.'' @ decimal d)) =
     (a \<le> 255 \<and> b \<le> 255 \<and> c \<le> 255 \<and> d \<le> 255)"
    using len by (simp add: isIp_def split matches_ip_def Let_def decimal_digits digits_value_decimal
        split [simplified])
  show "isPort (JStr (decimal n)) = (n \<le> 65535)"
    by (simp add: isPort_def decimal_nonempty decimal_digits digits_value_decimal)
qed

text \<open>When the list of streams arrives, the page selects the first of the sorted list: the
  stream the button would open is one of those received and has the least id.\<close>

lemma refresh_selects_the_least_stream:
  assumes "ss \<noteq> []"
  shows "\<exists>s. getStream (streams_done (Some ss) p) = Some s \<and> s \<in> set ss \<and>
    stream_id s = Min (stream_id ` set ss) \<and> stream_info (streams_done (Some ss) p) = Some (stream_ref s)"
proof -
  obtain s rest where sorted: "sort_key stream_id ss = s # rest"
    using assms by (cases "sort_key stream_id ss") (auto dest: arg_cong [where f = length])
  then have "set ss = insert s (set rest)" by (metis list.simps(15) set_sort)
  moreover have "stream_id s \<le> stream_id t" if "t \<in> set rest" for t
    using that sorted_sort_key [of stream_id ss] sorted by simp
  ultimately show ?thesis
    by (auto simp: streams_done_def updateErrorMessage_def updateStreamIds_def updateStreamInfo_def
        getStream_def Let_def sorted intro!: Min_eqI [symmetric])
qed

text \<open>The OpenGL player leaks when the page has no stream to open: each click creates a native
  player and then fails on the missing stream, so two clicks leave two players alive and only the
  last one is ever deleted.\<close>

lemma opengl_player_leaks_without_a_stream:
  assumes "getStream p = None" and "WsClient.ws (client p) = None" and "player_name p = ''opengl''"
    and "live_players p = {}"
  shows "fst (btn_open_click env gl p) = Inl TypeError \<and>
    live_players (snd (btn_open_click env gl (snd (btn_open_click env gl p)))) =
      {next_id (client p), Suc (next_id (client p))} \<and>
    gl_player (snd (btn_open_click env gl (snd (btn_open_click env gl p)))) = Some (Suc (next_id (client p)))"
proof -
  have click: "btn_open_click env gl q = (Inl TypeError,
      q\<lparr>client := (client q)\<lparr>next_id := Suc (next_id (client q)), trace := trace (client q) @ [NewOpenGLPlayer (next_id (client q))]\<rparr>,
        gl_player := Some (next_id (client q)), live_players := insert (next_id (client q)) (live_players q)\<rparr>)"
    if "getStream q = None" "WsClient.ws (client q) = None" "player_name q = ''opengl''" for q
    using that by (simp add: btn_open_click_def new_opengl_player_def open_with_def on_client_def
        createOpenGLPlayer_def fresh_id_def effect_def isOpen_def js_defs)
  have "getStream (p\<lparr>client := c, gl_player := g, live_players := l\<rparr>) = None" for c g l
    using assms(1) by (simp add: getStream_def split: option.splits)
  then show ?thesis
    using assms click [of p] by (simp add: click insert_commute)
qed

text \<open>Clicking twice on a page with a selected stream: the first click creates a ready WebGL
  player of the stream's size and opens the client on \<open>ws://host:port/stream/id\<close>; the second
  closes it and leaves no decoder behind.\<close>

lemma open_click_then_close_click:
  assumes stream: "getStream p = Some s" and player: "player_name p = ''webgl''"
    and client: "WsClient.ws (client p) = None" "decoders_exact (client p)"
      "get_prop (options (client p)) ''dbg'' = JBool False"
    and env: "\<And>u. accepts_url env u" "\<And>st. accepts_stream env st" and gl: "context_available gl"
    and q: "q = snd (btn_open_click env gl p)" and r: "r = snd (btn_open_click env gl q)"
  shows "isOpen (client q) \<and> button q = ''Close'' \<and>
    get_prop (options (client q)) ''url'' = JStr (getUrl (protocol_ws p) p @ ''/stream/'' @ stream_id s) \<and>
    get_prop (options (client q)) ''stream'' = JObj (stream_ref s) \<and>
    (\<exists>g. webgl q = Some g \<and> textures_ready g)"
    "\<not> isOpen (client r) \<and> button r = ''Open'' \<and> live_decoders (client r) = {} \<and> decoder (client r) = None"
proof -
  have opts: "get_prop (spread os [''url'' \<mapsto> u, ''stream'' \<mapsto> v, ''player'' \<mapsto> w]) k =
      (if k = ''url'' then u else if k = ''stream'' then v else if k = ''player'' then w else get_prop os k)"
    for os u v w k
    by (simp add: get_prop_def spread_def)
  have closed: "decoder (client p) = None" "live_decoders (client p) = {}"
    using client by (auto simp: decoders_exact_def)
  note run = client_simps on_client_def opts nullish_def isOpen_def updateStreamStatus_def
  have opened: "(\<exists>d w. decoder (client q) = Some d \<and> WsClient.ws (client q) = Some w \<and> live_decoders (client q) = {d}) \<and>
      button q = ''Close'' \<and>
      get_prop (options (client q)) ''dbg'' = JBool False \<and>
      get_prop (options (client q)) ''url'' = JStr (getUrl (protocol_ws p) p @ ''/stream/'' @ stream_id s) \<and>
      get_prop (options (client q)) ''stream'' = JObj (stream_ref s) \<and>
      (\<exists>g. webgl q = Some g \<and> textures_ready g)"
    unfolding q using stream player client closed env
    by (simp add: btn_open_click_def new_webgl_player_def open_with_def run getUrl_def textures_ready_new [OF gl])
  then show "isOpen (client q) \<and> button q = ''Close'' \<and>
    get_prop (options (client q)) ''url'' = JStr (getUrl (protocol_ws p) p @ ''/stream/'' @ stream_id s) \<and>
    get_prop (options (client q)) ''stream'' = JObj (stream_ref s) \<and>
    (\<exists>g. webgl q = Some g \<and> textures_ready g)"
    by (auto simp: isOpen_def)
  show "\<not> isOpen (client r) \<and> button r = ''Open'' \<and> live_decoders (client r) = {} \<and> decoder (client r) = None"
    unfolding r using opened
    by (cases "gl_player q") (auto simp: btn_open_click_def delete_player_def close_def run)
qed

text \<open>A list without streams leaves the details of the stream selected before on the page.\<close>

lemma empty_list_leaves_the_details:
  "stream_info (streams_done (Some []) p) = stream_info p \<and> getStream (streams_done (Some []) p) = None"
  by (simp add: streams_done_def updateErrorMessage_def updateStreamIds_def updateStreamInfo_def getStream_def)

end
