(* ===== verification/Bytes.thy ===== *)
theory Bytes imports Prelude begin

text \<open>
  \<open>common/util/bytes.h\<close>: the big-endian serialisation of integers, doubles as they
  lie in memory, the raw and the padded string copies.  \<open>bytes::to<T>\<close> shifts in the type \<open>T\<close>; \<open>bytes::from<T>\<close> shifts each
  byte after its promotion to \<open>int\<close>, whatever \<open>T\<close> is, and that is modelled as written:
  for the eight-byte types the counts 32 to 56 exceed the 32 bits of the promoted operand,
  which C++ leaves undefined, so the value the target computes for such a shift is a
  parameter of the model (\<open>wide\<close>).  The locale \<open>scalar_codec\<close> is the contract the packet
  format relies on; it is interpreted for every scalar the format uses.
\<close>

unbundle bit_operations_syntax

section \<open>Writing: bytes::to\<close>

text \<open>
  One loop for the signed and one for the unsigned instances: \<open>value >> n\<close> is arithmetic on
  a signed \<open>T\<close> and logical on an unsigned one.
\<close>

definition to_signed :: "'a::len word \<Rightarrow> byte list" where
  "to_signed value =
     map (\<lambda>i. ucast (signed_drop_bit (8 * (sizeof value - i - 1)) value AND 0xff)) [0..<sizeof value]"

definition to_unsigned :: "'a::len word \<Rightarrow> byte list" where
  "to_unsigned value =
     map (\<lambda>i. ucast (drop_bit (8 * (sizeof value - i - 1)) value AND 0xff)) [0..<sizeof value]"

definition to_byte :: "byte \<Rightarrow> byte list" where
  "to_byte value = [value]"

text \<open>\<open>bytes::toc<C>\<close>: a cast before the write.\<close>

definition toc_byte :: "'a::len word \<Rightarrow> byte list" where
  "toc_byte value = to_byte (ucast value)"

text \<open>The string overload: the characters, then \<open>pad\<close> up to \<open>size\<close>.\<close>

definition to_string :: "byte list \<Rightarrow> nat \<Rightarrow> byte \<Rightarrow> byte list" where
  "to_string value sz pad =
     (if sz > length value then value @ replicate (sz - length value) pad else value)"

section \<open>Reading: bytes::from\<close>

type_synonym wide_shl = "32 word \<Rightarrow> nat \<Rightarrow> 32 word"

text \<open>\<open>bytes[i] << n\<close>: the byte is promoted to \<open>int\<close>; from 32 on the count is oversize.\<close>

definition shl_int :: "wide_shl \<Rightarrow> byte \<Rightarrow> nat \<Rightarrow> cint" where
  "shl_int wide b n = (if n < 32 then push_bit n (ucast b) else wide (ucast b) n)"

text \<open>x86-64 and WebAssembly shift a 32-bit operand by the count modulo 32.\<close>

definition masked_shl :: wide_shl where
  "masked_shl x n = push_bit (n mod 32) x"

text \<open>\<open>value |= \<dots>\<close> converts the shifted \<open>int\<close> to \<open>T\<close>, extending its sign.\<close>

definition from_int :: "wide_shl \<Rightarrow> byte list \<Rightarrow> 'a::len word" where
  "from_int wide bytes =
     (let sz = sizeof (0 :: 'a word)
      in foldl (\<lambda>value i. value OR scast (shl_int wide (bytes ! i) (8 * (sz - i - 1)))) 0 [0..<sz])"

definition from_byte :: "byte list \<Rightarrow> byte" where
  "from_byte bytes = bytes ! 0"

text \<open>The string overload: \<open>find_last_not_of\<close> and \<open>erase\<close> drop the trailing trim set.\<close>

definition from_string :: "byte list \<Rightarrow> bool \<Rightarrow> byte list \<Rightarrow> byte list" where
  "from_string s trim trim_set = (if trim then rev (dropWhile (\<lambda>c. c \<in> set trim_set) (rev s)) else s)"

text \<open>A read through a pointer into a buffer, out of bounds or not.\<close>

definition fetch :: "(byte list \<Rightarrow> 'a) \<Rightarrow> nat \<Rightarrow> byte list \<Rightarrow> nat \<Rightarrow> 'a outcome" where
  "fetch get width bs pos = bind_outcome (read_at bs pos width) (\<lambda>xs. Return (get xs))"

section \<open>Floating point numbers and arrays\<close>

text \<open>
  A \<open>double\<close>, here its 64 bits, is copied as it lies in memory.  \<open>order\<close> is the target's: the bit at which each
  byte of the representation begins, in the order of the addresses.
\<close>

type_synonym byte_order = "nat list"

definition little_endian :: byte_order where
  "little_endian = [0, 8, 16, 24, 32, 40, 48, 56]"

definition big_endian :: byte_order where
  "big_endian = rev little_endian"

definition to_double :: "byte_order \<Rightarrow> 64 word \<Rightarrow> byte list" where
  "to_double order value = map (\<lambda>k. ucast (drop_bit k value)) order"

definition from_double :: "byte_order \<Rightarrow> byte list \<Rightarrow> 64 word" where
  "from_double order bytes = foldr (\<lambda>(k, b) value. push_bit k (ucast b) OR value) (zip order bytes) 0"

text \<open>\<open>std::copy\<close> of \<open>sz\<close> bytes, to a buffer at \<open>pos\<close> and from one; the size is returned with it.\<close>

definition to_data :: "byte list \<Rightarrow> nat \<Rightarrow> byte list \<Rightarrow> nat \<Rightarrow> (nat \<times> byte list) outcome" where
  "to_data bytes pos data sz =
     bind_outcome (read_at data 0 sz) (\<lambda>xs. bind_outcome (write_at bytes pos xs) (\<lambda>bytes. Return (sz, bytes)))"

definition from_data :: "byte list \<Rightarrow> nat \<Rightarrow> byte list \<Rightarrow> nat \<Rightarrow> (nat \<times> byte list) outcome" where
  "from_data bytes pos data sz =
     bind_outcome (read_at bytes pos sz) (\<lambda>xs. bind_outcome (write_at data 0 xs) (\<lambda>data. Return (sz, data)))"

text \<open>\<open>bytes::fromc<C, T>\<close>: a cast after the read, from an unsigned byte and from an \<open>int\<close>.\<close>

definition fromc_byte :: "byte list \<Rightarrow> 'a::len word" where
  "fromc_byte bytes = ucast (from_byte bytes)"

definition fromc_int :: "wide_shl \<Rightarrow> byte list \<Rightarrow> 'a::len word" where
  "fromc_int wide bytes = scast (from_int wide bytes :: cint)"

section \<open>The contract of a scalar of the wire format\<close>

locale scalar_codec =
  fixes put :: "'a \<Rightarrow> byte list"
    and get :: "byte list \<Rightarrow> 'a"
    and width :: nat
    and faithful :: "'a \<Rightarrow> bool"
  assumes length_put: "length (put v) = width"
    and get_put: "faithful v \<Longrightarrow> get (put v) = v"
begin

lemma fetch_put:
  "length pre = pos \<Longrightarrow> faithful v \<Longrightarrow> fetch get width (pre @ put v @ post) pos = Return v"
  by (simp add: fetch_def read_at_append length_put get_put)

lemma fetch_at: "left_at bs pos (put v @ rest) \<Longrightarrow> faithful v \<Longrightarrow> fetch get width bs pos = Return v"
  by (metis left_at_read fetch_def bind_outcome.simps(1) length_put get_put)

lemma next_at: "left_at bs pos (put v @ rest) \<Longrightarrow> left_at bs (pos + width) rest"
  by (metis left_at_next length_put)

lemma put_inj: "faithful v \<Longrightarrow> faithful w \<Longrightarrow> put v = put w \<Longrightarrow> v = w"
  by (metis get_put)

end

section \<open>Bytes of a word\<close>

lemma upt_4_8: "[0..<4] = [0, 1, 2, 3]" "[0..<8] = [0, 1, 2, 3, 4, 5, 6, 7]"
  by code_simp+

lemma ucast_and_255: "(ucast (x AND 255) :: byte) = ucast x" for x :: "'a::len word"
proof -
  have m: "(255 :: 'a word) = mask 8" by (simp add: mask_eq_decr_exp)
  show ?thesis
    unfolding m by (rule bit_word_eqI) (auto simp: bit_simps dest: bit_imp_le_length)
qed

lemma to_signed_32:
  "to_signed (v :: 32 word) = map (\<lambda>k. ucast (drop_bit k v)) [24, 16, 8, 0]"
  by (simp add: to_signed_def sizeof_def upt_4_8 ucast_and_255)
     (auto intro!: bit_word_eqI simp: bit_simps)

lemma to_unsigned_32:
  "to_unsigned (v :: 32 word) = map (\<lambda>k. ucast (drop_bit k v)) [24, 16, 8, 0]"
  by (simp add: to_unsigned_def sizeof_def upt_4_8 ucast_and_255)

lemma to_signed_64:
  "to_signed (v :: 64 word) = map (\<lambda>k. ucast (drop_bit k v)) [56, 48, 40, 32, 24, 16, 8, 0]"
  by (simp add: to_signed_def sizeof_def upt_4_8 ucast_and_255)
     (auto intro!: bit_word_eqI simp: bit_simps)

lemmas to_words = to_signed_32 to_unsigned_32 to_signed_64

lemma join_32:
  "push_bit 24 (ucast (ucast (drop_bit 24 v) :: byte)) OR
   (push_bit 16 (ucast (ucast (drop_bit 16 v) :: byte)) OR
   (push_bit 8 (ucast (ucast (drop_bit 8 v) :: byte)) OR
    ucast (ucast v :: byte))) = (v :: 32 word)"
proof (rule bit_word_eqI, goal_cases)
  case (1 n)
  consider "n < 8" | "8 \<le> n" "n < 16" | "16 \<le> n" "n < 24" | "24 \<le> n" by linarith
  then show ?case using 1 by cases (auto simp: bit_simps)
qed

lemma scast_or: "scast (a OR b) = (scast a OR scast b :: 'b::len word)" for a :: "'a::len word"
  by (rule signed_or_eq)

lemma from_int_32:
  "length bs = 4 \<Longrightarrow> (from_int wide bs :: 32 word) =
     push_bit 24 (ucast (bs ! 0)) OR push_bit 16 (ucast (bs ! 1)) OR
     push_bit 8 (ucast (bs ! 2)) OR ucast (bs ! 3)"
  by (simp add: from_int_def sizeof_def upt_4_8 shl_int_def Let_def or.assoc)

text \<open>The eight-byte reader ORs 32-bit values and extends the sign of the result.\<close>

definition from_i64_low :: "wide_shl \<Rightarrow> byte list \<Rightarrow> cint" where
  "from_i64_low wide bs = foldl (\<lambda>v i. v OR shl_int wide (bs ! i) (8 * (8 - i - 1))) 0 [0..<8]"

lemma from_int_64: "(from_int wide bs :: 64 word) = scast (from_i64_low wide bs)"
  by (simp add: from_int_def from_i64_low_def sizeof_def upt_4_8 Let_def scast_or)

section \<open>The scalars of the wire format\<close>

lemma from_to_signed_32: "(from_int wide (to_signed v) :: 32 word) = v"
  using join_32 [of v] by (simp add: from_int_32 to_words)

lemma from_to_unsigned_32: "(from_int wide (to_unsigned v) :: 32 word) = v"
  using join_32 [of v] by (simp add: from_int_32 to_words)

lemma from_i64_low_to_signed:
  assumes "\<And>n. wide 0 n = 0" and "drop_bit 32 v = (0 :: 64 word)"
  shows "from_i64_low wide (to_signed v) = ucast v"
proof -
  have hi: "(ucast (drop_bit k v) :: byte) = 0" if "32 \<le> k" for k
  proof (rule bit_word_eqI, goal_cases)
    case (1 n)
    have "\<not> bit (drop_bit 32 v) (k - 32 + n)" by (simp add: assms(2))
    with that show ?case by (simp add: bit_simps ac_simps)
  qed
  have lo: "(ucast (drop_bit k v) :: byte) = ucast (drop_bit k (ucast v :: 32 word))" if "k \<le> 24" for k
    using that by (auto intro!: bit_word_eqI simp: bit_simps)
  have bytes: "to_signed v = [0, 0, 0, 0] @ to_signed (ucast v :: 32 word)"
    using lo [of 0] by (simp add: to_words hi lo)
  have "from_i64_low wide ([0, 0, 0, 0] @ bs) = from_int wide bs" if "length bs = 4" for bs
    using that by (simp add: from_i64_low_def from_int_32 upt_4_8 shl_int_def assms(1) or.assoc nth_append)
  from this [of "to_signed (ucast v :: 32 word)"] show ?thesis
    by (simp only: bytes from_to_signed_32) (simp add: to_words)
qed

interpretation u8: scalar_codec to_byte from_byte 1 "\<lambda>_. True"
  by unfold_locales (simp_all add: to_byte_def from_byte_def)

interpretation u32: scalar_codec "to_unsigned :: uint32 \<Rightarrow> byte list" "from_int wide" 4 "\<lambda>_. True" for wide
  by unfold_locales (simp_all add: from_to_unsigned_32, simp add: to_words)

interpretation i32: scalar_codec "to_signed :: cint \<Rightarrow> byte list" "from_int wide" 4 "\<lambda>_. True" for wide
  by unfold_locales (simp_all add: from_to_signed_32, simp add: to_words)

text \<open>Of the \<open>int64_t\<close> values, the reader is faithful on those of 31 bits.\<close>

definition i64_faithful :: "wide_shl \<Rightarrow> cint64 \<Rightarrow> bool" where
  "i64_faithful wide v \<longleftrightarrow> (\<forall>n. wide 0 n = 0) \<and> 0 \<le> sint v \<and> sint v < 2 ^ 31"

lemma i64_faithful_bits:
  assumes "i64_faithful wide v" and "31 \<le> n"
  shows "\<not> bit v n"
proof -
  have "uint v < 2 ^ 31"
    using assms(1) by (simp add: i64_faithful_def uint_sint take_bit_int_eq_self)
  then have "v = take_bit 31 v"
    by (simp add: word_uint_eq_iff unsigned_take_bit_eq take_bit_int_eq_self)
  then have "bit v n = bit (take_bit 31 v) n" by simp
  then show ?thesis using assms(2) by (simp add: bit_take_bit_iff)
qed

lemma from_to_i64:
  assumes "i64_faithful wide v"
  shows "from_int wide (to_signed v) = (v :: cint64)"
proof -
  note b = i64_faithful_bits [OF assms]
  have "drop_bit 32 v = 0"
    by (rule bit_word_eqI) (auto simp: bit_simps b)
  moreover have "scast (ucast v :: 32 word) = v"
  proof (rule bit_word_eqI, goal_cases)
    case (1 n)
    then show ?case by (cases "n < 31") (auto simp: bit_simps b min_def)
  qed
  ultimately show ?thesis
    using assms by (simp add: from_int_64 from_i64_low_to_signed i64_faithful_def)
qed

interpretation i64: scalar_codec "to_signed :: cint64 \<Rightarrow> byte list" "from_int wide" 8 "i64_faithful wide" for wide
  by unfold_locales (simp_all add: from_to_i64, simp add: to_words)

lemma from_i64_range: "- (2 ^ 31) \<le> sint (from_int wide bs :: cint64) \<and> sint (from_int wide bs :: cint64) < 2 ^ 31"
proof -
  have "sint (scast x :: 64 word) = sint x" for x :: "32 word"
    by (simp add: signed_scast_eq signed_take_bit_int_eq_self sint_ge sint_less [of x, THEN less_le_trans]
        order.trans [OF _ sint_ge])
  then show ?thesis
    using sint_ge [of "from_i64_low wide bs"] sint_less [of "from_i64_low wide bs"]
    by (simp add: from_int_64)
qed

section \<open>Doubles and arrays\<close>

lemma join_64:
  "push_bit 56 (ucast (ucast (drop_bit 56 v) :: byte)) OR (push_bit 48 (ucast (ucast (drop_bit 48 v) :: byte)) OR
   (push_bit 40 (ucast (ucast (drop_bit 40 v) :: byte)) OR (push_bit 32 (ucast (ucast (drop_bit 32 v) :: byte)) OR
   (push_bit 24 (ucast (ucast (drop_bit 24 v) :: byte)) OR (push_bit 16 (ucast (ucast (drop_bit 16 v) :: byte)) OR
   (push_bit 8 (ucast (ucast (drop_bit 8 v) :: byte)) OR ucast (ucast v :: byte))))))) = (v :: 64 word)"
proof (rule bit_word_eqI, goal_cases)
  case (1 n)
  consider "n < 8" | "8 \<le> n" "n < 16" | "16 \<le> n" "n < 24" | "24 \<le> n" "n < 32" | "32 \<le> n" "n < 40"
    | "40 \<le> n" "n < 48" | "48 \<le> n" "n < 56" | "56 \<le> n" by linarith
  then show ?case using 1 by cases (auto simp: bit_simps)
qed

lemma from_to_big_endian: "from_double big_endian (to_double big_endian v) = v"
  using join_64 [of v] by (simp add: from_double_def to_double_def big_endian_def little_endian_def)

lemma from_to_little_endian: "from_double little_endian (to_double little_endian v) = v"
  using join_64 [of v] by (simp add: from_double_def to_double_def little_endian_def or.assoc or.commute or.left_commute)

interpretation f64be: scalar_codec "to_double big_endian" "from_double big_endian" 8 "\<lambda>_. True"
  by unfold_locales (simp_all add: from_to_big_endian, simp add: to_double_def big_endian_def little_endian_def)

interpretation f64le: scalar_codec "to_double little_endian" "from_double little_endian" 8 "\<lambda>_. True"
  by unfold_locales (simp_all add: from_to_little_endian, simp add: to_double_def little_endian_def)

text \<open>The bytes of a \<open>double\<close> are those of an \<open>int64_t\<close> with the same bits on a big-endian target, and in the reverse
  order on a little-endian one: unlike the integers, a \<open>double\<close> is not portable, and one written on a target of the
  other order is read with its bytes reversed.\<close>

lemma double_bytes:
  "to_double big_endian v = to_signed v" "to_double little_endian v = rev (to_signed v)"
  by (simp_all add: to_double_def big_endian_def little_endian_def to_words)

lemma double_of_the_other_order:
  "from_double big_endian (to_double little_endian v) = from_double big_endian (rev (to_double big_endian v))"
  by (simp add: double_bytes)

text \<open>An array written and read back, into a buffer that is long enough.\<close>

lemma data_roundtrip:
  assumes "sz \<le> length data" and "sz \<le> length data'" and "pos + sz \<le> length bytes"
  shows "bind_outcome (to_data bytes pos data sz) (\<lambda>(n, bytes). from_data bytes pos data' sz) =
    Return (sz, take sz data @ drop sz data')"
  using assms by (auto simp: to_data_def from_data_def read_at_def write_at_def min_def)

text \<open>Reading past the end of either, or writing past it, is out of bounds; nothing else is.\<close>

lemma to_data_returns_iff:
  "(\<exists>r. to_data bytes pos data sz = Return r) \<longleftrightarrow> sz \<le> length data \<and> pos + sz \<le> length bytes"
  by (auto simp: to_data_def read_at_def write_at_def)

section \<open>Properties\<close>

text \<open>\<open>bytes::from<int64_t>\<close> cannot read a 64-bit value: whatever the bytes and whatever
  the target does for the oversize shifts, the result is a sign-extended 32-bit value.\<close>

lemma int64_reader_is_32_bit:
  "- (2 ^ 31) \<le> sint (from_int wide bs :: cint64) \<and> sint (from_int wide bs :: cint64) < 2 ^ 31"
  by (rule from_i64_range)

lemma from_i64_low_masked:
  "length as = 4 \<Longrightarrow> length bs = 4 \<Longrightarrow>
     from_i64_low masked_shl (as @ bs) = from_int wide as OR from_int wide bs"
  by (simp add: from_i64_low_def from_int_32 upt_4_8 shl_int_def masked_shl_def nth_append or.assoc)

lemma to_signed_64_split:
  "to_signed (v :: cint64) = to_signed (ucast (drop_bit 32 v) :: cint) @ to_signed (ucast v :: cint)"
proof -
  have "(ucast (drop_bit k v) :: byte) = ucast (drop_bit (k - 32) (ucast (drop_bit 32 v) :: cint))"
    if "32 \<le> k" "k \<le> 56" for k
    using that by (auto intro!: bit_word_eqI simp: bit_simps)
  moreover have "(ucast (drop_bit k v) :: byte) = ucast (drop_bit k (ucast v :: cint))" if "k \<le> 24" for k
    using that by (auto intro!: bit_word_eqI simp: bit_simps)
  ultimately show ?thesis
    by (simp add: to_words) (metis drop_bit_0 order_refl zero_le_numeral id_apply)
qed

lemma from_to_i64_masked:
  "from_int masked_shl (to_signed (v :: cint64)) = (scast (ucast (drop_bit 32 v) OR ucast v :: cint) :: cint64)"
  unfolding from_int_64 to_signed_64_split
  by (subst from_i64_low_masked [where wide = masked_shl]) (simp_all only: from_to_signed_32, simp_all add: to_words)

text \<open>On x86-64 and WebAssembly, where the shift count is taken modulo 32, an \<open>int64_t\<close>
  survives \<open>toc<int64_t>\<close> and \<open>from<int64_t>\<close> exactly when it is -1 or has 31 bits.\<close>

lemma int64_roundtrip_iff:
  "from_int masked_shl (to_signed v) = (v :: cint64) \<longleftrightarrow> v = -1 \<or> (0 \<le> sint v \<and> sint v < 2 ^ 31)"
proof
  assume rt: "from_int masked_shl (to_signed v) = v"
  show "v = -1 \<or> (0 \<le> sint v \<and> sint v < 2 ^ 31)"
  proof (cases "0 \<le> sint v")
    case True
    then show ?thesis using from_i64_range [of masked_shl "to_signed v"] rt by simp
  next
    case False
    let ?x = "ucast (drop_bit 32 v) OR ucast v :: cint"
    have v: "v = scast ?x" using rt by (simp add: from_to_i64_masked)
    have top: "bit v n" if "31 \<le> n" "n < 64" for n
    proof -
      have "bit v 63" using False bit_last_iff [of v] by simp
      then have "bit (scast ?x :: cint64) 63" using v by simp
      then have "bit ?x 31" by (simp add: bit_signed_iff)
      with that show ?thesis by (subst v) (simp add: bit_simps min_def)
    qed
    have "?x = -1"
      by (rule bit_word_eqI) (auto simp: bit_simps intro: top)
    then show ?thesis using v by simp
  qed
next
  assume "v = -1 \<or> (0 \<le> sint v \<and> sint v < 2 ^ 31)"
  then show "from_int masked_shl (to_signed v) = v"
  proof
    assume "v = -1"
    then show ?thesis by (simp add: from_to_i64_masked) (code_simp)
  next
    assume "0 \<le> sint v \<and> sint v < 2 ^ 31"
    then show ?thesis by (intro from_to_i64) (simp add: i64_faithful_def masked_shl_def)
  qed
qed

text \<open>A string written with padding and read back with the padding trimmed is the
  string, exactly when it does not itself end in the padding character.\<close>

lemma padded_string_roundtrip_iff:
  "from_string (to_string s n pad) True [pad] = s \<longleftrightarrow> s = [] \<or> last s \<noteq> pad"
proof -
  have "from_string (to_string s n pad) True [pad] = rev (dropWhile (\<lambda>c. c = pad) (rev s))"
    by (simp add: from_string_def to_string_def dropWhile_append)
  moreover have "rev (dropWhile (\<lambda>c. c = pad) (rev s)) = s \<longleftrightarrow> s = [] \<or> last s \<noteq> pad"
  proof (cases s rule: rev_cases)
    case (snoc t c)
    have "length (dropWhile (\<lambda>c. c = pad) (rev t)) < length s"
      using snoc length_dropWhile_le [of "\<lambda>c. c = pad" "rev t"] by simp
    then have "rev (dropWhile (\<lambda>c. c = pad) (rev t)) \<noteq> s" by (metis length_rev less_irrefl)
    with snoc show ?thesis by auto
  qed simp
  ultimately show ?thesis by simp
qed

end
