(* ===== verification/Packet.thy ===== *)
theory Packet imports Bytes begin

text \<open>
  \<open>common/net/packet.h\<close>: class \<open>net::Data\<close>, the media packet and its wire format
  \<open>| version 2 | type 1 | pkg_size 4 | pkg_data |\<close>.  The FFmpeg calls it makes
  (\<open>av_malloc\<close>, \<open>av_packet_from_data\<close>, \<open>av_packet_add_side_data\<close>) are the parameter
  \<open>av_api\<close>; \<open>av_contract\<close> states what their documentation promises.  Writing goes
  through a buffer of a given size, reading through a pointer with no bound but the
  explicit checks of the code: an access outside the buffer is \<open>OutOfBounds\<close>.
\<close>

section \<open>Data\<close>

record side_data =
  sd_type :: cint
  sd_data :: "byte list"

record av_packet =
  pts :: cint64
  dts :: cint64
  pkt_data :: "byte list"
  stream_index :: cint
  flags :: cint
  side_datas :: "side_data list"
  duration :: cint64
  pkt_pos :: cint64

record net_data =
  media :: cint          \<comment> \<open>\<open>AVMediaType type\<close>\<close>
  packet :: av_packet

datatype status = OK | ERROR_NOT_ENOUGH | ERROR_ALLOC_FAIL

definition AVMEDIA_TYPE_UNKNOWN :: cint where "AVMEDIA_TYPE_UNKNOWN = -1"
definition AV_PKT_FLAG_KEY :: cint where "AV_PKT_FLAG_KEY = 1"

text \<open>\<open>av_packet_alloc()\<close> in the constructor: an empty packet.\<close>

definition av_packet_alloc :: av_packet where
  "av_packet_alloc = \<lparr>pts = 0x8000000000000000, dts = 0x8000000000000000, pkt_data = [],
     stream_index = 0, flags = 0, side_datas = [], duration = 0, pkt_pos = -1\<rparr>"

definition Data :: net_data where
  "Data = \<lparr>media = AVMEDIA_TYPE_UNKNOWN, packet = av_packet_alloc\<rparr>"

definition ver_major :: byte where "ver_major = 1"
definition ver_minor :: byte where "ver_minor = 0"

section \<open>Writing\<close>

definition GetByteSize :: "av_packet \<Rightarrow> nat" where
  "GetByteSize p =
     foldl (\<lambda>n sd. n + (5 + length (sd_data sd)))
       ((2 + 1 + 4) + (8 * 4 + 4 * 4) + length (pkt_data p)) (side_datas p)"

text \<open>\<open>pos += bytes::to(bytes + pos, \<dots>)\<close>, and a sequence of such writes.\<close>

fun emit :: "byte list \<Rightarrow> byte list \<times> nat \<Rightarrow> (byte list \<times> nat) outcome" where
  "emit xs (bytes, pos) =
     bind_outcome (write_at bytes pos xs) (\<lambda>bytes'. Return (bytes', pos + length xs))"

fun emit_all :: "byte list list \<Rightarrow> byte list \<times> nat \<Rightarrow> (byte list \<times> nat) outcome" where
  "emit_all [] s = Return s"
| "emit_all (xs # xss) s = bind_outcome (emit xs s) (emit_all xss)"

definition side_data_fields :: "side_data \<Rightarrow> byte list list" where
  "side_data_fields sd =
     [toc_byte (sd_type sd), to_signed (of_nat (length (sd_data sd)) :: cint), sd_data sd]"

definition packet_fields :: "net_data \<Rightarrow> byte list list" where
  "packet_fields d =
     (let p = packet d in
      [toc_byte ver_major, toc_byte ver_minor, toc_byte (media d),
       to_unsigned (of_nat (GetByteSize p) :: uint32),
       to_signed (pts p), to_signed (dts p),
       to_signed (of_nat (length (pkt_data p)) :: cint), pkt_data p,
       to_signed (stream_index p), to_signed (flags p),
       to_signed (of_nat (length (side_datas p)) :: cint)] @
      concat (map side_data_fields (side_datas p)) @
      [to_signed (duration p), to_signed (pkt_pos p)])"

text \<open>\<open>ToBytes(uint8_t *, size_t, const Data &)\<close> on a buffer.\<close>

definition ToBytes_buffer :: "byte list \<Rightarrow> net_data \<Rightarrow> (status \<times> byte list) outcome" where
  "ToBytes_buffer bytes d =
     (let pkg_size = GetByteSize (packet d) in
      if length bytes < pkg_size then Return (ERROR_NOT_ENOUGH, bytes)
      else bind_outcome (emit_all (packet_fields d) (bytes, 0))
             (\<lambda>(bytes', pos). if pkg_size \<noteq> pos then Fatal else Return (OK, bytes')))"

text \<open>\<open>ToBytes(std::vector &)\<close>: grow the vector (zero filled), then write into it.\<close>

definition ToBytes_vector :: "byte list \<Rightarrow> net_data \<Rightarrow> (status \<times> byte list) outcome" where
  "ToBytes_vector bytes d =
     (let n = GetByteSize (packet d);
          bytes' = (if length bytes < n then bytes @ replicate (n - length bytes) 0 else bytes)
      in ToBytes_buffer bytes' d)"

section \<open>Reading\<close>

record av_api =
  av_malloc_ok :: "nat \<Rightarrow> bool"        \<comment> \<open>the allocation of so many bytes succeeds\<close>
  packet_from_data :: "av_packet \<Rightarrow> byte list \<Rightarrow> av_packet"
  packet_add_side_data :: "av_packet \<Rightarrow> side_data \<Rightarrow> av_packet"

text \<open>What FFmpeg documents of the calls while memory lasts, for sizes below \<open>INT_MAX\<close> minus
  the padding: allocations succeed, the buffer becomes the packet's data, side data of a type
  the packet does not have yet is appended.\<close>

definition av_contract :: "av_api \<Rightarrow> bool" where
  "av_contract av \<longleftrightarrow>
     (\<forall>n < 2 ^ 31 - 65. av_malloc_ok av n) \<and>
     (\<forall>p xs. length xs < 2 ^ 31 - 65 \<longrightarrow> packet_from_data av p xs = p\<lparr>pkt_data := xs\<rparr>) \<and>
     (\<forall>p sd. sd_type sd \<notin> sd_type ` set (side_datas p) \<longrightarrow>
        packet_add_side_data av p sd = p\<lparr>side_datas := side_datas p @ [sd]\<rparr>)"

text \<open>One iteration of the side data loop; \<open>None\<close> is the early return on a failed allocation.\<close>

definition read_side_data ::
  "av_api \<Rightarrow> wide_shl \<Rightarrow> byte list \<Rightarrow> av_packet \<times> nat \<Rightarrow> (av_packet \<times> nat \<times> bool) outcome" where
  "read_side_data av wide bytes s =
     (case s of (p, pos) \<Rightarrow>
      bind_outcome (fetch from_byte 1 bytes pos) (\<lambda>type.
      bind_outcome (fetch (from_int wide) 4 bytes (pos + 1)) (\<lambda>sz.
      if av_malloc_ok av (size_t_of_int sz) then
        bind_outcome (fetch id (size_t_of_int sz) bytes (pos + 5)) (\<lambda>buf.
        Return (packet_add_side_data av p \<lparr>sd_type = ucast type, sd_data = buf\<rparr>,
                pos + (5 + size_t_of_int sz), True))
      else Return (p, pos, False))))"

fun read_side_datas ::
  "av_api \<Rightarrow> wide_shl \<Rightarrow> byte list \<Rightarrow> nat \<Rightarrow> av_packet \<times> nat \<Rightarrow> (av_packet \<times> nat \<times> bool) outcome" where
  "read_side_datas av wide bytes 0 (p, pos) = Return (p, pos, True)"
| "read_side_datas av wide bytes (Suc n) s =
     bind_outcome (read_side_data av wide bytes s) (\<lambda>(p, pos, ok).
       if ok then read_side_datas av wide bytes n (p, pos) else Return (p, pos, False))"

text \<open>\<open>FromBytes(const uint8_t *, size_t, Data &)\<close>: the status and the updated object.\<close>

definition FromBytes :: "av_api \<Rightarrow> wide_shl \<Rightarrow> byte list \<Rightarrow> net_data \<Rightarrow> (status \<times> net_data) outcome" where
  "FromBytes av wide bytes d =
     (if length bytes < 7 then Return (ERROR_NOT_ENOUGH, d)
      else
      bind_outcome (fetch from_byte 1 bytes 2) (\<lambda>type.
      bind_outcome (fetch (from_int wide) 4 bytes 3) (\<lambda>pkg_size :: uint32.
      let d = d\<lparr>media := ucast type\<rparr>; pos = 7 in
      if length bytes < unat pkg_size then Return (ERROR_NOT_ENOUGH, d)
      else
      bind_outcome (fetch (from_int wide) 8 bytes pos) (\<lambda>v_pts.
      bind_outcome (fetch (from_int wide) 8 bytes (pos + 8)) (\<lambda>v_dts.
      bind_outcome (fetch (from_int wide) 4 bytes (pos + 16)) (\<lambda>data_size.
      let p = (packet d)\<lparr>pts := v_pts, dts := v_dts\<rparr>; pos = pos + 20 in
      if \<not> av_malloc_ok av (size_t_of_int data_size)
      then Return (ERROR_ALLOC_FAIL, d\<lparr>packet := p\<rparr>)
      else
      bind_outcome (fetch id (size_t_of_int data_size) bytes pos) (\<lambda>data_buf.
      let p = packet_from_data av p data_buf; pos = pos + size_t_of_int data_size in
      bind_outcome (fetch (from_int wide) 4 bytes pos) (\<lambda>v_index.
      bind_outcome (fetch (from_int wide) 4 bytes (pos + 4)) (\<lambda>v_flags.
      bind_outcome (fetch (from_int wide) 4 bytes (pos + 8)) (\<lambda>side_data_elems :: cint.
      let p = p\<lparr>stream_index := v_index, flags := v_flags\<rparr>; pos = pos + 12 in
      bind_outcome (read_side_datas av wide bytes (nat (sint side_data_elems)) (p, pos)) (\<lambda>(p, pos, ok).
      if \<not> ok then Return (ERROR_ALLOC_FAIL, d\<lparr>packet := p\<rparr>)
      else
      bind_outcome (fetch (from_int wide) 8 bytes pos) (\<lambda>v_duration.
      bind_outcome (fetch (from_int wide) 8 bytes pos) (\<lambda>v_pos.
      let p = p\<lparr>duration := v_duration, pkt_pos := v_pos\<rparr>; pos = pos + 16 in
      if unat pkg_size \<noteq> pos then Fatal else Return (OK, d\<lparr>packet := p\<rparr>))))))))))))))"

section \<open>Writing: the encoder never aborts\<close>

lemma emit_all_concat:
  "length (concat xss) \<le> length rest \<Longrightarrow> length pre = pos \<Longrightarrow>
     emit_all xss (pre @ rest, pos) =
       Return (pre @ concat xss @ drop (length (concat xss)) rest, pos + length (concat xss))"
proof (induction xss arbitrary: pre rest pos)
  case (Cons xs xss)
  have "emit xs (pre @ rest, pos) = Return ((pre @ xs) @ drop (length xs) rest, pos + length xs)"
    using Cons.prems by (simp add: write_at_append)
  moreover have "emit_all xss ((pre @ xs) @ drop (length xs) rest, pos + length xs) =
      Return ((pre @ xs) @ concat xss @ drop (length (concat xss)) (drop (length xs) rest),
        pos + length xs + length (concat xss))"
    using Cons.prems by (intro Cons.IH) simp_all
  ultimately show ?case by (simp add: add.commute)
qed simp

lemma length_scalars:
  "length (toc_byte v) = 1" "length (to_unsigned (a :: uint32)) = 4"
  "length (to_signed (b :: cint)) = 4" "length (to_signed (c :: cint64)) = 8"
  by (simp_all add: toc_byte_def u8.length_put u32.length_put i32.length_put i64.length_put)

lemma length_side_data_fields: "length (concat (side_data_fields sd)) = 5 + length (sd_data sd)"
  by (simp add: side_data_fields_def length_scalars)

lemma foldl_side_size:
  "foldl (\<lambda>n sd. n + (5 + length (sd_data sd))) a sds =
     a + length (concat (concat (map side_data_fields sds)))"
  by (induction sds arbitrary: a) (simp_all add: length_side_data_fields)

lemma length_packet_fields: "length (concat (packet_fields d)) = GetByteSize (packet d)"
  by (simp add: packet_fields_def GetByteSize_def foldl_side_size length_scalars Let_def)

lemma ToBytes_buffer_eq:
  "ToBytes_buffer bytes d =
     (if length bytes < GetByteSize (packet d) then Return (ERROR_NOT_ENOUGH, bytes)
      else Return (OK, concat (packet_fields d) @ drop (GetByteSize (packet d)) bytes))"
  using emit_all_concat [of "packet_fields d" bytes "[]" 0]
  by (simp add: ToBytes_buffer_def Let_def length_packet_fields)

lemma ToBytes_vector_eq: "ToBytes_vector [] d = Return (OK, concat (packet_fields d))"
  by (simp add: ToBytes_buffer_eq ToBytes_vector_def length_packet_fields Let_def)

text \<open>C31. Serialising a packet never aborts and never writes outside the buffer: with a buffer
  of at least \<open>GetByteSize()\<close> bytes exactly that many bytes are written, with a smaller one
  nothing is, and the vector overload always has room.\<close>

theorem ToBytes_safe:
  "ToBytes_buffer bytes d =
     (if length bytes < GetByteSize (packet d) then Return (ERROR_NOT_ENOUGH, bytes)
      else Return (OK, concat (packet_fields d) @ drop (GetByteSize (packet d)) bytes)) \<and>
   length (concat (packet_fields d)) = GetByteSize (packet d) \<and>
   ToBytes_vector [] d = Return (OK, concat (packet_fields d))"
  by (simp add: ToBytes_buffer_eq ToBytes_vector_def length_packet_fields Let_def)

section \<open>Reading what was written\<close>

text \<open>The packets the format can carry: sizes that fit the \<open>int\<close> fields, one-byte media and side data types,
  distinct side data types.\<close>

definition transmissible :: "net_data \<Rightarrow> bool" where
  "transmissible d \<longleftrightarrow>
     (let p = packet d in
      GetByteSize p < 2 ^ 31 - 65 \<and>
      uint (media d) < 256 \<and> (\<forall>sd \<in> set (side_datas p). uint (sd_type sd) < 256) \<and>
      distinct (map sd_type (side_datas p)))"

text \<open>The value that \<open>bytes::from<int64_t>\<close> gives for a 64-bit number that was written, and the packet with its
  timestamps read so: \<open>pos\<close> gets the duration, because both are read at the same offset.\<close>

definition as_read_i64 :: "wide_shl \<Rightarrow> cint64 \<Rightarrow> cint64" where
  "as_read_i64 wide v = from_int wide (to_signed v)"

definition as_read :: "wide_shl \<Rightarrow> net_data \<Rightarrow> net_data" where
  "as_read wide d =
     (let p = packet d; dur = as_read_i64 wide (duration p) in
      d\<lparr>packet := p\<lparr>pts := as_read_i64 wide (pts p), dts := as_read_i64 wide (dts p), duration := dur, pkt_pos := dur\<rparr>\<rparr>)"

lemma as_read_simps [simp]:
  "media (as_read wide d) = media d" "flags (packet (as_read wide d)) = flags (packet d)"
  "pkt_data (packet (as_read wide d)) = pkt_data (packet d)" "stream_index (packet (as_read wide d)) = stream_index (packet d)"
  by (simp_all add: as_read_def Let_def)

lemma as_read_faithful: "i64_faithful wide v \<Longrightarrow> as_read_i64 wide v = v"
  by (simp add: as_read_i64_def from_to_i64)

lemma fetch_i64: "left_at bs pos (to_signed (v :: cint64) @ rest) \<Longrightarrow>
    fetch (from_int wide) 8 bs pos = Return (as_read_i64 wide v)"
  using left_at_read [of bs pos "to_signed v" rest] by (simp add: fetch_def as_read_i64_def length_scalars)

lemma fetch_at_id: "left_at bs pos (xs @ rest) \<Longrightarrow> length xs = n \<Longrightarrow> fetch id n bs pos = Return xs"
  using left_at_read [of bs pos xs rest] by (simp add: fetch_def)

lemma byte_sized: "uint (v :: cint) < 256 \<Longrightarrow> ucast (ucast v :: byte) = v"
  by (simp add: word_uint_eq_iff unsigned_ucast_eq unsigned_take_bit_eq take_bit_int_eq_self)

lemma small_sizes:
  assumes "n < 2 ^ 31"
  shows "size_t_of_int (of_nat n) = n" and "nat (sint (of_nat n :: cint)) = n"
proof -
  have s: "sint (of_nat n :: cint) = int n"
    using assms sint_sbintrunc' [of "int n", where 'a = 32] by (simp add: signed_take_bit_int_eq_self)
  then show "nat (sint (of_nat n :: cint)) = n" by simp
  have "scast (of_nat n :: cint) = (of_nat n :: 64 word)"
    by (simp add: scast_eq s)
  then show "size_t_of_int (of_nat n) = n"
    using assms by (simp add: size_t_of_int_def unsigned_of_nat take_bit_nat_eq_self)
qed

lemma av_contractD:
  assumes "av_contract av"
  shows "n < 2 ^ 31 - 65 \<Longrightarrow> av_malloc_ok av n"
    and "length xs < 2 ^ 31 - 65 \<Longrightarrow> packet_from_data av p xs = p\<lparr>pkt_data := xs\<rparr>"
    and "sd_type sd \<notin> sd_type ` set (side_datas p) \<Longrightarrow>
      packet_add_side_data av p sd = p\<lparr>side_datas := side_datas p @ [sd]\<rparr>"
  using assms by (simp_all add: av_contract_def)

lemma read_side_data_encoded:
  assumes av: "av_contract av"
    and at: "left_at bs pos (concat (side_data_fields sd) @ rest)"
    and sd: "uint (sd_type sd) < 256" "length (sd_data sd) < 2 ^ 31 - 65"
    and new: "sd_type sd \<notin> sd_type ` set (side_datas p)"
  shows "read_side_data av wide bs (p, pos) =
      Return (p\<lparr>side_datas := side_datas p @ [sd]\<rparr>, pos + (5 + length (sd_data sd)), True)"
proof -
  let ?n = "length (sd_data sd)"
  have t: "left_at bs pos (to_byte (ucast (sd_type sd)) @
      (to_signed (of_nat ?n :: cint) @ (sd_data sd @ rest)))"
    using at by (simp add: side_data_fields_def toc_byte_def)
  note n = u8.next_at [OF t]
  note x = i32.next_at [OF n]
  have "size_t_of_int (of_nat ?n) = ?n" using sd(2) by (intro small_sizes) simp
  moreover have "\<lparr>sd_type = ucast (ucast (sd_type sd) :: byte), sd_data = sd_data sd\<rparr> = sd"
    by (simp add: byte_sized [OF sd(1)])
  ultimately show ?thesis
    using u8.fetch_at [OF t] i32.fetch_at [OF n, of wide] fetch_at_id [OF x refl]
      av_contractD(1) [OF av sd(2)] av_contractD(3) [OF av new]
    by (simp add: read_side_data_def ac_simps)
qed

lemma read_side_datas_encoded:
  assumes "av_contract av"
  shows "left_at bs pos (concat (concat (map side_data_fields sds)) @ rest) \<Longrightarrow>
    \<forall>sd \<in> set sds. uint (sd_type sd) < 256 \<and> length (sd_data sd) < 2 ^ 31 - 65 \<Longrightarrow>
    distinct (map sd_type (side_datas p @ sds)) \<Longrightarrow>
    read_side_datas av wide bs (length sds) (p, pos) =
      Return (p\<lparr>side_datas := side_datas p @ sds\<rparr>,
        pos + length (concat (concat (map side_data_fields sds))), True)"
proof (induction sds arbitrary: p pos)
  case (Cons sd sds)
  let ?pos = "pos + (5 + length (sd_data sd))"
  let ?p = "p\<lparr>side_datas := side_datas p @ [sd]\<rparr>"
  have at: "left_at bs pos (concat (side_data_fields sd) @ (concat (concat (map side_data_fields sds)) @ rest))"
    using Cons.prems(1) by simp
  have step: "read_side_data av wide bs (p, pos) = Return (?p, ?pos, True)"
    using Cons.prems(2,3) by (intro read_side_data_encoded [OF assms at]) auto
  have "left_at bs ?pos (concat (concat (map side_data_fields sds)) @ rest)"
    using left_at_next [OF at] by (simp add: length_side_data_fields)
  moreover have "distinct (map sd_type (side_datas ?p @ sds))" using Cons.prems(3) by auto
  ultimately have "read_side_datas av wide bs (length sds) (?p, ?pos) =
      Return (?p\<lparr>side_datas := side_datas ?p @ sds\<rparr>,
        ?pos + length (concat (concat (map side_data_fields sds))), True)"
    using Cons.prems(2) by (intro Cons.IH) auto
  with step show ?case by (simp add: length_side_data_fields)
qed simp

lemma side_sizes:
  "sd \<in> set sds \<Longrightarrow> 5 + length (sd_data sd) \<le> length (concat (concat (map side_data_fields sds)))"
  "5 * length sds \<le> length (concat (concat (map side_data_fields sds)))"
  by (induction sds) (auto simp: length_side_data_fields)

text \<open>What the reader makes of a packet.\<close>

lemma FromBytes_encoded:
  assumes av: "av_contract av" and tr: "transmissible d"
  shows "FromBytes av wide (concat (packet_fields d) @ trailing) Data = Return (OK, as_read wide d)"
proof -
  define p where "p = packet d"
  define bs where "bs = concat (packet_fields d) @ trailing"
  let ?sides = "concat (concat (map side_data_fields (side_datas p)))"
  let ?n = "length (pkt_data p)" and ?k = "length (side_datas p)"
  define r8 where "r8 = to_signed (duration p) @ (to_signed (pkt_pos p) @ trailing)"
  define r7 where "r7 = to_signed (of_nat ?k :: cint) @ (?sides @ r8)"
  define r5 where "r5 = to_signed (stream_index p) @ (to_signed (flags p) @ r7)"
  define r4 where "r4 = to_signed (of_nat ?n :: cint) @ (pkt_data p @ r5)"
  define r2 where "r2 = to_signed (pts p) @ (to_signed (dts p) @ r4)"
  note rs = r2_def r4_def r5_def r7_def r8_def
  have size: "GetByteSize p = 55 + ?n + length ?sides"
    by (simp add: GetByteSize_def foldl_side_size)
  let ?pts = "as_read_i64 wide (pts p)" and ?dts = "as_read_i64 wide (dts p)" and ?dur = "as_read_i64 wide (duration p)"
  have lim: "GetByteSize p < 2 ^ 31 - 65"
    using tr by (simp_all add: transmissible_def p_def Let_def)
  have "left_at bs 2 (to_byte (ucast (media d)) @ (to_unsigned (of_nat (GetByteSize p) :: uint32) @ r2))"
    by (simp add: bs_def packet_fields_def Let_def toc_byte_def to_byte_def rs p_def left_at_def)
  note a2 = this and a3 = u8.next_at [OF this]
  note a7 = u32.next_at [OF a3, unfolded r2_def]
  note a15 = i64.next_at [OF a7]
  note a23 = i64.next_at [OF a15, unfolded r4_def]
  note a27 = i32.next_at [OF a23]
  note b0 = left_at_next [OF a27, unfolded r5_def]
  note b4 = i32.next_at [OF b0]
  note b8 = i32.next_at [OF b4, unfolded r7_def]
  note b12 = i32.next_at [OF b8]
  note c = left_at_next [OF b12, unfolded r8_def]
  have len: "GetByteSize p \<le> length bs" by (simp add: bs_def length_packet_fields p_def)
  have small: "?n < 2 ^ 31 - 65" "?k < 2 ^ 31"
    using lim size side_sizes(2) [of "side_datas p"] by simp_all
  have unat: "unat (of_nat (GetByteSize p) :: uint32) = GetByteSize p"
    using lim by (simp add: unsigned_of_nat take_bit_nat_eq_self)
  have "read_side_datas av wide bs ?k ((av_packet_alloc\<lparr>pts := ?pts, dts := ?dts, pkt_data := pkt_data p,
      stream_index := stream_index p, flags := flags p\<rparr>), 7 + 20 + ?n + 12) =
    Return (p\<lparr>pts := ?pts, dts := ?dts, duration := 0, pkt_pos := -1\<rparr>, 7 + 20 + ?n + 12 + length ?sides, True)"
    using tr lim size side_sizes(1) b12
    by (subst read_side_datas_encoded [OF av, where rest = r8])
       (auto simp: transmissible_def Let_def p_def av_packet_alloc_def r8_def ac_simps dest!: side_sizes(1))
  moreover have "fetch (from_int wide) 4 bs 3 = Return (of_nat (GetByteSize p) :: uint32)"
    using u32.fetch_at [OF a3, of wide] by (simp only: one_add_one [symmetric] numeral_3_eq_3) simp
  moreover have "packet Data = av_packet_alloc" "Data\<lparr>media := media d, packet := q\<rparr> = d\<lparr>packet := q\<rparr>" for q
    by (simp_all add: Data_def p_def)
  moreover have "ucast (ucast (media d) :: byte) = media d"
    using tr by (intro byte_sized) (simp add: transmissible_def Let_def)
  moreover have "as_read wide d = d\<lparr>packet := p\<lparr>pts := ?pts, dts := ?dts, duration := ?dur, pkt_pos := ?dur\<rparr>\<rparr>"
    by (simp add: as_read_def p_def Let_def)
  ultimately show ?thesis
    unfolding bs_def [symmetric] p_def [symmetric]
    using u8.fetch_at [OF a2] fetch_i64 [OF a7, of wide]
      fetch_i64 [OF a15, of wide] i32.fetch_at [OF a23, of wide] fetch_at_id [OF a27 refl]
      i32.fetch_at [OF b0, of wide] i32.fetch_at [OF b4, of wide] i32.fetch_at [OF b8, of wide]
      fetch_i64 [OF c, of wide] len size small unat small_sizes [of ?n] small_sizes [of ?k]
      av_contractD(1,2) [OF av]
    by (simp add: FromBytes_def Let_def ac_simps)
qed

section \<open>Properties of the reader\<close>

lemma as_read_same:
  "as_read wide d = d \<longleftrightarrow> (let p = packet d in as_read_i64 wide (pts p) = pts p \<and> as_read_i64 wide (dts p) = dts p \<and>
     as_read_i64 wide (duration p) = duration p \<and> pkt_pos p = duration p)"
  by (cases d; cases "packet d") (auto simp: as_read_def Let_def)

text \<open>The timestamps that survive where shift counts are taken modulo 32, as on x86-64 and WebAssembly.\<close>

definition survives :: "cint64 \<Rightarrow> bool" where
  "survives v \<longleftrightarrow> v = -1 \<or> (0 \<le> sint v \<and> sint v < 2 ^ 31)"

lemma as_read_survives: "as_read_i64 masked_shl v = v \<longleftrightarrow> survives v"
  unfolding as_read_i64_def survives_def by (rule int64_roundtrip_iff)

text \<open>C5. Round trip.  For a packet the format can carry (a size below \<open>INT_MAX\<close> and the padding, one-byte types,
  distinct side data types), what \<open>ToBytes\<close> wrote, followed by any bytes, reads back with status \<open>OK\<close> and every
  field unchanged but the 64-bit ones: \<open>pts\<close>, \<open>dts\<close> and \<open>duration\<close> become what \<open>bytes::from<int64_t>\<close> makes of them,
  and \<open>pos\<close> becomes the duration, read at the same offset.  On x86-64 and WebAssembly the packet survives exactly
  if its \<open>pos\<close> equals its duration and each timestamp is -1 or lies in 0 to 2^31 - 1; timestamps in that range
  survive on every target that shifts 0 to 0.\<close>

theorem FromBytes_ToBytes:
  assumes "av_contract av" and "transmissible d"
    and "ToBytes_vector [] d = Return (OK, bytes)"
  shows "FromBytes av wide (bytes @ trailing) Data = Return (OK, as_read wide d) \<and>
    (FromBytes av masked_shl (bytes @ trailing) Data = Return (OK, d) \<longleftrightarrow>
      survives (pts (packet d)) \<and> survives (dts (packet d)) \<and> survives (duration (packet d)) \<and>
      pkt_pos (packet d) = duration (packet d)) \<and>
    (i64_faithful wide (pts (packet d)) \<and> i64_faithful wide (dts (packet d)) \<and> i64_faithful wide (duration (packet d)) \<longrightarrow>
      as_read wide d = d\<lparr>packet := (packet d)\<lparr>pkt_pos := duration (packet d)\<rparr>\<rparr>)"
proof -
  have bytes: "bytes = concat (packet_fields d)" using assms(3) by (simp add: ToBytes_vector_eq)
  have "as_read wide d = d\<lparr>packet := (packet d)\<lparr>pkt_pos := duration (packet d)\<rparr>\<rparr>"
    if "i64_faithful wide (pts (packet d))" "i64_faithful wide (dts (packet d))" "i64_faithful wide (duration (packet d))"
    using that by (simp add: as_read_def as_read_faithful Let_def)
  then show ?thesis
    using FromBytes_encoded [OF assms(1,2)] as_read_same [of masked_shl d]
    by (simp add: bytes as_read_survives Let_def)
qed

text \<open>An FFmpeg that keeps the contract, and a key frame with one piece of side data.\<close>

definition av_reference :: av_api where
  "av_reference = \<lparr>av_malloc_ok = (\<lambda>n. n < 2 ^ 31 - 33),
     packet_from_data = (\<lambda>p xs. if length xs < 2 ^ 31 - 65 then p\<lparr>pkt_data := xs\<rparr> else p),
     packet_add_side_data = (\<lambda>p sd. p\<lparr>side_datas :=
       filter (\<lambda>s. sd_type s \<noteq> sd_type sd) (side_datas p) @ [sd]\<rparr>)\<rparr>"

lemma av_reference_contract: "av_contract av_reference"
proof -
  have "filter (\<lambda>s. sd_type s \<noteq> sd_type sd) (side_datas p) = side_datas p"
    if "sd_type sd \<notin> sd_type ` set (side_datas p)" for sd :: side_data and p :: av_packet
    using that by (intro filter_True ballI) (metis image_eqI)
  then show ?thesis by (simp add: av_contract_def av_reference_def)
qed

definition sample_data :: net_data where
  "sample_data = \<lparr>media = 0, packet = \<lparr>pts = 90000, dts = 89000, pkt_data = [0, 0, 0, 1, 0x65],
     stream_index = 0, flags = AV_PKT_FLAG_KEY, side_datas = [\<lparr>sd_type = 1, sd_data = [7, 8]\<rparr>],
     duration = 3000, pkt_pos = 3000\<rparr>\<rparr>"

lemma sample_transmissible: "transmissible sample_data"
  by (simp add: transmissible_def sample_data_def GetByteSize_def)

theorem FromBytes_ToBytes_witness:
  "FromBytes av_reference masked_shl (concat (packet_fields sample_data)) Data = Return (OK, sample_data)"
proof -
  have s: "survives (pts (packet sample_data))" "survives (dts (packet sample_data))" "survives (duration (packet sample_data))"
    "pkt_pos (packet sample_data) = duration (packet sample_data)"
    "ToBytes_vector [] sample_data = Return (OK, concat (packet_fields sample_data))"
    by (simp_all add: sample_data_def survives_def ToBytes_vector_eq)
  note FromBytes_ToBytes [OF av_reference_contract sample_transmissible s(5), of masked_shl "[]", unfolded append_Nil2]
  from this [THEN conjunct2, THEN conjunct1] s(1-4) show ?thesis by blast
qed

text \<open>A truncated message is always rejected: no proper prefix of a serialised packet is
  taken for a packet, and reading one never leaves the buffer.\<close>

lemma FromBytes_truncated:
  assumes "GetByteSize (packet d) < 2 ^ 32" and "n < GetByteSize (packet d)"
  shows "\<exists>d'. FromBytes av wide (take n (concat (packet_fields d))) d0 = Return (ERROR_NOT_ENOUGH, d')"
proof (cases "n < 7")
  case True
  then have "length (take n (concat (packet_fields d))) < 7" by simp
  then show ?thesis by (simp add: FromBytes_def del: length_take)
next
  case False
  let ?size = "to_unsigned (of_nat (GetByteSize (packet d)) :: uint32)"
  let ?bs = "take n (concat (packet_fields d))"
  obtain rest where bs: "?bs = (to_byte ver_major @ to_byte ver_minor @ to_byte (ucast (media d))) @ ?size @ rest"
  proof -
    obtain rest where "concat (packet_fields d) =
        (to_byte ver_major @ to_byte ver_minor @ to_byte (ucast (media d)) @ ?size) @ rest"
      by (simp add: packet_fields_def Let_def toc_byte_def)
    moreover have "length (to_byte ver_major @ to_byte ver_minor @ to_byte (ucast (media d)) @ ?size) \<le> n"
      using False by (simp add: to_byte_def length_scalars)
    ultimately show ?thesis using that by (simp add: take_append)
  qed
  have len: "length ?bs = n" using assms(2) by (simp add: length_packet_fields)
  have "fetch (from_int wide) 4 ?bs 3 = Return (of_nat (GetByteSize (packet d)) :: uint32)"
    unfolding bs by (rule u32.fetch_put) (simp_all add: to_byte_def)
  moreover have "\<exists>x. fetch from_byte 1 ?bs 2 = Return x"
    using False len by (auto simp: fetch_def read_at_def)
  moreover have "unat (of_nat (GetByteSize (packet d)) :: uint32) = GetByteSize (packet d)"
    using assms(1) by (simp add: unsigned_of_nat take_bit_nat_eq_self)
  ultimately show ?thesis
    using False len assms(2) by (auto simp: FromBytes_def Let_def simp del: length_take)
qed

text \<open>C39. The size check covers the declared size only: a message of 7 to 26 bytes that declares
  no more than its length passes it and is then read past its end.\<close>

theorem FromBytes_short_message_out_of_bounds:
  assumes "7 \<le> length bytes" and "length bytes < 27"
    and "unat (from_int wide (take 4 (drop 3 bytes)) :: uint32) \<le> length bytes"
  shows "FromBytes av wide bytes d = OutOfBounds"
proof -
  have "fetch (from_int wide) 4 bytes 3 = Return (from_int wide (take 4 (drop 3 bytes)) :: uint32)"
    using assms(1) by (simp add: fetch_def read_at_def)
  moreover have "\<exists>x. fetch from_byte 1 bytes 2 = Return x"
    using assms(1) by (auto simp: fetch_def read_at_def)
  moreover have "fetch (from_int wide) 4 bytes 23 = (OutOfBounds :: cint outcome)"
    using assms(2) by (simp add: fetch_def read_at_def)
  moreover have "fetch (from_int wide) 8 bytes pos = (OutOfBounds :: cint64 outcome) \<or>
      (\<exists>x. fetch (from_int wide) 8 bytes pos = Return (x :: cint64))" for pos
    by (simp add: fetch_def read_at_def)
  note this [of 7] this [of 15]
  ultimately show ?thesis
    using assms(1,3) by (auto simp: FromBytes_def Let_def)
qed

theorem FromBytes_short_message_witness:
  "FromBytes av_reference masked_shl [1, 0, 0, 0, 0, 0, 7] Data = OutOfBounds"
  by (rule FromBytes_short_message_out_of_bounds) code_simp+

end
