(* ===== verification/Decoder.thy ===== *)
theory Decoder imports Packet begin

text \<open>
  \<open>ws-wasm-player/src/decoder.h\<close>: the decoder behind the page's \<open>Module.Decoder\<close>.  A message is
  parsed by \<open>net::Data::FromBytes\<close> (theory \<open>Packet\<close>), passes the key-frame gate, and its packet goes
  to the stream's operation, whose FFmpeg codec is the parameter \<open>codec\<close>.  Synchronous decoding is a
  function; asynchronous decoding shares a queue with a worker thread and is a step relation that
  interleaves the sections each thread runs under the mutex.
\<close>

section \<open>State\<close>

definition AVMEDIA_TYPE_VIDEO :: cint where "AVMEDIA_TYPE_VIDEO = 0"

text \<open>FFmpeg's enumerators, as far as the code names them.\<close>

datatype pix_fmt = AV_PIX_FMT_NONE | AV_PIX_FMT_YUV420P | AV_PIX_FMT_YUVJ420P | OtherPixFmt int

datatype color_range = AVCOL_RANGE_JPEG | OtherRange int

record video_options =
  dec_name :: string
  dec_thread_count :: int
  dec_thread_type :: int
  sws_enable :: bool
  sws_dst_pix_fmt :: pix_fmt

record codecpar =
  format :: pix_fmt
  par_color_range :: color_range

text \<open>What \<open>GetFrame\<close> gives for the last packet of a history: a frame, a null frame, or a
  thrown \<open>StreamError\<close>.\<close>

datatype frame_result = GotFrame nat | NoFrame | StreamErr

record config =
  av :: av_api
  wide :: wide_shl
  codec :: "net_data list \<Rightarrow> frame_result"

datatype time_event = Beg | End

datatype worker =
    NoThread
  | AtLoop                          \<comment> \<open>about to test \<open>while (!decode_stop_)\<close>\<close>
  | Waiting                         \<comment> \<open>in \<open>decode_cond_.wait\<close>\<close>
  | Batch "net_data option list"    \<comment> \<open>the rest of \<open>datas\<close>\<close>
  | Exited

record decoder =
  stream_ops :: "cint \<rightharpoonup> video_options"
  has_cb :: bool
  from_key_frame :: bool
  decode_stop :: bool
  datas_maxsize :: nat
  datas :: "net_data option list"   \<comment> \<open>\<open>None\<close> is the null pointer \<open>ThreadStop\<close> pushes\<close>
  results :: "nat list"
  worker :: worker
  flushing :: bool                  \<comment> \<open>inside \<open>DecodeAsync\<close>, after the queue's section\<close>
  fed :: "net_data list"            \<comment> \<open>packets given to \<open>GetFrame\<close>, in order\<close>
  called_back :: "nat list"         \<comment> \<open>frames given to the callback, in order\<close>
  times :: "time_event list"

definition Decoder :: decoder where
  "Decoder = \<lparr>stream_ops = Map.empty, has_cb = False, from_key_frame = False, decode_stop = True,
     datas_maxsize = 2, datas = [], results = [], worker = NoThread, flushing = False,
     fed = [], called_back = [], times = []\<rparr>"

section \<open>Open\<close>

definition dst_pix_fmt :: "codecpar \<Rightarrow> pix_fmt" where
  "dst_pix_fmt par =
     (if format par = AV_PIX_FMT_YUVJ420P \<or>
         (format par = AV_PIX_FMT_YUV420P \<and> par_color_range par = AVCOL_RANGE_JPEG)
      then AV_PIX_FMT_YUVJ420P else AV_PIX_FMT_YUV420P)"

fun open_subs :: "int \<Rightarrow> int \<Rightarrow> (cint \<times> codecpar) list \<Rightarrow> (cint \<rightharpoonup> video_options) \<Rightarrow> (cint \<rightharpoonup> video_options)" where
  "open_subs count type [] ops = ops"
| "open_subs count type ((t, par) # subs) ops =
     open_subs count type subs
       (if t = AVMEDIA_TYPE_VIDEO then
          ops(t \<mapsto> \<lparr>dec_name = [], dec_thread_count = count, dec_thread_type = type,
                   sws_enable = True, sws_dst_pix_fmt = dst_pix_fmt par\<rparr>)
        else ops)"

definition Open :: "(cint \<times> codecpar) list \<Rightarrow> int \<Rightarrow> int \<Rightarrow> int \<Rightarrow> bool \<Rightarrow> decoder \<Rightarrow> decoder" where
  "Open subs queue_size thread_count thread_type lambda d =
     d\<lparr>datas_maxsize := (if 2 \<le> queue_size then nat queue_size else datas_maxsize d),
       has_cb := lambda,
       stream_ops := open_subs thread_count thread_type subs (stream_ops d)\<rparr>"

section \<open>Synchronous decoding\<close>

definition is_key :: "net_data \<Rightarrow> bool" where
  "is_key data \<longleftrightarrow> flags (packet data) AND AV_PKT_FLAG_KEY \<noteq> 0"

text \<open>The gate: a packet passes once a key packet has been seen.\<close>

definition passes :: "decoder \<Rightarrow> net_data \<Rightarrow> bool" where
  "passes d data \<longleftrightarrow> from_key_frame d \<or> is_key data"

definition callback :: "nat list \<Rightarrow> decoder \<Rightarrow> decoder" where
  "callback fs d = (if has_cb d then d\<lparr>called_back := called_back d @ fs\<rparr> else d)"

text \<open>\<open>op->GetFrame(packet)\<close>; \<open>stream_ops_[type]\<close> of an unknown type is a null pointer.\<close>

definition get_frame :: "config \<Rightarrow> net_data \<Rightarrow> decoder \<Rightarrow> (frame_result \<times> decoder) outcome" where
  "get_frame cfg data d =
     (let d = d\<lparr>times := times d @ [Beg]\<rparr> in
      case stream_ops d (media data) of
        None \<Rightarrow> OutOfBounds
      | Some op \<Rightarrow>
          let d = d\<lparr>fed := fed d @ [data]\<rparr>; r = codec cfg (fed d) in
          Return (r, case r of GotFrame f \<Rightarrow> d\<lparr>times := times d @ [End]\<rparr> | _ \<Rightarrow> d))"

definition Decode :: "config \<Rightarrow> byte list \<Rightarrow> decoder \<Rightarrow> (nat option \<times> decoder) outcome" where
  "Decode cfg buf d =
     bind_outcome (FromBytes (av cfg) (wide cfg) buf Data) (\<lambda>(st, data).
     if \<not> passes d data then Return (None, d)
     else bind_outcome (get_frame cfg data (d\<lparr>from_key_frame := True\<rparr>)) (\<lambda>(r, d).
       case r of
         GotFrame f \<Rightarrow> Return (Some f, callback [f] d)
       | NoFrame \<Rightarrow> Return (None, d)
       | StreamErr \<Rightarrow> Return (None, d)))"

fun Decode_all :: "config \<Rightarrow> byte list list \<Rightarrow> decoder \<Rightarrow> (nat option list \<times> decoder) outcome" where
  "Decode_all cfg [] d = Return ([], d)"
| "Decode_all cfg (b # bs) d =
     bind_outcome (Decode cfg b d) (\<lambda>(f, d). bind_outcome (Decode_all cfg bs d) (\<lambda>(fs, d). Return (f # fs, d)))"

section \<open>Asynchronous decoding\<close>

definition ThreadStart :: "decoder \<Rightarrow> decoder" where
  "ThreadStart d = (if \<not> decode_stop d then d else d\<lparr>decode_stop := False, worker := AtLoop\<rparr>)"

text \<open>The eviction loop: the first packet that is not a key packet is erased.\<close>

definition not_key :: "net_data option \<Rightarrow> bool" where
  "not_key x \<longleftrightarrow> (case x of None \<Rightarrow> False | Some data \<Rightarrow> \<not> is_key data)"

definition push_data :: "nat \<Rightarrow> net_data \<Rightarrow> net_data option list \<Rightarrow> net_data option list" where
  "push_data maxsize data q =
     (let q = q @ [Some data] in if maxsize < length q then erase_first not_key q else q)"

text \<open>\<open>DecodeAsync\<close> up to the end of the queue's section; a rejected packet returns at once.\<close>

definition DecodeAsync_enqueue :: "config \<Rightarrow> byte list \<Rightarrow> decoder \<Rightarrow> decoder outcome" where
  "DecodeAsync_enqueue cfg buf d =
     (let d = ThreadStart d in
      bind_outcome (FromBytes (av cfg) (wide cfg) buf Data) (\<lambda>(st, data).
      if \<not> passes d data then Return d
      else Return (d\<lparr>from_key_frame := True, datas := push_data (datas_maxsize d) data (datas d),
                     flushing := True\<rparr>)))"

definition DecodeAsync_flush :: "decoder \<Rightarrow> decoder" where
  "DecodeAsync_flush d =
     (let d' = d\<lparr>flushing := False\<rparr> in
      if results d = [] then d' else (callback (results d) d')\<lparr>results := []\<rparr>)"

text \<open>\<open>ThreadStop\<close>: the flag first, then the null pointer under the mutex; the join is the
  worker's \<open>Exited\<close>.\<close>

definition ThreadStop_flag :: "decoder \<Rightarrow> decoder" where
  "ThreadStop_flag d = d\<lparr>decode_stop := True\<rparr>"

definition ThreadStop_push :: "decoder \<Rightarrow> decoder" where
  "ThreadStop_push d = d\<lparr>datas := datas d @ [None]\<rparr>"

text \<open>One step of \<open>ThreadRun\<close>; no result while it waits.\<close>

definition ThreadRun_step :: "config \<Rightarrow> decoder \<Rightarrow> decoder outcome option" where
  "ThreadRun_step cfg d =
     (case worker d of
        NoThread \<Rightarrow> None
      | Exited \<Rightarrow> None
      | AtLoop \<Rightarrow> Some (Return (d\<lparr>worker := (if decode_stop d then Exited else Waiting)\<rparr>))
      | Waiting \<Rightarrow>
          if datas d = [] then None
          else Some (Return (d\<lparr>datas := [], worker := (if decode_stop d then Exited else Batch (datas d))\<rparr>))
      | Batch [] \<Rightarrow> Some (Return (d\<lparr>worker := AtLoop\<rparr>))
      | Batch (x # rest) \<Rightarrow>
          if decode_stop d then Some (Return (d\<lparr>worker := AtLoop\<rparr>))
          else (case x of
              None \<Rightarrow> Some OutOfBounds
            | Some data \<Rightarrow> Some (bind_outcome (get_frame cfg data d) (\<lambda>(r, d). Return
                (case r of
                   GotFrame f \<Rightarrow> d\<lparr>results := results d @ [f], worker := Batch rest\<rparr>
                 | NoFrame \<Rightarrow> d\<lparr>worker := AtLoop\<rparr>
                 | StreamErr \<Rightarrow> d\<lparr>worker := AtLoop\<rparr>)))))"

text \<open>The two threads interleaved.  \<open>phase\<close> is the main thread's place in \<open>ThreadStop\<close>.\<close>

datatype phase = Running | Flagged | Pushed

inductive dstep :: "config \<Rightarrow> phase \<times> decoder \<Rightarrow> phase \<times> decoder \<Rightarrow> bool" for cfg where
  enqueue: "\<not> flushing d \<Longrightarrow> DecodeAsync_enqueue cfg buf d = Return d' \<Longrightarrow> dstep cfg (Running, d) (Running, d')"
| flush: "flushing d \<Longrightarrow> dstep cfg (Running, d) (Running, DecodeAsync_flush d)"
| stop: "\<not> flushing d \<Longrightarrow> \<not> decode_stop d \<Longrightarrow> dstep cfg (Running, d) (Flagged, ThreadStop_flag d)"
| push: "dstep cfg (Flagged, d) (Pushed, ThreadStop_push d)"
| work: "ThreadRun_step cfg d = Some (Return d') \<Longrightarrow> dstep cfg (ph, d) (ph, d')"

inductive_cases dstepE: "dstep cfg (ph, d) s"

inductive dreach :: "config \<Rightarrow> decoder \<Rightarrow> phase \<times> decoder \<Rightarrow> bool" for cfg d0 where
  start: "dreach cfg d0 (Running, d0)"
| step: "dreach cfg d0 s \<Longrightarrow> dstep cfg s s' \<Longrightarrow> dreach cfg d0 s'"

section \<open>The invariant of the two threads\<close>

definition batch :: "decoder \<Rightarrow> net_data option list" where
  "batch d = (case worker d of Batch xs \<Rightarrow> xs | _ \<Rightarrow> [])"

fun somes :: "'a option list \<Rightarrow> 'a list" where
  "somes [] = []"
| "somes (None # xs) = somes xs"
| "somes (Some x # xs) = x # somes xs"

lemma somes_simps [simp]: "somes (xs @ ys) = somes xs @ somes ys" "somes (map Some zs) = zs"
  by (induction xs rule: somes.induct, auto) (induction zs, auto)

lemma somes_id: "None \<notin> set q \<Longrightarrow> map Some (somes q) = q"
  by (induction q rule: somes.induct) auto

text \<open>The packets accepted so far, in the order the codec gets them.\<close>

definition pending :: "decoder \<Rightarrow> net_data list" where
  "pending d = fed d @ somes (batch d @ datas d)"

definition key_first :: "net_data list \<Rightarrow> bool" where
  "key_first ps \<longleftrightarrow> (case ps of [] \<Rightarrow> True | data # _ \<Rightarrow> is_key data)"

text \<open>The frames the codec produces along a history.\<close>

fun outputs_from :: "config \<Rightarrow> net_data list \<Rightarrow> net_data list \<Rightarrow> nat list" where
  "outputs_from cfg h [] = []"
| "outputs_from cfg h (x # xs) =
     (case codec cfg (h @ [x]) of GotFrame f \<Rightarrow> [f] | _ \<Rightarrow> []) @ outputs_from cfg (h @ [x]) xs"

definition outputs :: "config \<Rightarrow> net_data list \<Rightarrow> nat list" where
  "outputs cfg h = outputs_from cfg [] h"

lemma outputs_from_append: "outputs_from cfg h (xs @ ys) = outputs_from cfg h xs @ outputs_from cfg (h @ xs) ys"
  by (induction xs arbitrary: h) auto

lemma outputs_snoc:
  "outputs cfg (h @ [x]) = outputs cfg h @ (case codec cfg (h @ [x]) of GotFrame f \<Rightarrow> [f] | _ \<Rightarrow> [])"
  by (simp add: outputs_def outputs_from_append)

lemma key_first_append: "key_first (xs @ ys) \<longleftrightarrow> (if xs = [] then key_first ys else key_first xs)"
  by (cases xs) (auto simp: key_first_def)

definition dinv :: "config \<Rightarrow> phase \<times> decoder \<Rightarrow> bool" where
  "dinv cfg s = (case s of (ph, d) \<Rightarrow>
     key_first (fed d) \<and>
     (ph = Running \<longrightarrow> key_first (pending d) \<and> (pending d \<noteq> [] \<longleftrightarrow> from_key_frame d) \<and>
        None \<notin> set (batch d @ datas d) \<and> (decode_stop d \<longrightarrow> worker d = NoThread)) \<and> (ph \<noteq> Running \<longrightarrow> decode_stop d) \<and>
     (length (somes (datas d)) \<le> datas_maxsize d \<or> list_all is_key (somes (datas d))) \<and>
     (has_cb d \<longrightarrow> called_back d @ results d = outputs cfg (fed d)) \<and>
     (ph = Pushed \<and> worker d = Waiting \<longrightarrow> datas d \<noteq> []))"

text \<open>What the eviction does to the queue.\<close>

lemma erase_first_map_Some: "erase_first not_key (map Some xs) = map Some (erase_first (\<lambda>x. \<not> is_key x) xs)"
  by (induction xs) (auto simp: not_key_def)

lemma key_first_erase: "key_first xs \<Longrightarrow> key_first (erase_first (\<lambda>x. \<not> is_key x) xs)"
  by (cases xs) (auto simp: key_first_def)

lemma push_data_Some:
  "push_data n data (map Some q) = map Some (if n < Suc (length q) then erase_first (\<lambda>x. \<not> is_key x) (q @ [data]) else q @ [data])"
  using erase_first_map_Some [of "q @ [data]"] by (simp add: push_data_def Let_def)

lemma push_bounded:
  assumes "length q \<le> n \<or> list_all is_key q"
  shows "let q' = (if n < Suc (length q) then erase_first (\<lambda>x. \<not> is_key x) (q @ [data]) else q @ [data])
    in length q' \<le> n \<or> list_all is_key q'"
proof (cases "list_all is_key (q @ [data])")
  case True
  then show ?thesis by (simp add: erase_first_none)
next
  case False
  then have ex: "list_ex (\<lambda>x. \<not> is_key x) (q @ [data])" by (auto simp: list_ex_iff list_all_iff)
  show ?thesis
  proof (cases "length q \<le> n")
    case True
    then show ?thesis using length_erase_first [OF ex] by auto
  next
    case False
    then have "list_all is_key q" using assms by simp
    moreover from this have "\<not> is_key data" using ex by (auto simp: list_ex_iff list_all_iff)
    ultimately have "erase_first (\<lambda>x. \<not> is_key x) (q @ [data]) = q"
      by (induction q) auto
    then show ?thesis using False \<open>list_all is_key q\<close> by simp
  qed
qed

lemma erase_key_first:
  assumes "key_first (xs @ q @ [data])"
  shows "key_first (xs @ erase_first (\<lambda>x. \<not> is_key x) (q @ [data]))"
  using assms key_first_erase [of "q @ [data]"] by (cases xs) (auto simp: key_first_def)

lemma ThreadStart_same:
  "fed (ThreadStart d) = fed d" "datas (ThreadStart d) = datas d" "datas_maxsize (ThreadStart d) = datas_maxsize d"
  "has_cb (ThreadStart d) = has_cb d" "called_back (ThreadStart d) = called_back d" "results (ThreadStart d) = results d"
  "from_key_frame (ThreadStart d) = from_key_frame d" "flushing (ThreadStart d) = flushing d"
  "stream_ops (ThreadStart d) = stream_ops d"
  by (simp_all add: ThreadStart_def)

lemma dinv_start: "dinv cfg (Running, d) \<Longrightarrow> dinv cfg (Running, ThreadStart d)"
  by (auto simp: dinv_def ThreadStart_def batch_def pending_def split: worker.splits)

lemma dinv_enqueued:
  assumes "dinv cfg (Running, d)" "passes d data"
  shows "dinv cfg (Running, d\<lparr>from_key_frame := True, datas := push_data (datas_maxsize d) data (datas d), flushing := True\<rparr>)"
proof -
  define q where "q = somes (datas d)"
  have "None \<notin> set (datas d)" using assms(1) by (simp add: dinv_def)
  then have datas: "datas d = map Some q" unfolding q_def by (rule somes_id [symmetric])
  define q' where "q' = (if datas_maxsize d < Suc (length q) then erase_first (\<lambda>x. \<not> is_key x) (q @ [data]) else q @ [data])"
  have push: "push_data (datas_maxsize d) data (datas d) = map Some q'"
    by (simp add: datas push_data_Some q'_def)
  have "key_first (pending d)" "pending d \<noteq> [] \<or> is_key data" "pending d = fed d @ somes (batch d) @ q"
    using assms by (auto simp: dinv_def pending_def datas passes_def)
  then have "key_first (fed d @ somes (batch d) @ q @ [data])"
    using key_first_append [of "pending d" "[data]"] by (auto simp: key_first_def split: if_splits)
  then have "key_first (fed d @ somes (batch d) @ q')"
    using erase_key_first [of "fed d @ somes (batch d)" q data] by (simp add: q'_def)
  moreover have "length q' \<le> datas_maxsize d \<or> list_all is_key q'"
    using push_bounded [of q "datas_maxsize d" data] assms(1) by (simp add: q'_def dinv_def datas Let_def)
  moreover have "q' \<noteq> [] \<or> fed d @ somes (batch d) \<noteq> []"
    using \<open>pending d \<noteq> [] \<or> is_key data\<close> \<open>key_first (pending d)\<close> \<open>pending d = fed d @ somes (batch d) @ q\<close>
    by (cases "fed d @ somes (batch d)"; cases q) (auto simp: q'_def key_first_def)
  ultimately show ?thesis
    using assms(1) by (simp add: dinv_def pending_def push [unfolded datas] batch_def datas) (blast | simp)
qed

lemma dinv_flush: "dinv cfg (Running, d) \<Longrightarrow> dinv cfg (Running, DecodeAsync_flush d)"
  by (auto simp: dinv_def DecodeAsync_flush_def callback_def Let_def pending_def batch_def)

lemma get_frame_cases:
  assumes "get_frame cfg data d = Return (r, d')"
  shows "r = codec cfg (fed d @ [data]) \<and> media data \<in> dom (stream_ops d) \<and>
    d' = d\<lparr>times := times d', fed := fed d @ [data]\<rparr>"
  using assms by (auto simp: get_frame_def Let_def split: option.splits frame_result.splits)

lemma get_frame_keeps:
  assumes "get_frame cfg data d = Return (r, d')"
  shows "stream_ops d' = stream_ops d" "has_cb d' = has_cb d" "datas_maxsize d' = datas_maxsize d"
  using assms by (auto simp: get_frame_def Let_def split: option.splits frame_result.splits)

lemma dinv_work:
  assumes "dinv cfg (ph, d)" "ThreadRun_step cfg d = Some (Return d')"
  shows "dinv cfg (ph, d')"
proof (cases "worker d")
  case (Batch xs)
  show ?thesis
  proof (cases xs)
    case Nil
    then show ?thesis using assms Batch by (auto simp: ThreadRun_step_def dinv_def pending_def batch_def)
  next
    case (Cons x rest)
    show ?thesis
    proof (cases "decode_stop d")
      case True
      then show ?thesis using assms Batch Cons
        by (cases x) (auto simp: ThreadRun_step_def dinv_def pending_def batch_def key_first_append split: if_splits)
    next
      case False
      then obtain data where x: "x = Some data"
        using assms(2) Batch Cons by (cases x) (auto simp: ThreadRun_step_def)
      then obtain r e where e: "get_frame cfg data d = Return (r, e)"
        using assms(2) Batch Cons False
        by (cases "get_frame cfg data d") (auto simp: ThreadRun_step_def)
      then have d': "d' = (case r of GotFrame f \<Rightarrow> e\<lparr>results := results e @ [f], worker := Batch rest\<rparr>
          | NoFrame \<Rightarrow> e\<lparr>worker := AtLoop\<rparr> | StreamErr \<Rightarrow> e\<lparr>worker := AtLoop\<rparr>)"
        using assms(2) Batch Cons False x by (simp add: ThreadRun_step_def)
      obtain ts where ed: "e = d\<lparr>times := ts, fed := fed d @ [data]\<rparr>" and cod: "codec cfg (fed d @ [data]) = r"
        using get_frame_cases [OF e] by blast
      have "ph = Running" using assms(1) False by (auto simp: dinv_def)
      then have key: "key_first (fed d @ data # ys)" for ys
        using assms(1) Batch Cons x by (cases "fed d") (auto simp: dinv_def pending_def batch_def key_first_def)
      from \<open>ph = Running\<close> show ?thesis using assms(1) False Batch Cons x cod
        unfolding d' ed by (cases r) (auto simp: dinv_def pending_def batch_def outputs_snoc key)
    qed
  qed
next
  case Waiting
  then have "datas d \<noteq> []" and d': "d' = d\<lparr>datas := [], worker := (if decode_stop d then Exited else Batch (datas d))\<rparr>"
    using assms(2) by (auto simp: ThreadRun_step_def split: if_splits)
  moreover have "ph = Running \<longrightarrow> \<not> decode_stop d" using assms(1) Waiting by (simp add: dinv_def)
  ultimately show ?thesis
    using assms(1) Waiting by (cases "decode_stop d") (auto simp: dinv_def pending_def batch_def)
next
  case AtLoop
  then have d': "d' = d\<lparr>worker := (if decode_stop d then Exited else Waiting)\<rparr>"
    using assms(2) by (simp add: ThreadRun_step_def)
  moreover have "ph = Running \<longrightarrow> \<not> decode_stop d" using assms(1) AtLoop by (simp add: dinv_def)
  ultimately show ?thesis
    using assms(1) AtLoop by (cases "decode_stop d") (auto simp: dinv_def pending_def batch_def)
qed (use assms(2) in \<open>simp_all add: ThreadRun_step_def\<close>)

lemma dinv_step:
  assumes "dinv cfg s" "dstep cfg s s'"
  shows "dinv cfg s'"
  using assms(2,1)
proof (cases rule: dstep.cases)
  case (enqueue d buf d')
  then obtain st data where fb: "FromBytes (av cfg) (wide cfg) buf Data = Return (st, data)"
      and d': "d' = (if \<not> passes (ThreadStart d) data then ThreadStart d
        else ThreadStart d\<lparr>from_key_frame := True,
          datas := push_data (datas_maxsize (ThreadStart d)) data (datas (ThreadStart d)), flushing := True\<rparr>)"
    by (auto simp: DecodeAsync_enqueue_def Let_def bind_outcome_eq_Return split: if_splits)
  have "dinv cfg (Running, ThreadStart d)" using enqueue assms(1) by (intro dinv_start) simp
  then show ?thesis using enqueue d' dinv_enqueued by auto
next
  case (flush d)
  then show ?thesis using assms(1) dinv_flush by auto
next
  case (stop d)
  then show ?thesis using assms(1) by (auto simp: dinv_def ThreadStop_flag_def pending_def batch_def)
next
  case (push d)
  then show ?thesis using assms(1) by (auto simp: dinv_def ThreadStop_push_def pending_def batch_def)
next
  case (work d d' ph)
  then show ?thesis using assms(1) dinv_work by auto
qed

lemma dinv_reach: "dreach cfg (Open subs q c t l Decoder) s \<Longrightarrow> dinv cfg s"
proof (induction rule: dreach.induct)
  case start
  then show ?case
    by (simp add: dinv_def Open_def Decoder_def pending_def batch_def key_first_def outputs_def)
next
  case (step s s')
  then show ?case by (rule_tac dinv_step)
qed

lemma ops_step:
  assumes "dstep cfg s s'"
  shows "stream_ops (snd s') = stream_ops (snd s) \<and> has_cb (snd s') = has_cb (snd s) \<and>
    datas_maxsize (snd s') = datas_maxsize (snd s)"
  using assms
proof (cases rule: dstep.cases)
  case (work d d' ph)
  then show ?thesis
    by (auto simp: ThreadRun_step_def split: worker.splits if_splits list.splits option.splits
        dest!: bind_outcome_eq_Return [THEN iffD1] dest: get_frame_keeps split: frame_result.splits)
qed (auto simp: DecodeAsync_enqueue_def DecodeAsync_flush_def callback_def ThreadStart_def ThreadStop_flag_def
    ThreadStop_push_def Let_def bind_outcome_eq_Return split: if_splits)

lemma ops_reach:
  "dreach cfg d0 s \<Longrightarrow> stream_ops (snd s) = stream_ops d0 \<and> has_cb (snd s) = has_cb d0 \<and> datas_maxsize (snd s) = datas_maxsize d0"
  by (induction rule: dreach.induct) (auto dest: ops_step)

section \<open>Synchronous decoding of a sequence of messages\<close>

fun parse_all :: "config \<Rightarrow> byte list list \<Rightarrow> net_data list outcome" where
  "parse_all cfg [] = Return []"
| "parse_all cfg (b # bs) =
     bind_outcome (FromBytes (av cfg) (wide cfg) b Data) (\<lambda>(st, data).
       bind_outcome (parse_all cfg bs) (\<lambda>ds. Return (data # ds)))"

lemma get_frame_known:
  assumes "media data \<in> dom (stream_ops d)"
  shows "\<exists>ts. get_frame cfg data d = Return (codec cfg (fed d @ [data]), d\<lparr>times := ts, fed := fed d @ [data]\<rparr>)"
proof -
  obtain r d' where r: "get_frame cfg data d = Return (r, d')"
    using assms by (auto simp: get_frame_def Let_def)
  then show ?thesis using get_frame_cases [OF r] by metis
qed

lemma Decode_passed:
  assumes "FromBytes (av cfg) (wide cfg) buf Data = Return (st, data)" "passes d data" "media data \<in> dom (stream_ops d)"
  shows "\<exists>ts f. Decode cfg buf d = Return (f, callback (case f of None \<Rightarrow> [] | Some x \<Rightarrow> [x])
      (d\<lparr>from_key_frame := True, times := ts, fed := fed d @ [data]\<rparr>)) \<and>
    outputs cfg (fed d @ [data]) = outputs cfg (fed d) @ (case f of None \<Rightarrow> [] | Some x \<Rightarrow> [x])"
proof -
  obtain ts where "get_frame cfg data (d\<lparr>from_key_frame := True\<rparr>) =
      Return (codec cfg (fed d @ [data]), d\<lparr>from_key_frame := True, times := ts, fed := fed d @ [data]\<rparr>)"
    using get_frame_known [of data "d\<lparr>from_key_frame := True\<rparr>" cfg] assms(3) by auto
  then show ?thesis
    using assms(1,2)
    by (cases "codec cfg (fed d @ [data])") (auto simp: Decode_def outputs_snoc callback_def)
qed

lemma Decode_result:
  assumes "FromBytes (av cfg) (wide cfg) buf Data = Return (st, data)" "passes d data" "media data \<in> dom (stream_ops d)"
  shows "\<exists>f d'. Decode cfg buf d = Return (f, d') \<and> fed d' = fed d @ [data] \<and>
    f = (case codec cfg (fed d') of GotFrame x \<Rightarrow> Some x | _ \<Rightarrow> None)"
proof -
  obtain ts where "get_frame cfg data (d\<lparr>from_key_frame := True\<rparr>) =
      Return (codec cfg (fed d @ [data]), d\<lparr>from_key_frame := True, times := ts, fed := fed d @ [data]\<rparr>)"
    using get_frame_known [of data "d\<lparr>from_key_frame := True\<rparr>" cfg] assms(3) by auto
  then show ?thesis
    using assms(1,2) by (cases "codec cfg (fed d @ [data])") (auto simp: Decode_def callback_def)
qed

definition frames_in :: "nat option list \<Rightarrow> nat list" where
  "frames_in fs = concat (map (\<lambda>f. case f of None \<Rightarrow> [] | Some x \<Rightarrow> [x]) fs)"

lemma Decode_all_fed:
  assumes "parse_all cfg bufs = Return ds" "list_all (\<lambda>data. media data \<in> dom (stream_ops d)) ds"
    and "called_back d = (if has_cb d then outputs cfg (fed d) else [])"
  shows "\<exists>fs d'. Decode_all cfg bufs d = Return (fs, d') \<and>
    fed d' = fed d @ (if from_key_frame d then ds else dropWhile (\<lambda>x. \<not> is_key x) ds) \<and>
    outputs cfg (fed d') = outputs cfg (fed d) @ frames_in fs \<and>
    called_back d' = (if has_cb d then outputs cfg (fed d') else [])"
  using assms
proof (induction bufs arbitrary: ds d)
  case Nil
  then show ?case by (simp add: frames_in_def)
next
  case (Cons b bufs)
  obtain st data ds' where fb: "FromBytes (av cfg) (wide cfg) b Data = Return (st, data)"
    and ds': "parse_all cfg bufs = Return ds'" and ds: "ds = data # ds'"
    using Cons.prems(1) by (auto simp: bind_outcome_eq_Return)
  have known: "media data \<in> dom (stream_ops d)" "list_all (\<lambda>data. media data \<in> dom (stream_ops d)) ds'"
    using Cons.prems(2) ds by auto
  show ?case
  proof (cases "passes d data")
    case False
    then have "Decode cfg b d = Return (None, d)" by (simp add: Decode_def fb)
    moreover have "\<not> from_key_frame d" "\<not> is_key data" using False by (auto simp: passes_def)
    moreover obtain fs d' where "Decode_all cfg bufs d = Return (fs, d')"
        "fed d' = fed d @ (if from_key_frame d then ds' else dropWhile (\<lambda>x. \<not> is_key x) ds')"
        "outputs cfg (fed d') = outputs cfg (fed d) @ frames_in fs"
        "called_back d' = (if has_cb d then outputs cfg (fed d') else [])"
      using Cons.IH [OF ds' known(2) Cons.prems(3)] by blast
    ultimately show ?thesis
      using ds by (intro exI [of _ "None # fs"] exI [of _ d']) (simp add: frames_in_def)
  next
    case True
    obtain ts f where d1: "Decode cfg b d = Return (f, callback (case f of None \<Rightarrow> [] | Some x \<Rightarrow> [x])
        (d\<lparr>from_key_frame := True, times := ts, fed := fed d @ [data]\<rparr>))"
      and out: "outputs cfg (fed d @ [data]) = outputs cfg (fed d) @ (case f of None \<Rightarrow> [] | Some x \<Rightarrow> [x])"
      using Decode_passed [OF fb True known(1)] by blast
    define e where "e = callback (case f of None \<Rightarrow> [] | Some x \<Rightarrow> [x])
        (d\<lparr>from_key_frame := True, times := ts, fed := fed d @ [data]\<rparr>)"
    have e: "stream_ops e = stream_ops d" "has_cb e = has_cb d" "fed e = fed d @ [data]" "from_key_frame e"
      "called_back e = (if has_cb e then outputs cfg (fed e) else [])"
      using Cons.prems(3) out by (auto simp: e_def callback_def)
    obtain fs d' where "Decode_all cfg bufs e = Return (fs, d')" "fed d' = fed e @ ds'"
        "outputs cfg (fed d') = outputs cfg (fed e) @ frames_in fs"
        "called_back d' = (if has_cb e then outputs cfg (fed d') else [])"
      using Cons.IH [OF ds', of e] known(2) e by auto
    then show ?thesis
      using d1 e ds out True unfolding e_def [symmetric]
      by (auto simp: frames_in_def passes_def)
  qed
qed

section \<open>Properties\<close>

text \<open>A codec that needs two packets before its first frame, and a decoder with a video stream.\<close>

definition sample_cfg :: config where
  "sample_cfg = \<lparr>av = av_reference, wide = masked_shl,
     codec = (\<lambda>h. if length h < 2 then NoFrame else GotFrame (length h))\<rparr>"

definition sample_decoder :: decoder where
  "sample_decoder = Open [(AVMEDIA_TYPE_VIDEO, \<lparr>format = AV_PIX_FMT_YUV420P, par_color_range = OtherRange 0\<rparr>)] 10 0 0 True Decoder"

definition sample_bytes :: "byte list" where
  "sample_bytes = concat (packet_fields sample_data)"

lemma sample_parse: "FromBytes av_reference masked_shl sample_bytes Data = Return (OK, sample_data)"
proof -
  have "as_read masked_shl sample_data = sample_data" by (simp add: as_read_same as_read_survives survives_def sample_data_def)
  then show ?thesis
    using FromBytes_encoded [OF av_reference_contract sample_transmissible, of masked_shl "[]"] by (simp add: sample_bytes_def)
qed

lemma sample_key: "is_key sample_data"
  by (simp add: is_key_def sample_data_def AV_PKT_FLAG_KEY_def)

text \<open>Runs of the worker alone.\<close>

fun ThreadRun_steps :: "config \<Rightarrow> nat \<Rightarrow> decoder \<Rightarrow> decoder" where
  "ThreadRun_steps cfg 0 d = d"
| "ThreadRun_steps cfg (Suc n) d =
     (case ThreadRun_step cfg d of Some (Return d') \<Rightarrow> ThreadRun_steps cfg n d' | _ \<Rightarrow> d)"

lemma dreach_work: "dreach cfg d0 (ph, d) \<Longrightarrow> dreach cfg d0 (ph, ThreadRun_steps cfg n d)"
  by (induction n arbitrary: d) (auto split: option.splits outcome.splits intro: dreach.step dstep.work)

text \<open>A key packet is enqueued and decoded by the worker; then the decoder is stopped.  \<open>sample_queued\<close>
  takes the decoder, so that it also serves one without a video stream.\<close>

definition sample_queued :: "decoder \<Rightarrow> decoder" where
  "sample_queued d = (ThreadStart d)\<lparr>from_key_frame := True, datas := [Some sample_data], flushing := True\<rparr>"

definition sample_running :: decoder where
  "sample_running = ThreadRun_steps sample_cfg 3 (sample_queued sample_decoder)"

definition sample_stopped :: decoder where
  "sample_stopped = ThreadStop_push (ThreadStop_flag (DecodeAsync_flush (sample_queued sample_decoder)))"

lemmas sample_defs = sample_decoder_def sample_queued_def Open_def Decoder_def DecodeAsync_enqueue_def sample_cfg_def
  sample_key passes_def push_data_def ThreadStart_def

lemma sample_enqueue:
  "d = sample_decoder \<or> d = Open [] 10 0 0 True Decoder \<Longrightarrow> dreach sample_cfg d (Running, sample_queued d)"
  by (rule dreach.step [OF dreach.start], rule dstep.enqueue [where buf = sample_bytes])
    (auto simp: sample_defs sample_parse)

lemma sample_running: "dreach sample_cfg sample_decoder (Running, sample_running)"
  unfolding sample_running_def by (intro dreach_work sample_enqueue) simp

lemma sample_stopped: "dreach sample_cfg sample_decoder (Pushed, sample_stopped)"
proof -
  have "dreach sample_cfg sample_decoder (Running, DecodeAsync_flush (sample_queued sample_decoder))"
    by (rule dreach.step [OF sample_enqueue], simp, rule dstep.flush) (simp add: sample_queued_def)
  then have "dreach sample_cfg sample_decoder (Flagged, ThreadStop_flag (DecodeAsync_flush (sample_queued sample_decoder)))"
    by (rule dreach.step, intro dstep.stop) (simp_all add: DecodeAsync_flush_def callback_def sample_defs Let_def)
  then show ?thesis unfolding sample_stopped_def by (rule dreach.step) (rule dstep.push)
qed

text \<open>C9.  Key-frame gate.  In every interleaving of the page's calls and the worker thread, the
  first packet the codec ever gets is a key packet: the gate rejects the others, and neither the
  eviction from the full queue nor a dropped batch can remove the first key packet before it is fed.\<close>

theorem codec_starts_at_a_key_packet:
  assumes "dreach cfg (Open subs queue_size count type lambda Decoder) (ph, d)"
  shows "fed d = [] \<or> is_key (hd (fed d))"
  using dinv_reach [OF assms] by (cases "fed d") (auto simp: dinv_def key_first_def)

theorem codec_starts_at_a_key_packet_witness:
  "fed sample_running = [] \<or> is_key (hd (fed sample_running))"
  by (rule codec_starts_at_a_key_packet [OF sample_running [unfolded sample_decoder_def]])

text \<open>C21.  Bounded queue.  After \<open>Open\<close> with \<open>queue_size\<close>, the packets waiting for the worker are at
  most that many (at most 2 when \<open>queue_size\<close> is below 2), unless all of them are key packets, which
  are never evicted.\<close>

theorem decode_queue_is_bounded:
  assumes "dreach cfg (Open subs queue_size count type lambda Decoder) (ph, d)"
  shows "length (somes (datas d)) \<le> (if 2 \<le> queue_size then nat queue_size else 2) \<or>
    list_all is_key (somes (datas d))"
  using dinv_reach [OF assms] ops_reach [OF assms] by (auto simp: dinv_def Open_def Decoder_def)

theorem decode_queue_is_bounded_witness:
  "length (somes (datas sample_running)) \<le> (if 2 \<le> (10 :: int) then nat 10 else 2) \<or>
    list_all is_key (somes (datas sample_running))"
  by (rule decode_queue_is_bounded [OF sample_running [unfolded sample_decoder_def]])

text \<open>C13.  Frames in order.  The frames given to the callback, followed by those still waiting in
  the results, are exactly the frames the codec produced from the packets it was fed, in that
  order: none is lost, doubled or reordered between the two threads.\<close>

theorem frames_reach_the_callback_in_order:
  assumes "dreach cfg (Open subs queue_size count type True Decoder) (ph, d)"
  shows "called_back d @ results d = outputs cfg (fed d)"
  using dinv_reach [OF assms] ops_reach [OF assms] by (auto simp: dinv_def Open_def)

theorem frames_reach_the_callback_in_order_witness:
  "called_back sample_running @ results sample_running = outputs sample_cfg (fed sample_running)"
  by (rule frames_reach_the_callback_in_order [OF sample_running [unfolded sample_decoder_def]])

text \<open>The null pointer that \<open>ThreadStop\<close> pushes to wake the worker is never dereferenced: the
  only packets the worker can crash on are those of a media type the stream has no operation for.\<close>

lemma worker_never_decodes_the_null_packet:
  assumes "dreach cfg (Open subs queue_size count type lambda Decoder) (ph, d)"
    and "ThreadRun_step cfg d = Some OutOfBounds"
  shows "\<exists>data rest. worker d = Batch (Some data # rest) \<and>
    media data \<notin> dom (stream_ops (Open subs queue_size count type lambda Decoder))"
proof -
  obtain x rest where b: "worker d = Batch (x # rest)" "\<not> decode_stop d"
    using assms(2) by (auto simp: ThreadRun_step_def split: worker.splits list.splits if_splits)
  then have "x \<noteq> None" using dinv_reach [OF assms(1)] by (cases x) (auto simp: dinv_def batch_def)
  then obtain data where x: "x = Some data" by auto
  have "get_frame cfg data d = OutOfBounds"
    using assms(2) b x by (cases "get_frame cfg data d") (auto simp: ThreadRun_step_def)
  then have "media data \<notin> dom (stream_ops d)"
    by (auto simp: get_frame_def Let_def split: option.splits)
  then show ?thesis using b x ops_reach [OF assms(1)] by auto
qed

text \<open>Stopping ends.  Once \<open>ThreadStop\<close> has set the flag and pushed the null pointer, a worker
  that was started exits within two of its own steps, wherever it is, so the join returns.\<close>

lemma stopped_worker_exits:
  assumes "dreach cfg (Open subs queue_size count type lambda Decoder) (Pushed, d)" and "worker d \<noteq> NoThread"
  shows "worker (ThreadRun_steps cfg 2 d) = Exited"
proof -
  have "decode_stop d" "worker d = Waiting \<Longrightarrow> datas d \<noteq> []" using dinv_reach [OF assms(1)] by (auto simp: dinv_def)
  then show ?thesis
    using assms(2) by (auto simp: numeral_2_eq_2 ThreadRun_step_def split: worker.splits list.splits)
qed

text \<open>Synchronous decoding loses nothing: on messages whose media types the stream has, the
  codec gets every packet from the first key packet on, in order, and the frames returned are those
  it produces, each also given to the callback.\<close>

lemma synchronous_decoding_feeds_every_packet:
  assumes "parse_all cfg bufs = Return ds"
    and "set (map media ds) \<subseteq> dom (stream_ops (Open subs queue_size count type lambda Decoder))"
  shows "\<exists>fs d. Decode_all cfg bufs (Open subs queue_size count type lambda Decoder) = Return (fs, d) \<and>
    fed d = dropWhile (\<lambda>x. \<not> is_key x) ds \<and> frames_in fs = outputs cfg (fed d) \<and>
    called_back d = (if lambda then frames_in fs else [])"
  using Decode_all_fed [OF assms(1), of "Open subs queue_size count type lambda Decoder"] assms(2)
  by (fastforce simp: Open_def Decoder_def list_all_iff outputs_def)

end
