(* ===== verification/NativePlayer.thy ===== *)
theory NativePlayer imports Decoder begin

text \<open>
  \<open>ws-local-player/ws_stream_client.cc\<close>: the native player.  The network thread decodes the messages
  and hands the frames to a window that a second thread makes once the first frame has come.  The
  threads interleave in the step relation \<open>nstep\<close>, one section under the mutex at a time.  Messages
  have been parsed (theory \<open>Packet\<close>); the codec is the parameter of theory \<open>Decoder\<close>.
\<close>

section \<open>State\<close>

datatype ui_pc =
    UiWait nat                             \<comment> \<open>in the waiting loop, with so many waits of two seconds left\<close>
  | UiMake                                 \<comment> \<open>about to make the window\<close>
  | UiRun                                  \<comment> \<open>in \<open>ui_->Run\<close>\<close>
  | UiOver                                 \<comment> \<open>returned, after \<open>on_ui_exit_\<close>\<close>

record native_player =
  ops :: "cint \<rightharpoonup> video_options"
  recv_from_key_frame :: bool
  ui_ok :: bool
  ui :: bool                               \<comment> \<open>\<open>ui_\<close> is not null\<close>
  ui_at :: ui_pc
  ioc_stopped :: bool
  decoded :: "net_data list"               \<comment> \<open>packets given to the codec\<close>
  shown :: "nat list"                      \<comment> \<open>frames given to the window\<close>

record player_options =
  info_subs :: "(cint \<times> codecpar) list"
  pl_dec_name :: string
  pl_thread_count :: int
  pl_thread_type :: int
  ui_wait_secs :: int
  has_exit_func :: bool

fun player_ops :: "player_options \<Rightarrow> (cint \<times> codecpar) list \<Rightarrow> (cint \<rightharpoonup> video_options) \<Rightarrow> (cint \<rightharpoonup> video_options)" where
  "player_ops opts [] m = m"
| "player_ops opts ((t, par) # subs) m =
     player_ops opts subs
       (if t = AVMEDIA_TYPE_VIDEO then
          m(t \<mapsto> \<lparr>dec_name = pl_dec_name opts, dec_thread_count = pl_thread_count opts,
                  dec_thread_type = pl_thread_type opts, sws_enable = True, sws_dst_pix_fmt = dst_pix_fmt par\<rparr>)
        else m)"

text \<open>The constructor starts the second thread.\<close>

definition ui_waits :: "player_options \<Rightarrow> nat" where
  "ui_waits opts = nat ((if ui_wait_secs opts \<le> 0 then 10 else ui_wait_secs opts) * 1000 div 2000)"

definition WsStreamClient :: "player_options \<Rightarrow> native_player" where
  "WsStreamClient opts = \<lparr>ops = player_ops opts (info_subs opts) Map.empty, recv_from_key_frame = False, ui_ok = False,
     ui = False, ui_at = UiWait (ui_waits opts), ioc_stopped = False, decoded = [], shown = []\<rparr>"

section \<open>The network thread\<close>

text \<open>\<open>None\<close> where an exception leaves the handler; \<open>OutOfBounds\<close> is a null pointer dereferenced.\<close>

definition OnEventRecv :: "config \<Rightarrow> net_data \<Rightarrow> native_player \<Rightarrow> native_player option outcome" where
  "OnEventRecv cfg data p =
     (if \<not> recv_from_key_frame p \<and> \<not> is_key data then Return (Some p)
      else
        let p = p\<lparr>recv_from_key_frame := True\<rparr> in
        case ops p (media data) of
          None \<Rightarrow> OutOfBounds
        | Some op \<Rightarrow>
            let p = p\<lparr>decoded := decoded p @ [data]\<rparr> in
            case codec cfg (decoded p) of
              StreamErr \<Rightarrow> Return None
            | NoFrame \<Rightarrow> Return (Some p)
            | GotFrame f \<Rightarrow>
                if media data \<noteq> AVMEDIA_TYPE_VIDEO then Return (Some p)
                else if ui_ok p then
                  if ui p then Return (Some (p\<lparr>shown := shown p @ [f]\<rparr>)) else OutOfBounds
                else Return (Some (p\<lparr>ui_ok := True\<rparr>)))"

section \<open>The window's thread\<close>

text \<open>\<open>wait_for\<close> ends with the value of its predicate; the loop ends with it or after the last wait.\<close>

definition ui_over :: "player_options \<Rightarrow> native_player \<Rightarrow> native_player" where
  "ui_over opts p = p\<lparr>ui_at := UiOver, ioc_stopped := ioc_stopped p \<or> has_exit_func opts\<rparr>"

definition ui_step :: "player_options \<Rightarrow> native_player \<Rightarrow> native_player" where
  "ui_step opts p =
     (case ui_at p of
        UiWait 0 \<Rightarrow> if ui_ok p then p\<lparr>ui_at := UiMake\<rparr> else ui_over opts p
      | UiWait (Suc n) \<Rightarrow> if ui_ok p then p\<lparr>ui_at := UiMake\<rparr> else p\<lparr>ui_at := UiWait n\<rparr>
      | UiMake \<Rightarrow> p\<lparr>ui := True, ui_at := UiRun\<rparr>
      | UiRun \<Rightarrow> ui_over opts p
      | UiOver \<Rightarrow> p)"

fun ui_steps :: "player_options \<Rightarrow> nat \<Rightarrow> native_player \<Rightarrow> native_player" where
  "ui_steps opts 0 p = p"
| "ui_steps opts (Suc n) p = ui_steps opts n (ui_step opts p)"

text \<open>Messages are handled until the network context is stopped.\<close>

inductive nstep :: "config \<Rightarrow> player_options \<Rightarrow> native_player \<Rightarrow> native_player \<Rightarrow> bool" for cfg opts where
  recv: "\<not> ioc_stopped p \<Longrightarrow> OnEventRecv cfg data p = Return (Some p') \<Longrightarrow> nstep cfg opts p p'"
| ui: "nstep cfg opts p (ui_step opts p)"

inductive nreach :: "config \<Rightarrow> player_options \<Rightarrow> native_player \<Rightarrow> bool" for cfg opts where
  start: "nreach cfg opts (WsStreamClient opts)"
| step: "nreach cfg opts p \<Longrightarrow> nstep cfg opts p p' \<Longrightarrow> nreach cfg opts p'"

section \<open>Invariant\<close>

definition only_video :: "(cint \<rightharpoonup> video_options) \<Rightarrow> bool" where
  "only_video m \<longleftrightarrow> dom m \<subseteq> {AVMEDIA_TYPE_VIDEO}"

lemma player_ops_only_video: "only_video m \<Longrightarrow> only_video (player_ops opts subs m)"
  by (induction opts subs m rule: player_ops.induct) (auto simp: only_video_def)

definition ninv :: "player_options \<Rightarrow> native_player \<Rightarrow> bool" where
  "ninv opts p \<longleftrightarrow> ops p = player_ops opts (info_subs opts) Map.empty \<and>
     (case ui_at p of UiWait n \<Rightarrow> \<not> ui p | UiMake \<Rightarrow> \<not> ui p \<and> ui_ok p | UiRun \<Rightarrow> ui p \<and> ui_ok p
      | UiOver \<Rightarrow> ioc_stopped p = has_exit_func opts) \<and>
     (ioc_stopped p \<longrightarrow> ui_at p = UiOver) \<and> (shown p \<noteq> [] \<longrightarrow> ui p)"

lemma ui_step_ninv: "ninv opts p \<Longrightarrow> ninv opts (ui_step opts p)"
  by (auto simp: ninv_def ui_step_def ui_over_def split: ui_pc.splits nat.splits)

text \<open>What a message leaves alone.\<close>

lemma OnEventRecv_same:
  assumes "OnEventRecv cfg data p = Return (Some p')"
  shows "ops p' = ops p \<and> ui_at p' = ui_at p \<and> ui p' = ui p \<and> ioc_stopped p' = ioc_stopped p \<and>
    (ui_ok p \<longrightarrow> ui_ok p') \<and> (shown p' = shown p \<or> ui p)"
  using assms by (auto simp: OnEventRecv_def Let_def split: if_splits option.splits frame_result.splits)

lemma OnEventRecv_ninv: "OnEventRecv cfg data p = Return (Some p') \<Longrightarrow> ninv opts p \<Longrightarrow> ninv opts p'"
  by (drule OnEventRecv_same) (auto simp: ninv_def split: ui_pc.split)

lemma nreach_ninv: "nreach cfg opts p \<Longrightarrow> ninv opts p"
proof (induction rule: nreach.induct)
  case start
  show ?case by (simp add: WsStreamClient_def ninv_def)
next
  case (step p p')
  from step.hyps(2) show ?case
    by cases (use step.IH in \<open>simp_all add: ui_step_ninv OnEventRecv_ninv\<close>)
qed

section \<open>Properties\<close>

lemma ops_video: "ninv opts p \<Longrightarrow> t \<in> dom (ops p) \<Longrightarrow> t = AVMEDIA_TYPE_VIDEO"
  using player_ops_only_video [of Map.empty opts "info_subs opts"] by (auto simp: ninv_def only_video_def)

lemma no_window: "ninv opts p \<Longrightarrow> has_exit_func opts \<Longrightarrow> \<not> ioc_stopped p \<Longrightarrow>
    \<not> ui p \<longleftrightarrow> (\<exists>n. ui_at p = UiWait n) \<or> ui_at p = UiMake"
  by (auto simp: ninv_def split: ui_pc.splits)

text \<open>C24.  When the native player crashes: while the network runs, a message that passes the key-frame
  gate dereferences a null pointer exactly if its media type has no operation, or if it gives a
  second frame before the window's thread has made the window that the first frame asked for.\<close>

theorem player_crashes_iff:
  assumes "nreach cfg opts p" and "has_exit_func opts" and "\<not> ioc_stopped p"
    and "recv_from_key_frame p \<or> is_key data"
  shows "OnEventRecv cfg data p = OutOfBounds \<longleftrightarrow>
    (if media data \<in> dom (ops p)
     then (\<exists>f. codec cfg (decoded p @ [data]) = GotFrame f) \<and> ui_ok p \<and> ((\<exists>n. ui_at p = UiWait n) \<or> ui_at p = UiMake)
     else True)"
proof (cases "ops p (media data)")
  case None
  then show ?thesis using assms(4) by (auto simp: OnEventRecv_def Let_def)
next
  case (Some op)
  then have "media data = AVMEDIA_TYPE_VIDEO" using ops_video [OF nreach_ninv [OF assms(1)]] by auto
  then show ?thesis using Some assms(4) no_window [OF nreach_ninv [OF assms(1)] assms(2,3)]
    by (auto simp: OnEventRecv_def Let_def domIff split: frame_result.splits)
qed

lemma ui_steps_wait:
  "\<not> ui_ok p \<Longrightarrow> ui_at p = UiWait n \<Longrightarrow>
     ui_at (ui_steps opts (Suc n) p) = UiOver \<and> ioc_stopped (ui_steps opts (Suc n) p) = (ioc_stopped p \<or> has_exit_func opts)"
proof (induction n arbitrary: p)
  case 0
  then show ?case by (simp add: ui_step_def ui_over_def)
next
  case (Suc n)
  then show ?case by (simp add: ui_step_def)
qed

text \<open>The window's thread never hangs: two of its steps after the first frame, unless it is over, the
  window exists; without a frame it gives up after its \<open>n\<close> remaining waits and stops the network.\<close>

lemma window_thread_makes_progress:
  assumes "nreach cfg opts p" and "has_exit_func opts"
  shows "if ui_ok p then ui_at p = UiOver \<or> ui (ui_steps opts 2 p)
    else (case ui_at p of
            UiWait n \<Rightarrow> ui_at (ui_steps opts (Suc n) p) = UiOver \<and> ioc_stopped (ui_steps opts (Suc n) p)
          | pc \<Rightarrow> pc = UiOver \<and> ioc_stopped p)"
proof (cases "ui_ok p")
  case True
  then show ?thesis using nreach_ninv [OF assms(1)]
    by (auto simp: ninv_def numeral_2_eq_2 ui_step_def ui_over_def split: ui_pc.splits nat.splits)
next
  case False
  then show ?thesis using nreach_ninv [OF assms(1)] assms(2) ui_steps_wait [of p _ opts]
    by (auto simp: ninv_def ui_over_def simp del: ui_steps.simps split: ui_pc.splits)
qed

definition sample_player_options :: player_options where
  "sample_player_options = \<lparr>info_subs = [(0, \<lparr>format = AV_PIX_FMT_YUV420P, par_color_range = AVCOL_RANGE_JPEG\<rparr>)],
     pl_dec_name = [], pl_thread_count = 0, pl_thread_type = 0, ui_wait_secs = 10, has_exit_func = True\<rparr>"

text \<open>After the first frame, before the window.\<close>

definition sample_player :: native_player where
  "sample_player = (WsStreamClient sample_player_options)
     \<lparr>recv_from_key_frame := True, ui_ok := True, decoded := [sample_data, sample_data]\<rparr>"

lemma sample_player_reach: "nreach sample_cfg sample_player_options sample_player"
proof -
  let ?p = "WsStreamClient sample_player_options"
  have "OnEventRecv sample_cfg sample_data ?p = Return (Some (?p\<lparr>recv_from_key_frame := True, decoded := [sample_data]\<rparr>))"
    using sample_key by (simp add: OnEventRecv_def WsStreamClient_def sample_player_options_def AVMEDIA_TYPE_VIDEO_def
      sample_cfg_def sample_data_def Let_def)
  then have first: "nreach sample_cfg sample_player_options (?p\<lparr>recv_from_key_frame := True, decoded := [sample_data]\<rparr>)"
    by (intro nreach.step [OF nreach.start] nstep.recv) (simp_all add: WsStreamClient_def)
  have "OnEventRecv sample_cfg sample_data (?p\<lparr>recv_from_key_frame := True, decoded := [sample_data]\<rparr>) =
      Return (Some sample_player)"
    by (simp add: OnEventRecv_def WsStreamClient_def sample_player_options_def AVMEDIA_TYPE_VIDEO_def
      sample_cfg_def sample_data_def sample_player_def Let_def)
  then have "nstep sample_cfg sample_player_options (?p\<lparr>recv_from_key_frame := True, decoded := [sample_data]\<rparr>) sample_player"
    by (rule nstep.recv [rotated]) (simp add: WsStreamClient_def)
  then show ?thesis by (rule nreach.step [OF first])
qed

theorem player_crashes_iff_witness:
  "OnEventRecv sample_cfg sample_data sample_player = OutOfBounds \<longleftrightarrow>
    (if media sample_data \<in> dom (ops sample_player)
     then (\<exists>f. codec sample_cfg (decoded sample_player @ [sample_data]) = GotFrame f) \<and> ui_ok sample_player \<and>
       ((\<exists>n. ui_at sample_player = UiWait n) \<or> ui_at sample_player = UiMake)
     else True)"
  by (rule player_crashes_iff [OF sample_player_reach])
    (simp_all add: sample_player_options_def sample_player_def WsStreamClient_def)

end
