(* ===== verification/Session.thy ===== *)
theory Session imports Prelude "HOL-Library.Sublist" begin

text \<open>
  The two ends of a WebSocket connection in C++: the event manager (\<open>common/util/event.h\<close>,
  \<open>common/net/event.h\<close>), the server's session (\<open>rtsp-ws-proxy/ws_session.h\<close>) and the native client
  (\<open>ws-local-player/ws_client.h\<close>).  Boost's asynchronous operations are recorded in \<open>pending\<close>
  when they are started; a completion handler is run with the error code the operation ended with.
  Both ends write through a queue whose front is being written; what they share is the locale
  \<open>serial_writer\<close>, interpreted for each.
\<close>

section \<open>Events\<close>

datatype net_event_id =
    NET_EVENT_FAIL | NET_EVENT_OPEN | NET_EVENT_OPENED | NET_EVENT_SEND | NET_EVENT_RECV
  | NET_EVENT_CLOSE | NET_EVENT_CLOSED

datatype error_code = Success | OperationAborted | WsClosed | OtherError nat

datatype 'd net_event =
    NetEvent net_event_id
  | NetFailEvent error_code string
  | NetSendEvent 'd
  | NetRecvEvent nat

fun event_id :: "'d net_event \<Rightarrow> net_event_id" where
  "event_id (NetEvent i) = i"
| "event_id (NetFailEvent ec what) = NET_EVENT_FAIL"
| "event_id (NetSendEvent data) = NET_EVENT_SEND"
| "event_id (NetRecvEvent n) = NET_EVENT_RECV"

datatype async_op = Accept | Resolve | Connect | Handshake | Read | Write | AsyncClose

text \<open>A connection: its callbacks, the events dispatched (with the callback that got each), the
  operations under way, the send queue and the data handed to \<open>async_write\<close> so far.\<close>

record 'd conn =
  event_callbacks :: "net_event_id \<rightharpoonup> nat"
  dispatched :: "('d net_event \<times> nat option) list"
  pending :: "async_op list"
  send_queue :: "'d list"
  written :: "'d list"

definition HasEventCallback :: "net_event_id \<Rightarrow> ('d, 'm) conn_scheme \<Rightarrow> bool" where
  "HasEventCallback i c \<longleftrightarrow> i \<in> dom (event_callbacks c)"

definition SetEventCallback :: "net_event_id \<Rightarrow> nat option \<Rightarrow> ('d, 'm) conn_scheme \<Rightarrow> ('d, 'm) conn_scheme" where
  "SetEventCallback i cb c = c\<lparr>event_callbacks := (event_callbacks c)(i := cb)\<rparr>"

definition DispatchEvent :: "'d net_event \<Rightarrow> ('d, 'm) conn_scheme \<Rightarrow> ('d, 'm) conn_scheme" where
  "DispatchEvent e c = c\<lparr>dispatched := dispatched c @
     [(e, if HasEventCallback (event_id e) c then event_callbacks c (event_id e) else None)]\<rparr>"

definition start_op :: "async_op \<Rightarrow> ('d, 'm) conn_scheme \<Rightarrow> ('d, 'm) conn_scheme" where
  "start_op p c = c\<lparr>pending := pending c @ [p]\<rparr>"

section \<open>The server's session\<close>

record 'd session = "'d conn" +
  send_queue_max_size :: nat
  has_req :: bool
  silent_send :: bool            \<comment> \<open>\<open>OnEventSend\<close> is overridden and dispatches nothing\<close>

definition new_conn :: "'d conn" where
  "new_conn = \<lparr>event_callbacks = Map.empty, dispatched = [], pending = [], send_queue = [], written = []\<rparr>"

definition WsSession :: "bool \<Rightarrow> nat \<Rightarrow> 'd session" where
  "WsSession req max_size =
     conn.extend new_conn \<lparr>send_queue_max_size = (if max_size \<le> 0 then 1 else max_size), has_req = req, silent_send = False\<rparr>"

definition session_OnEventFail :: "error_code \<Rightarrow> string \<Rightarrow> 'd session \<Rightarrow> 'd session" where
  "session_OnEventFail ec what s =
     (if ec = OperationAborted \<or> ec = WsClosed then DispatchEvent (NetEvent NET_EVENT_CLOSED) s
      else DispatchEvent (NetEvent NET_EVENT_CLOSED) (DispatchEvent (NetFailEvent ec what) s))"

definition session_Run :: "'d session \<Rightarrow> 'd session" where
  "session_Run s = start_op Accept (DispatchEvent (NetEvent NET_EVENT_OPEN) s)"

definition session_DoRead :: "'d session \<Rightarrow> 'd session" where
  "session_DoRead s = start_op Read s"

definition session_OnAccept :: "error_code \<Rightarrow> 'd session \<Rightarrow> 'd session" where
  "session_OnAccept ec s =
     (if ec \<noteq> Success then session_OnEventFail ec ''accept'' s
      else session_DoRead (DispatchEvent (NetEvent NET_EVENT_OPENED) s))"

definition session_OnRead :: "error_code \<Rightarrow> nat \<Rightarrow> 'd session \<Rightarrow> 'd session" where
  "session_OnRead ec bytes_n s =
     (if ec \<noteq> Success then session_OnEventFail ec ''read'' s
      else session_DoRead (DispatchEvent (NetRecvEvent bytes_n) s))"

definition session_DoWrite :: "'d \<Rightarrow> 'd session \<Rightarrow> 'd session" where
  "session_DoWrite data s =
     (let s = (if silent_send s then s else DispatchEvent (NetSendEvent data) s) in
      start_op Write (s\<lparr>written := written s @ [data]\<rparr>))"

definition session_DoSend :: "'d \<Rightarrow> 'd session \<Rightarrow> 'd session" where
  "session_DoSend data s =
     (let s = s\<lparr>send_queue := send_queue s @ [data]\<rparr> in
      if length (send_queue s) > 1 then s else session_DoWrite (hd (send_queue s)) s)"

definition session_OnWrite :: "error_code \<Rightarrow> 'd session \<Rightarrow> 'd session" where
  "session_OnWrite ec s =
     (if ec \<noteq> Success then session_OnEventFail ec ''write'' s
      else
        let q = tl (send_queue s);
            q = (if send_queue_max_size s > 0 \<and> length q > send_queue_max_size s
                 then drop (length q - send_queue_max_size s) q else q);
            s = s\<lparr>send_queue := q\<rparr> in
        if q \<noteq> [] then session_DoWrite (hd q) s else s)"

section \<open>The native client\<close>

text \<open>Its \<open>OnEventFail\<close> is the base class's.\<close>

definition client_OnEventFail :: "error_code \<Rightarrow> string \<Rightarrow> 'd conn \<Rightarrow> 'd conn" where
  "client_OnEventFail ec what c = DispatchEvent (NetFailEvent ec what) c"

definition client_DoResolve :: "'d conn \<Rightarrow> 'd conn" where
  "client_DoResolve c = start_op Resolve (DispatchEvent (NetEvent NET_EVENT_OPEN) c)"

definition client_OnResolve :: "error_code \<Rightarrow> 'd conn \<Rightarrow> 'd conn" where
  "client_OnResolve ec c = (if ec \<noteq> Success then client_OnEventFail ec ''resolve'' c else start_op Connect c)"

definition client_OnConnect :: "error_code \<Rightarrow> 'd conn \<Rightarrow> 'd conn" where
  "client_OnConnect ec c = (if ec \<noteq> Success then client_OnEventFail ec ''connect'' c else start_op Handshake c)"

definition client_DoRead :: "'d conn \<Rightarrow> 'd conn" where
  "client_DoRead c = start_op Read c"

definition client_OnHandshake :: "error_code \<Rightarrow> 'd conn \<Rightarrow> 'd conn" where
  "client_OnHandshake ec c =
     (if ec \<noteq> Success then client_OnEventFail ec ''handshake'' c
      else client_DoRead (DispatchEvent (NetEvent NET_EVENT_OPENED) c))"

definition client_OnRead :: "error_code \<Rightarrow> nat \<Rightarrow> 'd conn \<Rightarrow> 'd conn" where
  "client_OnRead ec bytes_n c =
     (if ec \<noteq> Success then client_OnEventFail ec ''read'' c
      else client_DoRead (DispatchEvent (NetRecvEvent bytes_n) c))"

definition client_DoWrite :: "'d \<Rightarrow> 'd conn \<Rightarrow> 'd conn" where
  "client_DoWrite data c =
     (let c = DispatchEvent (NetSendEvent data) c in start_op Write (c\<lparr>written := written c @ [data]\<rparr>))"

definition client_DoSend :: "'d \<Rightarrow> 'd conn \<Rightarrow> 'd conn" where
  "client_DoSend data c =
     (let c = c\<lparr>send_queue := send_queue c @ [data]\<rparr> in
      if length (send_queue c) > 1 then c else client_DoWrite (hd (send_queue c)) c)"

definition client_OnWrite :: "error_code \<Rightarrow> 'd conn \<Rightarrow> 'd conn" where
  "client_OnWrite ec c =
     (if ec \<noteq> Success then client_OnEventFail ec ''write'' c
      else
        let c = c\<lparr>send_queue := tl (send_queue c)\<rparr> in
        if send_queue c \<noteq> [] then client_DoWrite (hd (send_queue c)) c else c)"

definition client_DoClose :: "'d conn \<Rightarrow> 'd conn" where
  "client_DoClose c = start_op AsyncClose (DispatchEvent (NetEvent NET_EVENT_CLOSE) c)"

definition client_OnClose :: "error_code \<Rightarrow> 'd conn \<Rightarrow> 'd conn" where
  "client_OnClose ec c =
     (if ec \<noteq> Success then client_OnEventFail ec ''close'' c
      else DispatchEvent (NetEvent NET_EVENT_CLOSED) c)"

section \<open>What the two writers share\<close>

datatype 'd write_op = Send 'd | Written

text \<open>A script of sends and completed writes; a write completes only when one is under way, that is
  when the queue is not empty.\<close>

fun run_writer :: "('s \<Rightarrow> 'd list) \<Rightarrow> ('d \<Rightarrow> 's \<Rightarrow> 's) \<Rightarrow> ('s \<Rightarrow> 's) \<Rightarrow> 'd write_op list \<Rightarrow> 's \<Rightarrow> 's" where
  "run_writer queue send complete [] s = s"
| "run_writer queue send complete (Send d # ops) s = run_writer queue send complete ops (send d s)"
| "run_writer queue send complete (Written # ops) s =
     run_writer queue send complete ops (if queue s = [] then s else complete s)"

fun sent :: "'d write_op list \<Rightarrow> 'd list" where
  "sent [] = []"
| "sent (Send d # ops) = d # sent ops"
| "sent (Written # ops) = sent ops"

text \<open>A writer's queue: sending appends, and starts a write exactly when nothing was queued; a
  completed write removes the front (and maybe more of the oldest data) and starts writing the
  new front.\<close>

locale serial_writer =
  fixes queue :: "'s \<Rightarrow> 'd list" and started :: "'s \<Rightarrow> 'd list"
    and send :: "'d \<Rightarrow> 's \<Rightarrow> 's" and complete :: "'s \<Rightarrow> 's"
  assumes queue_send: "queue (send d s) = queue s @ [d]"
    and started_send: "started (send d s) = started s @ (if queue s = [] then [d] else [])"
    and queue_complete: "queue s \<noteq> [] \<Longrightarrow> suffix (queue (complete s)) (tl (queue s))"
    and started_complete: "queue s \<noteq> [] \<Longrightarrow> started (complete s) = started s @ take 1 (queue (complete s))"
begin

abbreviation run :: "'d write_op list \<Rightarrow> 's \<Rightarrow> 's" where
  "run \<equiv> run_writer queue send complete"

text \<open>\<open>all\<close> is everything sent so far: the data written is a subsequence of what left the queue, and
  the front of a non-empty queue is the write under way.\<close>

definition writing :: "'d list \<Rightarrow> 's \<Rightarrow> bool" where
  "writing all s \<longleftrightarrow> (\<exists>out. all = out @ queue s \<and>
     (if queue s = [] then subseq (started s) out
      else \<exists>old. started s = old @ [hd (queue s)] \<and> subseq old out))"

lemma writing_send: "writing all s \<Longrightarrow> writing (all @ [d]) (send d s)"
  by (auto simp: writing_def queue_send started_send split: if_splits)

lemma writing_complete:
  assumes "writing all s" "queue s \<noteq> []"
  shows "writing all (complete s)"
proof -
  obtain out old where all: "all = out @ queue s" and old: "started s = old @ [hd (queue s)]" "subseq old out"
    using assms by (auto simp: writing_def)
  obtain dropped where q: "tl (queue s) = dropped @ queue (complete s)"
    using queue_complete [OF assms(2)] by (auto simp: suffix_def)
  have "queue s = hd (queue s) # dropped @ queue (complete s)"
    using assms(2) q by (metis list.collapse)
  then have "all = (out @ [hd (queue s)] @ dropped) @ queue (complete s)"
    using all by simp
  moreover have "subseq (started s) (out @ [hd (queue s)] @ dropped)"
    unfolding old(1) using old(2) by (simp add: list_emb_append_mono list_emb_prefix)
  ultimately show ?thesis
    using started_complete [OF assms(2)] by (cases "queue (complete s)") (auto simp: writing_def)
qed

lemma writing_run: "writing all s \<Longrightarrow> writing (all @ sent ops) (run ops s)"
proof (induction ops arbitrary: all s rule: sent.induct)
  case (2 d ops)
  then show ?case using writing_send [of all s d] by fastforce
next
  case (3 ops)
  then show ?case using writing_complete [of all s] by simp
qed simp

text \<open>Written in order, each datum at most once; every queued datum but the front still to be written.\<close>

lemma started_subseq:
  assumes "queue s = []" "started s = []"
  shows "subseq (started (run ops s)) (sent ops)"
proof -
  have "writing (sent ops) (run ops s)"
    using assms writing_run [of "[]" s ops] by (simp add: writing_def)
  then show ?thesis
    by (cases "queue (run ops s)") (fastforce simp: writing_def intro!: list_emb_append_mono)+
qed

lemma queue_suffix:
  assumes "queue s = []" "started s = []"
  shows "suffix (queue (run ops s)) (sent ops)"
  using assms writing_run [of "[]" s ops] by (auto simp: writing_def suffix_def)

lemma front_is_being_written:
  assumes "queue s = []" "started s = []" "queue (run ops s) \<noteq> []"
  shows "started (run ops s) \<noteq> [] \<and> last (started (run ops s)) = hd (queue (run ops s))"
  using assms writing_run [of "[]" s ops] by (auto simp: writing_def)

end

text \<open>A writer that removes nothing but the front loses nothing.\<close>

locale lossless_writer = serial_writer +
  assumes queue_complete_tl: "queue s \<noteq> [] \<Longrightarrow> queue (complete s) = tl (queue s)"
begin

lemma nothing_lost:
  assumes "queue s = []" "started s = []"
  shows "started (run ops s) @ tl (queue (run ops s)) = sent ops"
proof -
  have "started (run ops s) @ tl (queue (run ops s)) = started s @ tl (queue s) @ sent ops" for s
  proof (induction ops arbitrary: s rule: sent.induct)
    case (2 d ops)
    then show ?case by (cases "queue s") (simp_all add: queue_send started_send)
  next
    case (3 ops)
    then show ?case
      by (cases "queue s"; cases "tl (queue s)") (simp_all add: queue_complete_tl started_complete)
  qed simp
  then show ?thesis using assms by simp
qed

end

lemmas conn_defs = DispatchEvent_def start_op_def Let_def
lemmas session_defs = conn_defs session_DoSend_def session_DoWrite_def session_OnWrite_def session_OnEventFail_def
lemmas client_defs = conn_defs client_DoSend_def client_DoWrite_def client_OnWrite_def client_OnEventFail_def

interpretation session_writer: serial_writer send_queue written session_DoSend "session_OnWrite Success"
proof
  fix d :: 'd and s :: "'d session"
  show "send_queue (session_DoSend d s) = send_queue s @ [d]" by (simp add: session_defs)
  show "written (session_DoSend d s) = written s @ (if send_queue s = [] then [d] else [])"
    by (simp add: session_defs)
  assume "send_queue s \<noteq> []"
  show "suffix (send_queue (session_OnWrite Success s)) (tl (send_queue s))"
    by (simp add: session_defs suffix_drop)
  show "written (session_OnWrite Success s) = written s @ take 1 (send_queue (session_OnWrite Success s))"
    by (simp add: session_defs take_Suc)
qed

interpretation client_writer: lossless_writer send_queue written client_DoSend "client_OnWrite Success"
  by unfold_locales (simp_all add: client_defs take_Suc)

section \<open>Properties\<close>

lemma new_session: "send_queue (WsSession req n) = []" "written (WsSession req n) = []"
  "send_queue_max_size (WsSession req n) = max 1 n"
  by (simp_all add: WsSession_def new_conn_def conn.defs)

text \<open>A session writes in order.  For every sequence of sends and completed writes on a new
  session, the data given to \<open>async_write\<close> are a subsequence of the data sent, what is queued are the
  last data sent, and while anything is queued exactly its front is being written, so two writes
  never overlap.\<close>

lemma session_writes_in_order:
  "let s = run_writer send_queue session_DoSend (session_OnWrite Success) ops (WsSession req n) in
   subseq (written s) (sent ops) \<and> suffix (send_queue s) (sent ops) \<and>
   (send_queue s = [] \<or> written s \<noteq> [] \<and> last (written s) = hd (send_queue s))"
  using session_writer.started_subseq [OF new_session(1,2)] session_writer.queue_suffix [OF new_session(1,2)]
    session_writer.front_is_being_written [OF new_session(1,2)]
  unfolding Let_def by blast

lemma session_sends:
  "send_queue (run_writer send_queue session_DoSend f (map Send ds) s) = send_queue s @ ds"
  by (induction ds arbitrary: s) (simp_all add: session_defs)

text \<open>The limit on the send queue is enforced only when a write completes: while the first write
  is under way the queue takes everything sent, and at its completion the newest data are kept, as
  many as the limit (at least one).\<close>

lemma session_queue_is_trimmed_at_completion:
  "let s = run_writer send_queue session_DoSend (session_OnWrite Success) (map Send (d # ds)) (WsSession req n) in
   send_queue s = d # ds \<and>
   send_queue (session_OnWrite Success s) = drop (length ds - max 1 n) ds \<and>
   length (send_queue (session_OnWrite Success s)) \<le> max 1 n"
proof -
  have max_size: "send_queue_max_size (run_writer send_queue session_DoSend f (map Send ds) s) = send_queue_max_size s"
    for f ds and s :: "'a session"
    by (induction ds arbitrary: s) (simp_all add: session_defs)
  show ?thesis
    unfolding Let_def session_sends new_session
    by (auto simp: session_sends new_session max_size session_OnWrite_def session_DoWrite_def DispatchEvent_def
        start_op_def Let_def simp del: list.map)
qed

text \<open>After a failed write the session writes nothing more: whatever is sent afterwards is only
  queued behind the datum that failed, and the last event is that the connection is closed.\<close>

lemma failed_write_stops_the_session:
  assumes "ec \<noteq> Success" and "send_queue s \<noteq> []"
  shows "fst (last (dispatched (session_OnWrite ec s))) = NetEvent NET_EVENT_CLOSED \<and>
    written (run_writer send_queue session_DoSend f (map Send ds) (session_OnWrite ec s)) = written s \<and>
    send_queue (run_writer send_queue session_DoSend f (map Send ds) (session_OnWrite ec s)) = send_queue s @ ds"
proof -
  have "written (run_writer send_queue session_DoSend f (map Send ds) s) = written s"
    if "send_queue s \<noteq> []" for s :: "'a session"
    using that by (induction ds arbitrary: s) (simp_all add: session_defs)
  moreover have "send_queue (session_OnWrite ec s) = send_queue s" "written (session_OnWrite ec s) = written s"
    using assms(1) by (simp_all add: session_defs)
  ultimately show ?thesis
    using assms by (simp add: session_sends) (simp add: session_defs)
qed

text \<open>The native client loses nothing: the data written, followed by those queued behind the
  write under way, are exactly the data sent, in order.\<close>

lemma native_client_loses_nothing:
  "let c = run_writer send_queue client_DoSend (client_OnWrite Success) ops new_conn in
   written c @ tl (send_queue c) = sent ops"
  unfolding Let_def by (rule client_writer.nothing_lost) (simp_all add: new_conn_def)

end
