(* ===== verification/Http.thy ===== *)
theory Http imports Prelude "HOL-Library.Sublist" begin

text \<open>
  The HTTP side of the server: requests and responses as the code uses those of Boost.Beast, the
  CORS handler (\<open>common/net/cors.h\<close>) and the file handler (\<open>common/net/ext.h\<close>).  Regular expressions
  and the file system are parameters.
\<close>

section \<open>Messages\<close>

datatype verb = Get | Head | Options | OtherVerb string

fun verb_string :: "verb \<Rightarrow> string" where
  "verb_string Get = ''GET''"
| "verb_string Head = ''HEAD''"
| "verb_string Options = ''OPTIONS''"
| "verb_string (OtherVerb s) = s"

record http_request =
  req_method :: verb
  target :: string
  req_fields :: "string \<rightharpoonup> string"
  version :: nat
  req_keep_alive :: bool
  is_upgrade :: bool

text \<open>\<open>req[field]\<close>: the empty string when the field is missing.\<close>

definition req_field :: "http_request \<Rightarrow> string \<Rightarrow> string" where
  "req_field req f = (case req_fields req f of None \<Rightarrow> [] | Some v \<Rightarrow> v)"

datatype body = EmptyBody | StringBody string | FileBody string

record http_response =
  status :: nat
  res_version :: nat
  res_fields :: "(string \<times> string) list"
  res_body :: body
  content_length :: "nat option"
  res_keep_alive :: bool

text \<open>\<open>insert\<close> adds a field, \<open>set\<close> replaces every field of the name.\<close>

definition insert_field :: "string \<Rightarrow> string \<Rightarrow> http_response \<Rightarrow> http_response" where
  "insert_field f v res = res\<lparr>res_fields := res_fields res @ [(f, v)]\<rparr>"

definition set_field :: "string \<Rightarrow> string \<Rightarrow> http_response \<Rightarrow> http_response" where
  "set_field f v res = res\<lparr>res_fields := filter (\<lambda>p. fst p \<noteq> f) (res_fields res) @ [(f, v)]\<rparr>"

definition has_field :: "http_response \<Rightarrow> string \<Rightarrow> bool" where
  "has_field res f \<longleftrightarrow> f \<in> fst ` set (res_fields res)"

definition new_response :: "nat \<Rightarrow> http_request \<Rightarrow> http_response" where
  "new_response st req = \<lparr>status = st, res_version = version req, res_fields = [], res_body = EmptyBody,
     content_length = None, res_keep_alive = True\<rparr>"

definition prepare_payload :: "http_response \<Rightarrow> http_response" where
  "prepare_payload res = (case res_body res of
     StringBody s \<Rightarrow> res\<lparr>content_length := Some (length s)\<rparr> | _ \<Rightarrow> res)"

section \<open>CORS\<close>

record cors_options =
  enabled :: bool
  allowed_origins :: "string list"
  allowed_methods :: "string list"
  allowed_headers :: "string list"
  exposed_headers :: "string list"
  allowed_credentials :: bool
  max_age :: int

definition allowed_origins_all :: "cors_options \<Rightarrow> bool" where
  "allowed_origins_all o' \<longleftrightarrow> ''*'' \<in> set (allowed_origins o')"

text \<open>\<open>regex_match s origin\<close>: the origin matches the expression as a whole.\<close>

definition IsOriginAllowed :: "(string \<Rightarrow> string \<Rightarrow> bool) \<Rightarrow> cors_options \<Rightarrow> string \<Rightarrow> bool" where
  "IsOriginAllowed regex_match o' origin \<longleftrightarrow>
     (if allowed_origins_all o' then True
      else if origin \<in> set (allowed_origins o') then True
      else list_ex (\<lambda>s. regex_match s origin) (allowed_origins o'))"

definition IsMethodAllowed :: "cors_options \<Rightarrow> string \<Rightarrow> bool" where
  "IsMethodAllowed o' m \<longleftrightarrow> (if m = ''OPTIONS'' then True else m \<in> set (allowed_methods o'))"

text \<open>\<open>boost::algorithm::split\<close> at every comma and every space.\<close>

fun split_any :: "(char \<Rightarrow> bool) \<Rightarrow> string \<Rightarrow> string list" where
  "split_any P [] = [[]]"
| "split_any P (c # cs) = (if P c then [] # split_any P cs
     else case split_any P cs of [] \<Rightarrow> [[c]] | w # ws \<Rightarrow> (c # w) # ws)"

definition AreHeadersAllowed :: "cors_options \<Rightarrow> string \<Rightarrow> bool" where
  "AreHeadersAllowed o' hs \<longleftrightarrow>
     (let headers = split_any (\<lambda>c. c = CHR '','' \<or> c = CHR '' '') hs in
      list_all (\<lambda>s. s \<in> set headers) (allowed_headers o'))"

fun join_strings :: "string list \<Rightarrow> string \<Rightarrow> string" where
  "join_strings [] sep = []"
| "join_strings [s] sep = s"
| "join_strings (s # ss) sep = s @ sep @ join_strings ss sep"

definition set_allow_origin :: "cors_options \<Rightarrow> string \<Rightarrow> http_response \<Rightarrow> http_response" where
  "set_allow_origin o' origin res =
     set_field ''Access-Control-Allow-Origin'' (if allowed_origins_all o' then ''*'' else origin) res"

definition set_credentials :: "cors_options \<Rightarrow> http_response \<Rightarrow> http_response" where
  "set_credentials o' res =
     (if allowed_credentials o' then set_field ''Access-Control-Allow-Credentials'' ''true'' res else res)"

text \<open>\<open>show_int\<close> is \<open>std::to_string\<close>.\<close>

definition HandlePreflight ::
  "(string \<Rightarrow> string \<Rightarrow> bool) \<Rightarrow> (int \<Rightarrow> string) \<Rightarrow> cors_options \<Rightarrow> http_request \<Rightarrow> http_response \<Rightarrow> http_response" where
  "HandlePreflight regex_match show_int o' req res =
     (let res = insert_field ''Vary'' ''Origin'' res;
          res = insert_field ''Vary'' ''Access-Control-Request-Method'' res;
          res = insert_field ''Vary'' ''Access-Control-Request-Headers'' res;
          origin = req_field req ''Origin'';
          m = req_field req ''Access-Control-Request-Method'';
          headers = req_field req ''Access-Control-Request-Headers'' in
      if origin = [] then res
      else if \<not> IsOriginAllowed regex_match o' origin then res
      else if \<not> IsMethodAllowed o' m then res
      else if \<not> AreHeadersAllowed o' headers then res
      else
        let res = set_allow_origin o' origin res;
            res = set_field ''Access-Control-Allow-Methods'' m res;
            res = set_field ''Access-Control-Allow-Headers'' headers res;
            res = set_credentials o' res in
        if max_age o' > 0 then set_field ''Access-Control-Max-Age'' (show_int (max_age o')) res else res)"

definition HandleRequest ::
  "(string \<Rightarrow> string \<Rightarrow> bool) \<Rightarrow> cors_options \<Rightarrow> http_request \<Rightarrow> http_response \<Rightarrow> http_response" where
  "HandleRequest regex_match o' req res =
     (let res = insert_field ''Vary'' ''Origin'' res;
          origin = req_field req ''Origin'' in
      if origin = [] then res
      else if \<not> IsOriginAllowed regex_match o' origin then res
      else if \<not> IsMethodAllowed o' (verb_string (req_method req)) then res
      else
        let res = set_allow_origin o' origin res;
            res = (if exposed_headers o' \<noteq> []
                   then set_field ''Access-Control-Expose-Headers'' (join_strings (exposed_headers o') '', '') res
                   else res) in
        set_credentials o' res)"

definition no_content :: "http_request \<Rightarrow> http_response" where
  "no_content req = prepare_payload ((new_response 204 req)\<lparr>res_keep_alive := req_keep_alive req\<rparr>)"

text \<open>\<open>Cors::Handle\<close>: whether the request is done with, and the response.\<close>

definition Handle ::
  "(string \<Rightarrow> string \<Rightarrow> bool) \<Rightarrow> (int \<Rightarrow> string) \<Rightarrow> cors_options \<Rightarrow> http_request \<Rightarrow> http_response \<Rightarrow> bool \<times> http_response" where
  "Handle regex_match show_int o' req res =
     (if \<not> enabled o' then (False, res)
      else if req_method req = Options \<and> req_field req ''Access-Control-Request-Method'' \<noteq> [] then
        (let res = HandlePreflight regex_match show_int o' req res;
             res = no_content req in (True, res))
      else (False, HandleRequest regex_match o' req res))"

section \<open>Files\<close>

definition lower :: "char \<Rightarrow> char" where
  "lower c = (let n = of_char c :: nat in if 65 \<le> n \<and> n \<le> 90 then char_of (n + 32) else c)"

definition iequals :: "string \<Rightarrow> string \<Rightarrow> bool" where
  "iequals s t \<longleftrightarrow> map lower s = map lower t"

text \<open>\<open>path.substr(path.rfind("."))\<close>, empty when there is no dot.\<close>

definition extension :: "string \<Rightarrow> string" where
  "extension path = (if CHR ''.'' \<in> set path
     then CHR ''.'' # rev (takeWhile (\<lambda>c. c \<noteq> CHR ''.'') (rev path)) else [])"

definition mime_table :: "(string \<times> string) list" where
  "mime_table =
    [(''.htm'', ''text/html''), (''.html'', ''text/html''), (''.php'', ''text/html''), (''.css'', ''text/css''),
     (''.txt'', ''text/plain''), (''.js'', ''application/javascript''), (''.json'', ''application/json''),
     (''.xml'', ''application/xml''), (''.swf'', ''application/x-shockwave-flash''), (''.wasm'', ''application/wasm''),
     (''.flv'', ''video/x-flv''), (''.png'', ''image/png''), (''.jpe'', ''image/jpeg''), (''.jpeg'', ''image/jpeg''),
     (''.jpg'', ''image/jpeg''), (''.gif'', ''image/gif''), (''.bmp'', ''image/bmp''),
     (''.ico'', ''image/vnd.microsoft.icon''), (''.tiff'', ''image/tiff''), (''.tif'', ''image/tiff''),
     (''.svg'', ''image/svg+xml''), (''.svgz'', ''image/svg+xml'')]"

definition mime_type :: "string \<Rightarrow> string" where
  "mime_type path = (case find (\<lambda>p. iequals (extension path) (fst p)) mime_table of
     Some (e, t) \<Rightarrow> t | None \<Rightarrow> ''application/text'')"

text \<open>\<open>path_cat\<close>, as compiled anywhere but on Windows.\<close>

definition path_cat :: "string \<Rightarrow> string \<Rightarrow> string" where
  "path_cat base path = (if base = [] then path
     else (if last base = CHR ''/'' then butlast base else base) @ path)"

text \<open>Opening a file: its size and contents, no such file, or another error.\<close>

datatype open_result = Opened nat | NoSuchFile | OpenError string

definition server_version :: string where "server_version = ''Boost.Beast''"

definition text_response :: "nat \<Rightarrow> http_request \<Rightarrow> string \<Rightarrow> http_response" where
  "text_response st req body =
     (let res = new_response st req;
          res = set_field ''Server'' server_version res;
          res = set_field ''Content-Type'' ''text/html'' res in
      prepare_payload (res\<lparr>res_keep_alive := req_keep_alive req, res_body := StringBody body\<rparr>))"

definition file_response :: "http_request \<Rightarrow> string \<Rightarrow> nat \<Rightarrow> http_response" where
  "file_response req path n =
     (let res = new_response 200 req;
          res = set_field ''Server'' server_version res;
          res = set_field ''Content-Type'' (mime_type path) res;
          res = (if req_method req = Head then res
                 else set_field ''Cross-Origin-Opener-Policy'' ''same-origin''
                   (set_field ''Cross-Origin-Embedder-Policy'' ''require-corp'' res)) in
      res\<lparr>content_length := Some n, res_keep_alive := req_keep_alive req,
          res_body := (if req_method req = Head then EmptyBody else FileBody path)\<rparr>)"

text \<open>The file opened, if any, and the response.\<close>

definition handle_request :: "(string \<Rightarrow> open_result) \<Rightarrow> string \<Rightarrow> http_request \<Rightarrow> string option \<times> http_response" where
  "handle_request fs doc_root req =
     (if req_method req \<noteq> Get \<and> req_method req \<noteq> Head then (None, text_response 400 req ''Unknown HTTP-method'')
      else if target req = [] \<or> hd (target req) \<noteq> CHR ''/'' \<or> sublist ''..'' (target req) then
        (None, text_response 400 req ''Illegal request-target'')
      else if doc_root = [] then (None, text_response 400 req ''Deny access filesystem'')
      else
        let path = path_cat doc_root (target req);
            path = (if last (target req) = CHR ''/'' then path @ ''index.html'' else path) in
        (Some path,
         case fs path of
           NoSuchFile \<Rightarrow> text_response 404 req (''The resource '' @ [CHR 0x27] @ target req @ [CHR 0x27] @ '' was not found.'')
         | OpenError what \<Rightarrow> text_response 500 req (''An error occurred: '' @ [CHR 0x27] @ what @ [CHR 0x27])
         | Opened n \<Rightarrow> file_response req path n))"

section \<open>Properties\<close>

lemma has_field_simps [simp]:
  "has_field (insert_field f v res) g \<longleftrightarrow> g = f \<or> has_field res g"
  "has_field (set_field f v res) g \<longleftrightarrow> g = f \<or> has_field res g"
  by (auto simp: has_field_def insert_field_def set_field_def)

lemma has_field_credentials [simp]:
  "has_field (set_credentials opts res) g \<longleftrightarrow>
     (allowed_credentials opts \<and> g = ''Access-Control-Allow-Credentials'') \<or> has_field res g"
  by (auto simp: set_credentials_def)

text \<open>A preflight is never answered with permission.  Whatever the configuration allows, the
  response to an \<open>OPTIONS\<close> request with \<open>Access-Control-Request-Method\<close> is a bare 204: the headers
  that \<open>HandlePreflight\<close> set are discarded with the response they were set on.\<close>

lemma preflight_response_has_no_cors_headers:
  assumes "enabled opts" and "req_method req = Options" and "req_field req ''Access-Control-Request-Method'' \<noteq> []"
  shows "fst (Handle regex_match show_int opts req res) \<and>
    status (snd (Handle regex_match show_int opts req res)) = 204 \<and>
    (\<nexists>f. has_field (snd (Handle regex_match show_int opts req res)) f)"
  using assms by (simp add: Handle_def no_content_def prepare_payload_def new_response_def has_field_def)

definition sample_cors :: cors_options where
  "sample_cors = \<lparr>enabled = True, allowed_origins = [''http://a''], allowed_methods = [''GET''], allowed_headers = [],
     exposed_headers = [], allowed_credentials = True, max_age = 600\<rparr>"

definition sample_request :: "verb \<Rightarrow> http_request" where
  "sample_request m = \<lparr>req_method = m, target = ''/streams'', req_fields =
     [''Origin'' \<mapsto> ''http://a'', ''Access-Control-Request-Method'' \<mapsto> ''GET''], version = 11, req_keep_alive = True,
     is_upgrade = False\<rparr>"

text \<open>On every other request, the response (here one without fields yet) gets the allow-origin
  header exactly when the request has an origin, the origin is allowed, literally or as a regular
  expression, and the method is allowed; the caller goes on with the response.\<close>

lemma simple_request_gets_allow_origin_iff_allowed:
  assumes "enabled opts" and "req_method req \<noteq> Options \<or> req_field req ''Access-Control-Request-Method'' = []"
    and "res_fields res = []"
  shows "\<not> fst (Handle regex_match show_int opts req res) \<and>
    has_field (snd (Handle regex_match show_int opts req res)) ''Access-Control-Allow-Origin'' =
      (req_field req ''Origin'' \<noteq> [] \<and> IsOriginAllowed regex_match opts (req_field req ''Origin'') \<and>
       IsMethodAllowed opts (verb_string (req_method req)))"
proof -
  have "\<not> has_field res f" for f using assms(3) by (simp add: has_field_def)
  then show ?thesis
    using assms(1,2) by (auto simp: Handle_def HandleRequest_def set_allow_origin_def Let_def)
qed

text \<open>The check of the requested headers is the wrong way round: every allowed header must be requested.\<close>

lemma headers_check_is_inverted:
  "allowed_headers opts = [''Content-Type'', ''Range''] \<Longrightarrow> \<not> AreHeadersAllowed opts ''Range''"
  by (simp add: AreHeadersAllowed_def)

text \<open>C36.  The file handler opens a file only for \<open>GET\<close> and \<open>HEAD\<close>, only when a document root is
  configured, and only below it: the path is the root, a slash and a rest in which no \<open>..\<close> occurs.\<close>

theorem files_are_opened_below_the_document_root:
  assumes "fst (handle_request fs doc_root req) = Some path"
  shows "req_method req \<in> {Get, Head} \<and> doc_root \<noteq> [] \<and>
    (\<exists>rest. path = (if last doc_root = CHR ''/'' then butlast doc_root else doc_root) @ CHR ''/'' # rest \<and>
       \<not> sublist ''..'' (CHR ''/'' # rest))"
proof -
  let ?t = "target req"
  have guards: "req_method req \<in> {Get, Head}" "?t \<noteq> []" "hd ?t = CHR ''/''" "\<not> sublist ''..'' ?t" "doc_root \<noteq> []"
    and path: "path = (let p = path_cat doc_root ?t in if last ?t = CHR ''/'' then p @ ''index.html'' else p)"
    using assms by (auto simp: handle_request_def Let_def split: if_splits)
  obtain rest where t: "?t = CHR ''/'' # rest" using guards(2,3) by (cases ?t) auto
  have "\<not> sublist ''..'' (?t @ ''index.html'')" if "last ?t = CHR ''/''"
  proof
    assume "sublist ''..'' (?t @ ''index.html'')"
    then have "sublist ''..'' ?t \<or> sublist ''..'' ''index.html'' \<or>
        (\<exists>x y. x \<noteq> [] \<and> y \<noteq> [] \<and> ''..'' = x @ y \<and> suffix x ?t \<and> prefix y ''index.html'')"
      unfolding sublist_append by (metis append.right_neutral append_Nil suffix_imp_sublist prefix_imp_sublist)
    then show False
      using guards(4) that guards(2)
      by (auto simp: sublist_Cons_right prefix_Cons Cons_eq_append_conv suffix_def)
  qed
  then show ?thesis
    using guards path t by (auto simp: path_cat_def Let_def)
qed

theorem files_are_opened_below_the_document_root_witness:
  "let req = (sample_request Get)\<lparr>target := ''/lib/''\<rparr> in
   req_method req \<in> {Get, Head} \<and> ''./'' \<noteq> [] \<and>
    (\<exists>rest. ''.'' @ ''/lib/index.html'' = (if last ''./'' = CHR ''/'' then butlast ''./'' else ''./'') @ CHR ''/'' # rest \<and>
       \<not> sublist ''..'' (CHR ''/'' # rest))"
  unfolding Let_def
  by (rule files_are_opened_below_the_document_root [where fs = "\<lambda>_. NoSuchFile"])
    (simp add: handle_request_def sample_request_def path_cat_def Let_def sublist_Cons_right prefix_Cons)

end
