(* ===== verification/Server.thy ===== *)
theory Server imports Session Http Packet begin

text \<open>
  The streaming server of \<open>rtsp-ws-proxy\<close>: the rooms (\<open>ws_stream_room.cc\<close>), the sessions of a stream
  (\<open>ws_stream_session.cc\<close>), the server that broadcasts packets and accepts sessions
  (\<open>ws_stream_server.cc\<close>) and the HTTP loop of a connection (\<open>ws_server_plain.cc\<close>).  Sessions are
  named by numbers; \<open>asio::post\<close> puts a call into \<open>posted\<close>, to be run later by an I/O thread.
\<close>

type_synonym data = "byte list"

section \<open>Rooms\<close>

text \<open>\<open>sessions_map_[id]\<close> inserts an empty set for a new id.  The set is kept as a list without
  duplicates; the order in which C++ iterates it is not specified.\<close>

type_synonym room = "string \<rightharpoonup> nat list"

definition room_at :: "string \<Rightarrow> room \<Rightarrow> nat list \<times> room" where
  "room_at i m = (case m i of Some ss \<Rightarrow> (ss, m) | None \<Rightarrow> ([], m(i \<mapsto> [])))"

definition room_Empty :: "string \<Rightarrow> room \<Rightarrow> bool \<times> room" where
  "room_Empty i m = (let (ss, m) = room_at i m in (ss = [], m))"

definition room_Join :: "string \<Rightarrow> nat \<Rightarrow> room \<Rightarrow> room" where
  "room_Join i k m = (let (ss, m) = room_at i m in m(i \<mapsto> (if k \<in> set ss then ss else ss @ [k])))"

definition room_Leave :: "string \<Rightarrow> nat \<Rightarrow> room \<Rightarrow> room" where
  "room_Leave i k m = (let (ss, m) = room_at i m in m(i \<mapsto> removeAll k ss))"

text \<open>The sessions to send to; each gets the data posted.\<close>

definition room_Send :: "string \<Rightarrow> room \<Rightarrow> nat list \<times> room" where
  "room_Send i m = room_at i m"

section \<open>The server\<close>

record server_options =
  doc_root :: string
  cors :: cors_options
  http_target :: string
  ws_target_prefix :: string
  max_queue :: nat

record stream_session =
  session_id :: string
  session :: "data session"

record server =
  server_opts :: server_options
  room :: room
  stream_map :: "string \<rightharpoonup> nat"             \<comment> \<open>the streams by id\<close>
  sessions :: "nat \<rightharpoonup> stream_session"
  next_session :: nat
  posted :: "(nat \<times> data) list"
  fails :: "(error_code \<times> string) list"       \<comment> \<open>calls of \<open>OnFail\<close>\<close>

definition WsStreamServer :: "server_options \<Rightarrow> server" where
  "WsStreamServer opts = \<lparr>server_opts = opts, room = Map.empty, stream_map = Map.empty, sessions = Map.empty,
     next_session = 0, posted = [], fails = []\<rparr>"

definition Send :: "string \<Rightarrow> nat \<Rightarrow> cint \<Rightarrow> av_packet \<Rightarrow> server \<Rightarrow> server outcome" where
  "Send i stream type pkt sv =
     (let sv = sv\<lparr>stream_map := (stream_map sv)(i \<mapsto> stream)\<rparr>;
          (empty, m) = room_Empty i (room sv);
          sv = sv\<lparr>room := m\<rparr> in
      if empty then Return sv
      else bind_outcome (ToBytes_vector [] \<lparr>media = type, packet = pkt\<rparr>) (\<lambda>(st, data).
        let (ks, m) = room_Send i (room sv) in
        Return (sv\<lparr>room := m, posted := posted sv @ map (\<lambda>k. (k, data)) ks\<rparr>)))"

text \<open>A session whose event callbacks are the server's and whose open and close join and leave the
  room.  The event \<open>NET_EVENT_FAIL\<close> is callback 0.\<close>

definition on_session :: "nat \<Rightarrow> (data session \<Rightarrow> data session) \<Rightarrow> server \<Rightarrow> server" where
  "on_session k f sv = (case sessions sv k of None \<Rightarrow> sv
     | Some s \<Rightarrow> sv\<lparr>sessions := (sessions sv)(k \<mapsto> s\<lparr>session := f (session s)\<rparr>)\<rparr>)"

definition OnFail :: "error_code \<Rightarrow> string \<Rightarrow> server \<Rightarrow> server" where
  "OnFail ec what sv = sv\<lparr>fails := fails sv @ [(ec, what)]\<rparr>"

text \<open>\<open>WsStreamSession::OnEventOpened\<close> and \<open>OnEventClosed\<close> around the base class's.\<close>

definition session_opened :: "nat \<Rightarrow> server \<Rightarrow> server" where
  "session_opened k sv = (case sessions sv k of None \<Rightarrow> sv
     | Some s \<Rightarrow> sv\<lparr>room := room_Join (session_id s) k (room sv)\<rparr>)"

definition session_closed :: "nat \<Rightarrow> server \<Rightarrow> server" where
  "session_closed k sv = (case sessions sv k of None \<Rightarrow> sv
     | Some s \<Rightarrow> sv\<lparr>room := room_Leave (session_id s) k (room sv)\<rparr>)"

definition session_failed :: "nat \<Rightarrow> error_code \<Rightarrow> string \<Rightarrow> server \<Rightarrow> server" where
  "session_failed k ec what sv =
     (let sv = (if ec = OperationAborted \<or> ec = WsClosed then sv else OnFail ec what sv) in session_closed k sv)"

definition starts_with :: "string \<Rightarrow> string \<Rightarrow> bool" where
  "starts_with s p \<longleftrightarrow> take (length p) s = p"

definition DoSessionWebSocket :: "http_request option \<Rightarrow> server \<Rightarrow> server outcome" where
  "DoSessionWebSocket req sv =
     (case req of
        None \<Rightarrow> Fatal
      | Some req \<Rightarrow>
          let prefix = ws_target_prefix (server_opts sv) in
          if \<not> starts_with (target req) prefix then Return sv
          else
            let i = drop (length prefix) (target req) in
            if stream_map sv i = None then Return sv
            else
              let k = next_session sv;
                  s = SetEventCallback NET_EVENT_FAIL (Some 0)
                        ((WsSession True (max_queue (server_opts sv)))\<lparr>silent_send := True\<rparr>) in
              Return (sv\<lparr>sessions := (sessions sv)(k \<mapsto> \<lparr>session_id = i, session = session_Run s\<rparr>),
                         next_session := Suc k\<rparr>))"

text \<open>The completions of a session's operations, as they reach the room.\<close>

definition OnAccept :: "nat \<Rightarrow> error_code \<Rightarrow> server \<Rightarrow> server" where
  "OnAccept k ec sv =
     (let sv' = on_session k (session_OnAccept ec) sv in
      if ec \<noteq> Success then session_failed k ec ''accept'' sv' else session_opened k sv')"

definition OnRead :: "nat \<Rightarrow> error_code \<Rightarrow> nat \<Rightarrow> server \<Rightarrow> server" where
  "OnRead k ec n sv =
     (let sv' = on_session k (session_OnRead ec n) sv in
      if ec \<noteq> Success then session_failed k ec ''read'' sv' else sv')"

definition OnWrite :: "nat \<Rightarrow> error_code \<Rightarrow> server \<Rightarrow> server" where
  "OnWrite k ec sv =
     (let sv' = on_session k (session_OnWrite ec) sv in
      if ec \<noteq> Success then session_failed k ec ''write'' sv' else sv')"

text \<open>The \<open>n\<close>-th of the calls posted to session \<open>k\<close> runs.  The executor of an accepted socket is the
  \<open>io_context\<close> itself and not a strand, so with several I/O threads the calls, which exclude each other
  by the session's mutex, run in any order.\<close>

definition run_posted :: "nat \<Rightarrow> nat \<Rightarrow> server \<Rightarrow> server" where
  "run_posted k n sv =
     (case take_nth (\<lambda>p. fst p = k) n (posted sv) of
        None \<Rightarrow> sv
      | Some ((_, data), rest) \<Rightarrow> on_session k (session_DoSend data) (sv\<lparr>posted := rest\<rparr>))"

section \<open>The HTTP connection\<close>

record http_env =
  regex_match :: "string \<Rightarrow> string \<Rightarrow> bool"
  show_int :: "int \<Rightarrow> string"
  file_system :: "string \<Rightarrow> open_result"
  streams_json :: "(string \<rightharpoonup> nat) \<Rightarrow> string"
  need_eof :: "http_response \<Rightarrow> bool"

text \<open>\<open>OnHandleHttpRequest\<close>: the response when the target is the list of streams.\<close>

definition OnHandleHttpRequest :: "http_env \<Rightarrow> server \<Rightarrow> http_request \<Rightarrow> http_response option" where
  "OnHandleHttpRequest env sv req =
     (if target req = http_target (server_opts sv) then
        let res = new_response 200 req;
            c = cors (server_opts sv);
            (done, res) = (if enabled c then Handle (regex_match env) (show_int env) c req res else (False, res)) in
        if done then Some res
        else
          let res = set_field ''Server'' server_version res;
              res = set_field ''Content-Type'' ''application/json'' res;
              res = res\<lparr>res_keep_alive := req_keep_alive req, res_body := StringBody (streams_json env (stream_map sv))\<rparr> in
          Some (prepare_payload res)
      else None)"

text \<open>What a read of the connection ends with; the response is written with the given result.\<close>

datatype incoming = Request http_request error_code | EndOfStream | ReadError error_code

datatype connection = Reading | Shutdown | Failed | Upgraded

fun DoSessionHTTP ::
  "http_env \<Rightarrow> incoming list \<Rightarrow> server \<Rightarrow> (http_response list \<times> connection \<times> server) outcome" where
  "DoSessionHTTP env [] sv = Return ([], Reading, sv)"
| "DoSessionHTTP env (EndOfStream # ins) sv = Return ([], Shutdown, sv)"
| "DoSessionHTTP env (ReadError ec # ins) sv = Return ([], Failed, OnFail ec ''read'' sv)"
| "DoSessionHTTP env (Request req wec # ins) sv =
     (if is_upgrade req then
        bind_outcome (DoSessionWebSocket (Some req) sv) (\<lambda>sv. Return ([], Upgraded, sv))
      else case OnHandleHttpRequest env sv req of
        Some res \<Rightarrow>
          if need_eof env res then Return ([res], Shutdown, sv)
          else bind_outcome (DoSessionHTTP env ins sv) (\<lambda>(rs, c, sv). Return (res # rs, c, sv))
      | None \<Rightarrow>
          let res = snd (handle_request (file_system env) (doc_root (server_opts sv)) req) in
          if wec \<noteq> Success then Return ([res], Failed, OnFail wec ''write'' sv)
          else if need_eof env res then Return ([res], Shutdown, sv)
          else bind_outcome (DoSessionHTTP env ins sv) (\<lambda>(rs, c, sv). Return (res # rs, c, sv)))"

section \<open>The server's steps\<close>

inductive sstep :: "server \<Rightarrow> server \<Rightarrow> bool" where
  send: "Send i stream type pkt sv = Return sv' \<Longrightarrow> sstep sv sv'"
| connect: "DoSessionWebSocket (Some req) sv = Return sv' \<Longrightarrow> sstep sv sv'"
| accepted: "sstep sv (OnAccept k ec sv)"
| read: "sstep sv (OnRead k ec n sv)"
| wrote: "sstep sv (OnWrite k ec sv)"
| posted_call: "sstep sv (run_posted k n sv)"

text \<open>Rooms hold sessions that exist, once, in the room of their own stream, which is known.\<close>

definition rooms_ok :: "server \<Rightarrow> bool" where
  "rooms_ok sv \<longleftrightarrow>
     (\<forall>i ks. room sv i = Some ks \<longrightarrow> distinct ks \<and>
        (\<forall>k \<in> set ks. \<exists>s. sessions sv k = Some s \<and> session_id s = i)) \<and>
     (\<forall>k s. sessions sv k = Some s \<longrightarrow> k < next_session sv \<and> session_id s \<in> dom (stream_map sv))"

lemma room_at_same: "room_at i m = (ks, m') \<Longrightarrow>
    m' = m(i \<mapsto> ks) \<and> (m i = Some ks \<or> m i = None \<and> ks = [])"
  by (auto simp: room_at_def split: option.splits)

lemma rooms_ok_upd:
  assumes "rooms_ok sv" and "distinct ks" and "\<forall>k \<in> set ks. \<exists>s. sessions sv k = Some s \<and> session_id s = i"
  shows "rooms_ok (sv\<lparr>room := (room sv)(i \<mapsto> ks)\<rparr>)"
  using assms by (auto simp: rooms_ok_def)

lemma rooms_ok_room_at:
  assumes "rooms_ok sv" "room_at i (room sv) = (ks, m')"
  shows "m' = (room sv)(i \<mapsto> ks)" "distinct ks" "\<forall>k \<in> set ks. \<exists>s. sessions sv k = Some s \<and> session_id s = i"
  using assms room_at_same [OF assms(2)] by (auto simp: rooms_ok_def)

lemma rooms_ok_cong:
  assumes "rooms_ok sv" "room sv' = room sv" "dom (stream_map sv) \<subseteq> dom (stream_map sv')" "next_session sv' = next_session sv"
    "\<And>k. map_option session_id (sessions sv' k) = map_option session_id (sessions sv k)"
  shows "rooms_ok sv'"
proof -
  have same: "(\<exists>s. sessions sv' k = Some s \<and> session_id s = i) \<longleftrightarrow> (\<exists>s. sessions sv k = Some s \<and> session_id s = i)" for k i
    using assms(5) [of k] by (cases "sessions sv k"; cases "sessions sv' k") auto
  have "k < next_session sv \<and> session_id s \<in> dom (stream_map sv')" if here: "sessions sv' k = Some s" for k s
  proof -
    obtain s0 where "sessions sv k = Some s0" "session_id s0 = session_id s"
      using assms(5) [of k] here by (cases "sessions sv k") simp_all
    then show ?thesis using assms(1,3) unfolding rooms_ok_def by (metis subsetD)
  qed
  then show ?thesis using assms(1,2,4) by (simp add: rooms_ok_def same)
qed

lemma on_session_same:
  "room (on_session k f sv) = room sv" "stream_map (on_session k f sv) = stream_map sv"
  "next_session (on_session k f sv) = next_session sv"
  "map_option session_id (sessions (on_session k f sv) j) = map_option session_id (sessions sv j)"
  by (auto simp: on_session_def split: option.splits)

lemma rooms_ok_on_session: "rooms_ok sv \<Longrightarrow> rooms_ok (on_session k f sv)"
  by (rule rooms_ok_cong) (auto simp: on_session_same)

text \<open>Replacing the room at an id that \<open>room_at\<close> has looked up.\<close>

lemma rooms_ok_change:
  assumes ok: "rooms_ok sv" and s: "sessions sv k = Some s"
    and at: "room_at (session_id s) (room sv) = (ks, m)" and ks': "distinct ks'" "set ks' \<subseteq> insert k (set ks)"
  shows "rooms_ok (sv\<lparr>room := m(session_id s \<mapsto> ks')\<rparr>)"
proof -
  have "rooms_ok (sv\<lparr>room := (room sv)(session_id s \<mapsto> ks')\<rparr>)"
    using rooms_ok_room_at(3) [OF ok at] s ks' by (intro rooms_ok_upd ok) auto
  then show ?thesis by (simp add: rooms_ok_room_at(1) [OF ok at])
qed

lemma rooms_ok_opened:
  assumes "rooms_ok sv"
  shows "rooms_ok (session_opened k sv)"
proof (cases "sessions sv k")
  case (Some s)
  obtain ks m where at: "room_at (session_id s) (room sv) = (ks, m)" by (rule prod.exhaust)
  have "rooms_ok (sv\<lparr>room := m(session_id s \<mapsto> (if k \<in> set ks then ks else ks @ [k]))\<rparr>)"
    using rooms_ok_room_at(2) [OF assms at] by (intro rooms_ok_change [OF assms Some at]) auto
  then show ?thesis by (simp add: session_opened_def Some room_Join_def at del: fun_upd_apply)
qed (simp add: assms session_opened_def)

lemma rooms_ok_closed:
  assumes "rooms_ok sv"
  shows "rooms_ok (session_closed k sv)"
proof (cases "sessions sv k")
  case (Some s)
  obtain ks m where at: "room_at (session_id s) (room sv) = (ks, m)" by (rule prod.exhaust)
  have "rooms_ok (sv\<lparr>room := m(session_id s \<mapsto> removeAll k ks)\<rparr>)"
    using rooms_ok_room_at(2) [OF assms at] by (intro rooms_ok_change [OF assms Some at]) (auto simp: distinct_removeAll)
  then show ?thesis by (simp add: session_closed_def Some room_Leave_def at)
qed (simp add: assms session_closed_def)

lemma rooms_ok_failed: "rooms_ok sv \<Longrightarrow> rooms_ok (session_failed k ec what sv)"
  using rooms_ok_closed rooms_ok_cong [of sv "OnFail ec what sv"]
  by (auto simp: session_failed_def OnFail_def Let_def)

lemma Send_eq:
  "Send i stream type pkt sv = Return
     (let (ks, m) = room_at i (room sv) in
      sv\<lparr>stream_map := (stream_map sv)(i \<mapsto> stream), room := m,
         posted := posted sv @ map (\<lambda>k. (k, concat (packet_fields \<lparr>media = type, packet = pkt\<rparr>))) ks\<rparr>)"
  by (auto simp: Send_def room_Empty_def room_Send_def ToBytes_vector_eq Let_def room_at_def split: option.splits)

lemma rooms_ok_step: "sstep sv sv' \<Longrightarrow> rooms_ok sv \<Longrightarrow> rooms_ok sv'"
proof (induction rule: sstep.induct)
  case (send i stream type pkt sv sv')
  obtain ks m where at: "room_at i (room sv) = (ks, m)" by (cases "room_at i (room sv)")
  have "rooms_ok (sv\<lparr>room := (room sv)(i \<mapsto> ks)\<rparr>)"
    using rooms_ok_room_at [OF send.prems at] by (intro rooms_ok_upd send.prems)
  then show ?case
    using send.hyps rooms_ok_room_at(1) [OF send.prems at]
    by (auto simp: Send_eq at intro!: rooms_ok_cong [where sv = "sv\<lparr>room := (room sv)(i \<mapsto> ks)\<rparr>"])
next
  case (connect req sv sv')
  then show ?case
    by (fastforce simp: DoSessionWebSocket_def rooms_ok_def Let_def split: if_splits)
next
  case (posted_call sv k n)
  then show ?case
    by (auto simp: run_posted_def split: option.splits intro!: rooms_ok_on_session rooms_ok_cong [of sv])
qed (auto simp: OnAccept_def OnRead_def OnWrite_def Let_def
    intro!: rooms_ok_failed rooms_ok_opened rooms_ok_on_session)

section \<open>Properties\<close>

text \<open>Rooms.  Whatever the sessions do and in whatever order, a room only ever holds sessions
  that were accepted for its own stream id, each once, and every session belongs to a stream the
  server knows; so a packet of a stream is posted only to sessions of that stream, at most once each.\<close>

lemma rooms_hold_sessions_of_their_stream:
  assumes "sstep\<^sup>*\<^sup>* (WsStreamServer opts) sv" and "room sv i = Some ks"
  shows "distinct ks \<and> (\<forall>k \<in> set ks. \<exists>s. sessions sv k = Some s \<and> session_id s = i \<and> i \<in> dom (stream_map sv))"
proof -
  have "rooms_ok sv"
    using assms(1)
  proof (induction rule: rtranclp_induct)
    case base
    show ?case by (simp add: rooms_ok_def WsStreamServer_def)
  qed (rule rooms_ok_step)
  then show ?thesis using assms(2) unfolding rooms_ok_def by metis
qed

text \<open>A server that knows the stream \<open>a\<close> and has one accepted session of it.\<close>

lemma DoSessionWebSocket_returns: "\<exists>sv'. DoSessionWebSocket (Some req) sv = Return sv'"
  by (simp add: DoSessionWebSocket_def Let_def)

definition sample_server_options :: server_options where
  "sample_server_options = \<lparr>doc_root = ''.'', cors = sample_cors, http_target = ''/streams'',
     ws_target_prefix = ''/stream/'', max_queue = 2\<rparr>"

definition sample_server :: server where
  "sample_server = (let sv = WsStreamServer sample_server_options;
     sv = (case Send ''a'' 7 0 (packet sample_data) sv of Return sv' \<Rightarrow> sv' | _ \<Rightarrow> sv);
     sv = (case DoSessionWebSocket (Some ((sample_request Get)\<lparr>target := ''/stream/a''\<rparr>)) sv of
             Return sv' \<Rightarrow> sv' | _ \<Rightarrow> sv) in
     OnAccept 0 Success sv)"

lemma sample_server_reach: "sstep\<^sup>*\<^sup>* (WsStreamServer sample_server_options) sample_server"
proof -
  define sv1 where "sv1 = (WsStreamServer sample_server_options)\<lparr>stream_map := [''a'' \<mapsto> 7], room := [''a'' \<mapsto> []]\<rparr>"
  have one: "Send ''a'' 7 0 (packet sample_data) (WsStreamServer sample_server_options) = Return sv1"
    by (simp add: Send_eq sv1_def WsStreamServer_def room_at_def)
  obtain sv2 where two: "DoSessionWebSocket (Some ((sample_request Get)\<lparr>target := ''/stream/a''\<rparr>)) sv1 = Return sv2"
    using DoSessionWebSocket_returns by blast
  have "sample_server = OnAccept 0 Success sv2"
    by (simp add: sample_server_def Let_def one two)
  then show ?thesis
    using sstep.send [OF one] sstep.connect [OF two] sstep.accepted [of sv2 0 Success]
    by (metis (no_types) rtranclp.simps)
qed

lemma sample_server_room: "room sample_server ''a'' = Some [0]"
  by (simp add: sample_server_def Send_eq WsStreamServer_def room_at_def DoSessionWebSocket_def starts_with_def
      sample_server_options_def sample_request_def OnAccept_def session_opened_def on_session_def room_Join_def Let_def)

end
