(* ===== verification/Listener.thy ===== *)
theory Listener imports Server begin

text \<open>
  The listeners \<open>rtsp-ws-proxy/ws_server_plain.cc\<close> and \<open>ws_server_ssl.cc\<close>: accepting connections, the
  TLS variant of the HTTP connection, the certificates it loads, and the echo session of the base
  class.  TLS itself is the result of its handshake and of its shutdown.
\<close>

section \<open>Accepting connections\<close>

text \<open>The results of opening the acceptor, setting its option, binding and listening.\<close>

record acceptor =
  acc_open :: error_code
  acc_set_option :: error_code
  acc_bind :: error_code
  acc_listen :: error_code

text \<open>What is launched for a socket: an HTTP connection, or a WebSocket session without a request.\<close>

datatype launched = HttpConnection nat | WebSocketSession nat

text \<open>Results of \<open>async_accept\<close>; an error is reported and the loop goes on.\<close>

fun accept_loop :: "bool \<Rightarrow> (nat + error_code) list \<Rightarrow> server \<Rightarrow> launched list \<times> server" where
  "accept_loop http [] sv = ([], sv)"
| "accept_loop http (Inr ec # rs) sv = accept_loop http rs (OnFail ec ''accept'' sv)"
| "accept_loop http (Inl socket # rs) sv =
     (case accept_loop http rs sv of
        (ls, sv) \<Rightarrow> ((if http then HttpConnection socket else WebSocketSession socket) # ls, sv))"

definition DoListen :: "acceptor \<Rightarrow> bool \<Rightarrow> (nat + error_code) list \<Rightarrow> server \<Rightarrow> launched list \<times> server" where
  "DoListen acc http rs sv =
     (if acc_open acc \<noteq> Success then ([], OnFail (acc_open acc) ''open'' sv)
      else if acc_set_option acc \<noteq> Success then ([], OnFail (acc_set_option acc) ''set_option'' sv)
      else if acc_bind acc \<noteq> Success then ([], OnFail (acc_bind acc) ''bind'' sv)
      else if acc_listen acc \<noteq> Success then ([], OnFail (acc_listen acc) ''listen'' sv)
      else accept_loop http rs sv)"

text \<open>A failed \<open>accept\<close> costs its own connection only.\<close>

lemma accept_loop_launches:
  "map (case_launched id id) (fst (accept_loop http rs sv)) = map projl (filter isl rs)"
proof (induction http rs sv rule: accept_loop.induct)
  case (3 http socket rs sv)
  then show ?case by (cases "accept_loop http rs sv") simp
qed simp_all

section \<open>TLS\<close>

text \<open>Reading a certificate aborts the program when its path is empty or it cannot be opened.\<close>

definition read_content :: "(string \<Rightarrow> string option) \<Rightarrow> string \<Rightarrow> string outcome" where
  "read_content file path =
     (if path = [] then Fatal else case file path of None \<Rightarrow> Fatal | Some content \<Rightarrow> Return content)"

record certificates =
  chain :: string
  private_key :: string
  tmp_dh :: "string option"

definition LoadServerCertificate :: "(string \<Rightarrow> string option) \<Rightarrow> string \<Rightarrow> string \<Rightarrow> string \<Rightarrow> certificates outcome" where
  "LoadServerCertificate file crt key dh =
     bind_outcome (read_content file crt) (\<lambda>c.
     bind_outcome (read_content file key) (\<lambda>k.
       if dh = [] then Return \<lparr>chain = c, private_key = k, tmp_dh = None\<rparr>
       else bind_outcome (read_content file dh) (\<lambda>d. Return \<lparr>chain = c, private_key = k, tmp_dh = Some d\<rparr>)))"

text \<open>The TLS listener has its own copy of the request loop.\<close>

fun tls_loop :: "http_env \<Rightarrow> incoming list \<Rightarrow> server \<Rightarrow> (http_response list \<times> connection \<times> server) outcome" where
  "tls_loop env [] sv = Return ([], Reading, sv)"
| "tls_loop env (i # ins) sv =
     (case i of
        EndOfStream \<Rightarrow> Return ([], Shutdown, sv)
      | ReadError ec \<Rightarrow> Return ([], Failed, OnFail ec ''read'' sv)
      | Request req wec \<Rightarrow>
          if is_upgrade req then bind_outcome (DoSessionWebSocket (Some req) sv) (\<lambda>sv. Return ([], Upgraded, sv))
          else
            let handled = OnHandleHttpRequest env sv req;
                res = (case handled of Some res \<Rightarrow> res
                  | None \<Rightarrow> snd (handle_request (file_system env) (doc_root (server_opts sv)) req)) in
            if handled = None \<and> wec \<noteq> Success then Return ([res], Failed, OnFail wec ''write'' sv)
            else if need_eof env res then Return ([res], Shutdown, sv)
            else bind_outcome (tls_loop env ins sv) (\<lambda>(rs, c, sv). Return (res # rs, c, sv)))"

definition tls_DoSessionHTTP ::
  "http_env \<Rightarrow> error_code \<Rightarrow> error_code \<Rightarrow> incoming list \<Rightarrow> server \<Rightarrow> (http_response list \<times> connection \<times> server) outcome" where
  "tls_DoSessionHTTP env handshake shutdown ins sv =
     (if handshake \<noteq> Success then Return ([], Failed, OnFail handshake ''handshake'' sv)
      else bind_outcome (tls_loop env ins sv) (\<lambda>(rs, c, sv).
        if c = Shutdown \<and> shutdown \<noteq> Success then Return (rs, Failed, OnFail shutdown ''shutdown'' sv)
        else Return (rs, c, sv)))"

lemma tls_loop_plain: "tls_loop env ins sv = DoSessionHTTP env ins sv"
  by (induction env ins sv rule: DoSessionHTTP.induct) (auto simp: Let_def split: option.splits)

text \<open>C27.  The TLS listener serves what the plain one serves: its own copy of the request loop gives the
  same responses and leaves the server the same, except that a failed handshake serves nothing and
  that a failed TLS shutdown is reported.\<close>

theorem tls_serves_what_plain_serves:
  "tls_DoSessionHTTP env handshake shutdown ins sv =
     (if handshake = Success
      then bind_outcome (DoSessionHTTP env ins sv) (\<lambda>(rs, c, sv').
        Return (if c = Shutdown \<and> shutdown \<noteq> Success then (rs, Failed, OnFail shutdown ''shutdown'' sv') else (rs, c, sv')))
      else Return ([], Failed, OnFail handshake ''handshake'' sv))"
  by (cases "DoSessionHTTP env ins sv") (auto simp: tls_DoSessionHTTP_def tls_loop_plain)

section \<open>The echo session\<close>

text \<open>A session and its read buffer, to which \<open>async_read\<close> appends each message.  The callback of the base
  class sends the buffer back and consumes the message from a copy of it; the sessions of streams have
  no such callback.\<close>

record echo_session =
  echo_conn :: "data session"
  read_buffer :: data
  echoes :: "data list"                    \<comment> \<open>given to \<open>Send\<close>, in order\<close>

definition echo_callback :: "data \<Rightarrow> nat \<Rightarrow> data list \<times> data" where
  "echo_callback event_buffer bytes_n = (let buffer = event_buffer in ([buffer], drop bytes_n buffer))"

definition echo_OnRead :: "bool \<Rightarrow> data \<Rightarrow> echo_session \<Rightarrow> echo_session" where
  "echo_OnRead echo msg s =
     (let s = s\<lparr>read_buffer := read_buffer s @ msg\<rparr>;
          (sends, copy) = (if echo then echo_callback (read_buffer s) (length msg) else ([], [])) in
      s\<lparr>echo_conn := session_OnRead Success (length msg) (echo_conn s), echoes := echoes s @ sends\<rparr>)"

definition echo_start :: "data session \<Rightarrow> echo_session" where
  "echo_start c = \<lparr>echo_conn = c, read_buffer = [], echoes = []\<rparr>"

definition echo_run :: "bool \<Rightarrow> data list \<Rightarrow> echo_session \<Rightarrow> echo_session" where
  "echo_run echo msgs s = fold (echo_OnRead echo) msgs s"

lemma echo_run_state:
  "read_buffer (echo_run echo msgs s) = read_buffer s @ concat msgs \<and>
   echoes (echo_run echo msgs s) = echoes s @
     (if echo then map (\<lambda>n. read_buffer s @ concat (take (Suc n) msgs)) [0..<length msgs] else [])"
proof (induction msgs arbitrary: s)
  case (Cons msg msgs)
  let ?s = "echo_OnRead echo msg s"
  have step: "read_buffer ?s = read_buffer s @ msg" "echoes ?s = echoes s @ (if echo then [read_buffer s @ msg] else [])"
    by (auto simp: echo_OnRead_def echo_callback_def Let_def)
  have upt: "[0..<Suc (length msgs)] = 0 # map Suc [0..<length msgs]" by (subst upt_conv_Cons) (simp_all add: map_Suc_upt del: upt_Suc)
  show ?case using Cons [of ?s] step by (cases echo) (simp_all add: echo_run_def upt o_def del: upt_Suc)
qed (simp add: echo_run_def)

text \<open>Received messages are never taken out of a session's read buffer.  The echo session consumes from
  a copy, so its \<open>n\<close>-th answer is all \<open>n\<close> messages so far, and a stream's session consumes nothing: its
  buffer grows with every byte a client sends.\<close>

lemma received_messages_pile_up:
  "echoes (echo_run True msgs (echo_start c)) = map (\<lambda>n. concat (take (Suc n) msgs)) [0..<length msgs] \<and>
   echoes (echo_run False msgs (echo_start c)) = [] \<and>
   read_buffer (echo_run echo msgs (echo_start c)) = concat msgs"
  using echo_run_state [of True msgs "echo_start c"] echo_run_state [of False msgs "echo_start c"]
    echo_run_state [of echo msgs "echo_start c"]
  by (simp add: echo_start_def)

end
