(* ===== verification/Delivery.thy ===== *)
theory Delivery imports Server "HOL-Library.Multiset" begin

text \<open>
  What a client of the server gets.  The server's operations and the completions of its sessions are
  events; a run of the server is a list of them, whose order stands for the schedule of the stream
  threads and of the I/O threads.  The lemmas follow the data of one session from \<open>Send\<close> over the calls
  posted to it and its send queue to \<open>async_write\<close>.  What they keep is the locale \<open>delivery\<close>, interpreted
  for calls that run in order and for calls that run in any order.
\<close>

section \<open>Events\<close>

datatype server_event =
    Broadcast string nat cint av_packet       \<comment> \<open>a stream's thread calls \<open>Send\<close>\<close>
  | Connects http_request                     \<comment> \<open>\<open>DoSessionWebSocket\<close>\<close>
  | AcceptDone nat error_code
  | ReadDone nat error_code nat
  | WriteDone nat error_code
  | CallRuns nat nat

definition write_under_way :: "nat \<Rightarrow> server \<Rightarrow> bool" where
  "write_under_way k sv \<longleftrightarrow> (case sessions sv k of None \<Rightarrow> False | Some s \<Rightarrow> send_queue (session s) \<noteq> [])"

text \<open>A write completes only when one is under way; after a failed write the failed datum stays queued, and
  this admits more completions than the code has.\<close>

fun on_event :: "server_event \<Rightarrow> server \<Rightarrow> server outcome" where
  "on_event (Broadcast i stream type pkt) sv = Server.Send i stream type pkt sv"
| "on_event (Connects req) sv = DoSessionWebSocket (Some req) sv"
| "on_event (AcceptDone k ec) sv = Return (OnAccept k ec sv)"
| "on_event (ReadDone k ec n) sv = Return (OnRead k ec n sv)"
| "on_event (WriteDone k ec) sv = Return (if write_under_way k sv then OnWrite k ec sv else sv)"
| "on_event (CallRuns k n) sv = Return (run_posted k n sv)"

fun server_run :: "server_event list \<Rightarrow> server \<Rightarrow> server outcome" where
  "server_run [] sv = Return sv"
| "server_run (e # es) sv = bind_outcome (on_event e sv) (server_run es)"

section \<open>What is sent and what is on its way\<close>

definition encoded :: "cint \<times> av_packet \<Rightarrow> data" where
  "encoded tp = concat (packet_fields \<lparr>media = fst tp, packet = snd tp\<rparr>)"

text \<open>The packets of a stream, in the order of the calls of \<open>Send\<close>.\<close>

fun packets_of :: "string \<Rightarrow> server_event list \<Rightarrow> (cint \<times> av_packet) list" where
  "packets_of i [] = []"
| "packets_of i (Broadcast j stream type pkt # es) =
     (if j = i then [(type, pkt)] else []) @ packets_of i es"
| "packets_of i (_ # es) = packets_of i es"

lemma packets_of_append [simp]: "packets_of i (xs @ ys) = packets_of i xs @ packets_of i ys"
  by (induction xs rule: packets_of.induct) auto

text \<open>What is posted to a session and has not run.\<close>

definition messages_for :: "nat \<Rightarrow> (nat \<times> data) list \<Rightarrow> data list" where
  "messages_for k ps = map snd (filter (\<lambda>p. fst p = k) ps)"

lemma messages_for_append [simp]: "messages_for k (ps @ qs) = messages_for k ps @ messages_for k qs"
  by (simp add: messages_for_def)

lemma messages_for_posted:
  assumes "distinct ks"
  shows "messages_for k (map (\<lambda>j. (j, d)) ks) = (if k \<in> set ks then [d] else [])"
  using assms by (induction ks) (auto simp: messages_for_def)

lemma messages_for_none: "(\<And>j d. (j, d) \<in> set ps \<Longrightarrow> j \<noteq> k) \<Longrightarrow> messages_for k ps = []"
  by (fastforce simp: messages_for_def filter_empty_conv)

text \<open>Taking a call of a session off the posted ones.\<close>

lemma messages_for_take:
  assumes "take_nth (\<lambda>p. fst p = k) n ps = Some ((j, d), rest)"
  shows "j = k" "\<And>l. l \<noteq> k \<Longrightarrow> messages_for l rest = messages_for l ps"
    "\<exists>xs ys. messages_for k ps = xs @ d # ys \<and> messages_for k rest = xs @ ys \<and> length xs = n"
proof -
  obtain pre post where split: "ps = pre @ (j, d) # post" "rest = pre @ post" "j = k"
      "length (filter (\<lambda>p. fst p = k) pre) = n"
    using take_nth_split [OF assms] by auto
  then show "j = k" "\<And>l. l \<noteq> k \<Longrightarrow> messages_for l rest = messages_for l ps"
    by (auto simp: messages_for_def)
  show "\<exists>xs ys. messages_for k ps = xs @ d # ys \<and> messages_for k rest = xs @ ys \<and> length xs = n"
    using split by (intro exI [of _ "messages_for k pre"] exI [of _ "messages_for k post"]) (simp add: messages_for_def)
qed

text \<open>What a session has been given or will be given, once its posted calls have run.\<close>

definition waiting_for :: "nat \<Rightarrow> server \<Rightarrow> data list" where
  "waiting_for k sv = (case sessions sv k of None \<Rightarrow> [] | Some s \<Rightarrow> send_queue (session s)) @ messages_for k (posted sv)"

section \<open>One event\<close>

text \<open>The completions change a session and the room only; \<open>same_writer\<close>: they leave its writer alone.\<close>

definition same_writer :: "(data session \<Rightarrow> data session) \<Rightarrow> bool" where
  "same_writer f \<longleftrightarrow> (\<forall>s. send_queue (f s) = send_queue s \<and> written (f s) = written s)"

lemma session_ops_same_writer:
  "same_writer (session_OnAccept ec)" "same_writer (session_OnRead ec n)"
  "ec \<noteq> Success \<Longrightarrow> same_writer (session_OnWrite ec)"
  by (simp_all add: same_writer_def session_OnAccept_def session_OnRead_def session_DoRead_def session_defs)

lemma on_session_lookup:
  "sessions (on_session k f sv) j =
     (if j = k then map_option (\<lambda>s. s\<lparr>session := f (session s)\<rparr>) (sessions sv j) else sessions sv j)"
  "posted (on_session k f sv) = posted sv"
  by (auto simp: on_session_def split: option.splits)

lemma room_changes_keep:
  "sessions (session_opened k sv) = sessions sv" "posted (session_opened k sv) = posted sv"
  "sessions (session_failed k ec what sv) = sessions sv" "posted (session_failed k ec what sv) = posted sv"
  "next_session (session_opened k sv) = next_session sv" "next_session (session_failed k ec what sv) = next_session sv"
  by (auto simp: session_opened_def session_failed_def session_closed_def OnFail_def Let_def split: option.splits)

lemma completions_lookup:
  "sessions (OnAccept k ec sv) = sessions (on_session k (session_OnAccept ec) sv)"
  "sessions (OnRead k ec n sv) = sessions (on_session k (session_OnRead ec n) sv)"
  "sessions (OnWrite k ec sv) = sessions (on_session k (session_OnWrite ec) sv)"
  "posted (OnAccept k ec sv) = posted sv" "posted (OnRead k ec n sv) = posted sv" "posted (OnWrite k ec sv) = posted sv"
  "next_session (OnAccept k ec sv) = next_session sv" "next_session (OnRead k ec n sv) = next_session sv"
  "next_session (OnWrite k ec sv) = next_session sv"
  by (simp_all add: OnAccept_def OnRead_def OnWrite_def Let_def room_changes_keep on_session_lookup on_session_same)

text \<open>A server's event is a step of \<open>sstep\<close>, or nothing.\<close>

lemma on_event_step: "on_event e sv = Return sv' \<Longrightarrow> sstep sv sv' \<or> sv' = sv"
  by (cases e) (auto intro: sstep.intros)

text \<open>A request is refused, or makes a new session that has nothing to write.\<close>

lemma new_stream_session:
  "send_queue (session_Run (SetEventCallback e cb ((WsSession b n)\<lparr>silent_send := q\<rparr>))) = []"
  "written (session_Run (SetEventCallback e cb ((WsSession b n)\<lparr>silent_send := q\<rparr>))) = []"
  by (simp_all add: session_Run_def SetEventCallback_def conn_defs new_session)

lemma DoSessionWebSocket_cases:
  assumes "DoSessionWebSocket (Some req) sv = Return sv'"
  obtains (refused) "sv' = sv"
    | (granted) i c where "send_queue c = []" "written c = []"
        "sv' = sv\<lparr>sessions := (sessions sv)(next_session sv \<mapsto> \<lparr>session_id = i, session = c\<rparr>),
           next_session := Suc (next_session sv)\<rparr>"
proof -
  define i where "i = drop (length (ws_target_prefix (server_opts sv))) (target req)"
  define c :: "data session" where "c = session_Run (SetEventCallback NET_EVENT_FAIL (Some 0)
    ((WsSession True (max_queue (server_opts sv)))\<lparr>silent_send := True\<rparr>))"
  have "sv' = sv \<or> sv' = sv\<lparr>sessions := (sessions sv)(next_session sv \<mapsto> \<lparr>session_id = i, session = c\<rparr>),
           next_session := Suc (next_session sv)\<rparr>"
    using assms by (auto simp: DoSessionWebSocket_def Let_def i_def c_def split: if_splits)
  then show ?thesis using refused granted [of c i] new_stream_session unfolding c_def by blast
qed

text \<open>Which of the calls of a session may run.  The I/O threads take the calls in the order in which they were
  posted, so with \<open>t\<close> threads fewer than \<open>t\<close> calls are overtaken.\<close>

fun allowed :: "(nat \<Rightarrow> bool) \<Rightarrow> server_event \<Rightarrow> bool" where
  "allowed may_run (CallRuns k n) = may_run n"
| "allowed may_run _ = True"

definition within_threads :: "nat \<Rightarrow> server_event list \<Rightarrow> bool" where
  "within_threads t es \<longleftrightarrow> list_all (allowed (\<lambda>n. n < t)) es"

lemma within_one_thread: "within_threads 1 es \<longleftrightarrow> list_all (allowed (\<lambda>n. n = 0)) es"
  by (simp add: within_threads_def)

lemma allowed_any: "list_all (allowed (\<lambda>n. True)) es"
proof -
  have "allowed (\<lambda>n. True) e" for e by (cases e) simp_all
  then show ?thesis by (simp add: list_all_iff)
qed

lemma server_run_snoc: "server_run (es @ [e]) sv = bind_outcome (server_run es sv) (on_event e)"
proof (induction es arbitrary: sv)
  case Nil
  show ?case by (cases "on_event e sv") simp_all
next
  case (Cons d es)
  then show ?case by (cases "on_event d sv") simp_all
qed

text \<open>A posted call is gone, or it runs.\<close>

lemma run_posted_cases:
  obtains (idle) "run_posted k n sv = sv"
    | (run) d ps xs ys where "run_posted k n sv = on_session k (session_DoSend d) (sv\<lparr>posted := ps\<rparr>)"
        "messages_for k (posted sv) = xs @ d # ys" "messages_for k ps = xs @ ys" "length xs = n"
        "\<And>j. j \<noteq> k \<Longrightarrow> messages_for j ps = messages_for j (posted sv)" "set ps \<subseteq> set (posted sv)"
proof (cases "take_nth (\<lambda>p. fst p = k) n (posted sv)")
  case None
  then show ?thesis using idle by (simp add: run_posted_def)
next
  case (Some r)
  obtain j d ps where r: "r = ((j, d), ps)" by (metis prod.collapse)
  obtain xs ys where "messages_for k (posted sv) = xs @ d # ys" "messages_for k ps = xs @ ys" "length xs = n"
    using messages_for_take(3) [OF Some [unfolded r]] by blast
  then show ?thesis
    using run messages_for_take(2) [OF Some [unfolded r]] take_nth_set [OF Some [unfolded r]]
    by (simp add: run_posted_def Some r)
qed

text \<open>\<open>sends\<close> is what each stream sent and \<open>all\<close> what a session was given so far; they are related to what
  is still posted, and stay so when a packet is sent and when one of the calls in \<open>may_run\<close> runs.\<close>

locale delivery =
  fixes given :: "data list \<Rightarrow> data list \<Rightarrow> bool" and may_run :: "nat \<Rightarrow> bool"
  assumes given_none: "given [] ys"
    and given_sent: "given xs ys \<Longrightarrow> given (xs @ [d]) (ys @ [d])"
    and given_more: "given xs ys \<Longrightarrow> given xs (ys @ zs)"
    and given_run: "may_run (length xs) \<Longrightarrow> given (all @ xs @ d # ys) zs \<Longrightarrow> given (all @ d # xs @ ys) zs"
begin

definition served :: "(string \<Rightarrow> data list) \<Rightarrow> server \<Rightarrow> bool" where
  "served sends sv \<longleftrightarrow> rooms_ok sv \<and> (\<forall>k d. (k, d) \<in> set (posted sv) \<longrightarrow> k < next_session sv) \<and>
     (\<forall>k s. sessions sv k = Some s \<longrightarrow>
        (\<exists>all. session_writer.writing all (session s) \<and>
           given (all @ messages_for k (posted sv)) (sends (session_id s))))"

lemma servedE:
  assumes "served sends sv" "sessions sv k = Some s"
  obtains all where "session_writer.writing all (session s)"
    "given (all @ messages_for k (posted sv)) (sends (session_id s))"
  using assms unfolding served_def by blast

text \<open>Events that leave every writer and the posted calls alone.\<close>

lemma served_same_writer:
  assumes "served sends sv" "rooms_ok sv'" "posted sv' = posted sv" "next_session sv' = next_session sv"
    and "sessions sv' = sessions (on_session j f sv)" "same_writer f"
  shows "served sends sv'"
proof -
  have "\<exists>all. session_writer.writing all (session s') \<and> given (all @ messages_for k (posted sv')) (sends (session_id s'))"
    if k: "sessions sv' k = Some s'" for k s'
  proof -
    obtain s where s: "sessions sv k = Some s" "session_id s' = session_id s"
      "send_queue (session s') = send_queue (session s)" "written (session s') = written (session s)"
      using k assms(5,6) by (auto simp: on_session_lookup same_writer_def split: if_splits)
    obtain all where all: "session_writer.writing all (session s)"
        "given (all @ messages_for k (posted sv)) (sends (session_id s))"
      using assms(1) s(1) by (rule servedE)
    have "session_writer.writing all (session s')"
      using all(1) unfolding session_writer.writing_def s(3,4) .
    then show ?thesis using all(2) s(2) assms(3) by auto
  qed
  then show ?thesis using assms(1-4) by (simp add: served_def)
qed

text \<open>Events that change one session's writer, with what was posted to it.\<close>

lemma served_one_session:
  assumes served: "served sends sv" and ok: "rooms_ok sv'" and fresh: "next_session sv' = next_session sv"
    and posted: "set (posted sv') \<subseteq> set (posted sv)" "\<And>k. k \<noteq> j \<Longrightarrow> messages_for k (posted sv') = messages_for k (posted sv)"
    and sessions: "sessions sv' = sessions (on_session j f sv)"
    and step: "\<And>s all ys. sessions sv j = Some s \<Longrightarrow> session_writer.writing all (session s) \<Longrightarrow>
       given (all @ messages_for j (posted sv)) ys \<Longrightarrow>
       \<exists>all'. session_writer.writing all' (f (session s)) \<and> given (all' @ messages_for j (posted sv')) ys"
  shows "served sends sv'"
proof -
  have "\<exists>all. session_writer.writing all (session s') \<and> given (all @ messages_for k (posted sv')) (sends (session_id s'))"
    if k: "sessions sv' k = Some s'" for k s'
  proof (cases "k = j")
    case False
    then have "sessions sv k = Some s'" using k sessions by (simp add: on_session_lookup)
    with served obtain all where "session_writer.writing all (session s')"
      "given (all @ messages_for k (posted sv)) (sends (session_id s'))" by (rule servedE)
    then show ?thesis using posted(2) [OF False] by auto
  next
    case True
    then obtain s where s: "sessions sv j = Some s" "s' = s\<lparr>session := f (session s)\<rparr>"
      using k sessions by (auto simp: on_session_lookup)
    obtain all where all: "session_writer.writing all (session s)"
        "given (all @ messages_for j (posted sv)) (sends (session_id s))"
      using served s(1) by (rule servedE)
    then show ?thesis using step [OF s(1) all] s(2) True by auto
  qed
  moreover have "\<forall>k d. (k, d) \<in> set (posted sv') \<longrightarrow> k < next_session sv'"
    using served posted(1) fresh unfolding served_def by (metis subsetD)
  ultimately show ?thesis using ok unfolding served_def by blast
qed

lemma served_more:
  assumes "served sends sv" "\<And>i. prefix (sends i) (sends' i)"
  shows "served sends' sv"
proof -
  have "given xs (sends' i)" if "given xs (sends i)" for xs i
    using that assms(2) [of i] by (auto simp: prefix_def given_more)
  then show ?thesis using assms(1) unfolding served_def by blast
qed

lemma served_send:
  assumes served: "served sends sv" and send: "Server.Send i stream type pkt sv = Return sv'"
  shows "served (\<lambda>j. sends j @ (if j = i then [encoded (type, pkt)] else [])) sv'"
proof -
  obtain ks m where at: "room_at i (room sv) = (ks, m)" by (cases "room_at i (room sv)")
  have ok: "rooms_ok sv" using served by (simp add: served_def)
  have room: "distinct ks" "\<forall>k \<in> set ks. \<exists>s. sessions sv k = Some s \<and> session_id s = i"
    using rooms_ok_room_at [OF ok at] by blast+
  define d where "d = encoded (type, pkt)"
  have sv': "sv' = sv\<lparr>stream_map := (stream_map sv)(i \<mapsto> stream), room := m, posted := posted sv @ map (\<lambda>k. (k, d)) ks\<rparr>"
    using send by (simp add: Send_eq at d_def encoded_def)
  have "k < next_session sv" if "k \<in> set ks" for k
    using room(2) that ok unfolding rooms_ok_def by blast
  then have keys: "\<forall>k e. (k, e) \<in> set (posted sv') \<longrightarrow> k < next_session sv'"
    using served by (auto simp: served_def sv')
  have "\<exists>all. session_writer.writing all (session s) \<and>
      given (all @ messages_for k (posted sv')) (sends (session_id s) @ (if session_id s = i then [d] else []))"
    if k: "sessions sv' k = Some s" for k s
  proof -
    have "sessions sv k = Some s" using k by (simp add: sv')
    with served obtain all where all: "session_writer.writing all (session s)"
      "given (all @ messages_for k (posted sv)) (sends (session_id s))" by (rule servedE)
    have "k \<in> set ks \<Longrightarrow> session_id s = i" using room(2) \<open>sessions sv k = Some s\<close> by force
    then have "given ((all @ messages_for k (posted sv)) @ (if k \<in> set ks then [d] else []))
        (sends (session_id s) @ (if session_id s = i then [d] else []))"
      using given_sent [OF all(2), of d] given_more [OF all(2)] all(2) by auto
    then show ?thesis using all(1) by (auto simp: sv' messages_for_posted [OF room(1)])
  qed
  moreover have "rooms_ok sv'" using rooms_ok_step [OF sstep.send [OF send] ok] .
  ultimately show ?thesis using keys unfolding served_def d_def by blast
qed

lemma served_connect:
  assumes served: "served sends sv" and connect: "DoSessionWebSocket (Some req) sv = Return sv'"
  shows "served sends sv'"
proof -
  have ok': "rooms_ok sv'" using rooms_ok_step [OF sstep.connect [OF connect]] served by (simp add: served_def)
  show ?thesis
  using connect
  proof (cases rule: DoSessionWebSocket_cases)
    case (granted i c)
    have "messages_for (next_session sv) (posted sv) = []"
      using served by (intro messages_for_none) (auto simp: served_def)
    then have "\<exists>all. session_writer.writing all (session s) \<and> given (all @ messages_for k (posted sv')) (sends (session_id s))"
      if "sessions sv' k = Some s" for k s
      using that served granted by (cases "k = next_session sv") (auto simp: served_def session_writer.writing_def intro: given_none)
    moreover have "\<forall>k d. (k, d) \<in> set (posted sv') \<longrightarrow> k < next_session sv'"
      using served granted(3) by (auto simp: served_def less_SucI)
    ultimately show ?thesis using ok' unfolding served_def by blast
  qed (use served in simp)
qed

lemma served_wrote:
  assumes "served sends sv" "write_under_way k sv"
  shows "served sends (OnWrite k ec sv)"
proof -
  have ok': "rooms_ok (OnWrite k ec sv)" using assms(1) rooms_ok_step [OF sstep.wrote] by (simp add: served_def)
  show ?thesis
  proof (cases "ec = Success")
    case False
    then show ?thesis
      by (intro served_same_writer [OF assms(1) ok' _ _ completions_lookup(3)] session_ops_same_writer)
        (simp_all add: completions_lookup)
  next
    case True
    show ?thesis
    proof (rule served_one_session [OF assms(1) ok' _ _ _ completions_lookup(3)])
      fix s all ys
      assume given: "given (all @ messages_for k (posted sv)) ys"
      assume "sessions sv k = Some s" "session_writer.writing all (session s)"
      then have "session_writer.writing all (session_OnWrite ec (session s))"
        using assms(2) session_writer.writing_complete [of all "session s"] True by (simp add: write_under_way_def)
      then show "\<exists>all'. session_writer.writing all' (session_OnWrite ec (session s)) \<and>
          given (all' @ messages_for k (posted (OnWrite k ec sv))) ys"
        using given by (auto simp: completions_lookup)
    qed (simp_all add: completions_lookup)
  qed
qed

lemma served_call:
  assumes served: "served sends sv" and may: "may_run n"
  shows "served sends (run_posted k n sv)"
proof -
  have ok': "rooms_ok (run_posted k n sv)" using served rooms_ok_step [OF sstep.posted_call] by (simp add: served_def)
  show ?thesis
  proof (cases rule: run_posted_cases [of k n sv])
    case (run d ps xs ys)
    show ?thesis
    proof (rule served_one_session [OF served ok', where j = k and f = "session_DoSend d"])
      fix s all zs
      assume "given (all @ messages_for k (posted sv)) zs"
      then have "given (all @ d # messages_for k ps) zs" using given_run [of xs all d ys zs] may run(2-4) by simp
      moreover assume "session_writer.writing all (session s)"
      then have "session_writer.writing (all @ [d]) (session_DoSend d (session s))"
        by (rule session_writer.writing_send)
      ultimately show "\<exists>all'. session_writer.writing all' (session_DoSend d (session s)) \<and>
          given (all' @ messages_for k (posted (run_posted k n sv))) zs"
        using run(1) by (intro exI [of _ "all @ [d]"]) (simp add: on_session_lookup)
    qed (use run in \<open>auto simp: on_session_lookup on_session_same on_session_def split: option.splits\<close>)
  qed (use served in simp)
qed

lemma served_event:
  assumes served: "served (\<lambda>i. map encoded (packets_of i es)) sv" and e: "on_event e sv = Return sv'"
    and may: "allowed may_run e"
  shows "served (\<lambda>i. map encoded (packets_of i (es @ [e]))) sv'"
proof -
  have ok: "rooms_ok sv" using served by (simp add: served_def)
  have more: "served (\<lambda>i. map encoded (packets_of i (es @ [e]))) sv'"
    if "served (\<lambda>i. map encoded (packets_of i es)) sv'"
    using that by (rule served_more) simp
  show ?thesis
  proof (cases e)
    case (Broadcast i stream type pkt)
    then have eq: "(\<lambda>j. map encoded (packets_of j (es @ [e]))) =
        (\<lambda>j. map encoded (packets_of j es) @ (if j = i then [encoded (type, pkt)] else []))" by auto
    show ?thesis unfolding eq using served e Broadcast by (intro served_send [where sv = sv]) auto
  next
    case (AcceptDone k ec)
    have "served (\<lambda>i. map encoded (packets_of i es)) (OnAccept k ec sv)"
      by (intro served_same_writer [OF served _ _ _ completions_lookup(1)] session_ops_same_writer
          rooms_ok_step [OF sstep.accepted ok]) (simp_all add: completions_lookup)
    then show ?thesis using more e AcceptDone by simp
  next
    case (ReadDone k ec n)
    have "served (\<lambda>i. map encoded (packets_of i es)) (OnRead k ec n sv)"
      by (intro served_same_writer [OF served _ _ _ completions_lookup(2)] session_ops_same_writer
          rooms_ok_step [OF sstep.read ok]) (simp_all add: completions_lookup)
    then show ?thesis using more e ReadDone by simp
  qed (use more served served_connect served_wrote served_call e may in \<open>auto split: if_splits\<close>)
qed

lemma served_run:
  assumes "server_run es (WsStreamServer opts) = Return sv" "list_all (allowed may_run) es"
  shows "served (\<lambda>i. map encoded (packets_of i es)) sv"
  using assms
proof (induction es arbitrary: sv rule: rev_induct)
  case Nil
  then show ?case by (auto simp: served_def rooms_ok_def WsStreamServer_def)
next
  case (snoc e es)
  then obtain sv1 where "server_run es (WsStreamServer opts) = Return sv1" "on_event e sv1 = Return sv"
    by (auto simp: server_run_snoc bind_outcome_eq_Return)
  then show ?case using snoc served_event by auto
qed

text \<open>What was written, is queued behind the write under way and is posted, against what was given.\<close>

lemma served_delivered:
  assumes "server_run es (WsStreamServer opts) = Return sv" "list_all (allowed may_run) es" "sessions sv k = Some s"
  shows "\<exists>all. subseq (written (session s) @ tl (send_queue (session s)) @ messages_for k (posted sv)) all \<and>
    given all (map encoded (packets_of (session_id s) es))"
proof -
  obtain all where all: "session_writer.writing all (session s)"
      "given (all @ messages_for k (posted sv)) (map encoded (packets_of (session_id s) es))"
    using served_run [OF assms(1,2)] assms(3) by (rule servedE)
  have "subseq (written (session s) @ tl (send_queue (session s))) all"
  proof (cases "send_queue (session s)")
    case (Cons d q)
    then obtain out old where "all = out @ d # q" "written (session s) = old @ [d]" "subseq old out"
      using all(1) by (auto simp: session_writer.writing_def)
    then show ?thesis using Cons by (auto intro!: list_emb_append_mono)
  qed (use all(1) in \<open>auto simp: session_writer.writing_def\<close>)
  then have "subseq ((written (session s) @ tl (send_queue (session s))) @ messages_for k (posted sv)) (all @ messages_for k (posted sv))"
    by (rule list_emb_append_mono) simp
  then show ?thesis using all(2) by auto
qed

end

section \<open>In order, and each once\<close>

text \<open>With one I/O thread the calls posted to a session run in order; with any number of threads they are
  still run once each.\<close>

definition in_order :: "data list \<Rightarrow> data list \<Rightarrow> bool" where
  "in_order xs ys \<longleftrightarrow> subseq xs ys"

definition each_once :: "data list \<Rightarrow> data list \<Rightarrow> bool" where
  "each_once xs ys \<longleftrightarrow> mset xs \<subseteq># mset ys"

interpretation one_thread: delivery in_order "\<lambda>n. n = 0"
proof
  fix xs ys d and all zs :: "data list"
  show "in_order [] ys" by (simp add: in_order_def)
  show "in_order xs ys \<Longrightarrow> in_order (xs @ [d]) (ys @ [d])" by (simp add: in_order_def)
  show "in_order xs ys \<Longrightarrow> in_order xs (ys @ zs)" by (simp add: in_order_def list_emb_prefix)
  show "length xs = 0 \<Longrightarrow> in_order (all @ xs @ d # ys) zs \<Longrightarrow> in_order (all @ d # xs @ ys) zs" by simp
qed

interpretation any_threads: delivery each_once "\<lambda>n. True"
proof
  fix xs ys d and all zs :: "data list"
  show "each_once [] ys" by (simp add: each_once_def)
  show "each_once xs ys \<Longrightarrow> each_once (xs @ [d]) (ys @ [d])" by (simp add: each_once_def)
  show "each_once xs ys \<Longrightarrow> each_once xs (ys @ zs)" by (simp add: each_once_def subset_mset.add_increasing2)
  show "True \<Longrightarrow> each_once (all @ xs @ d # ys) zs \<Longrightarrow> each_once (all @ d # xs @ ys) zs" by (simp add: each_once_def)
qed

lemma written_in_order:
  assumes "server_run es (WsStreamServer opts) = Return sv" and "within_threads 1 es" and "sessions sv k = Some s"
  shows "subseq (written (session s)) (map encoded (packets_of (session_id s) es))"
proof -
  obtain all where all: "subseq (written (session s) @ tl (send_queue (session s)) @ messages_for k (posted sv)) all"
      "in_order all (map encoded (packets_of (session_id s) es))"
    using one_thread.served_delivered [OF assms(1) assms(2) [unfolded within_one_thread] assms(3)] by blast
  have "subseq (written (session s)) (written (session s) @ tl (send_queue (session s)) @ messages_for k (posted sv))"
    by (simp add: list_emb_prefix)
  then show ?thesis using all unfolding in_order_def by (blast intro: subseq_order.trans)
qed

lemma subseq_mset: "subseq xs ys \<Longrightarrow> mset xs \<subseteq># mset ys"
  by (induction rule: list_emb.induct) (auto simp: subset_mset.trans)

section \<open>While a session is in its room\<close>

fun fails_session :: "nat \<Rightarrow> server_event \<Rightarrow> bool" where
  "fails_session k (AcceptDone j ec) \<longleftrightarrow> j = k \<and> ec \<noteq> Success"
| "fails_session k (ReadDone j ec n) \<longleftrightarrow> j = k \<and> ec \<noteq> Success"
| "fails_session k (WriteDone j ec) \<longleftrightarrow> j = k \<and> ec \<noteq> Success"
| "fails_session k _ \<longleftrightarrow> False"

definition in_room :: "nat \<Rightarrow> string \<Rightarrow> server \<Rightarrow> bool" where
  "in_room k i sv \<longleftrightarrow> (case room sv i of None \<Rightarrow> False | Some ks \<Rightarrow> k \<in> set ks)"

lemma in_room_cong: "room sv' = room sv \<Longrightarrow> in_room k i sv' = in_room k i sv"
  by (simp add: in_room_def)

lemma in_room_kept:
  "in_room k i sv \<Longrightarrow> in_room k i (session_opened j sv)"
  "in_room k i sv \<Longrightarrow> j \<noteq> k \<Longrightarrow> in_room k i (session_failed j ec what sv)"
  by (auto simp: in_room_def session_opened_def session_failed_def session_closed_def OnFail_def room_Join_def room_Leave_def
      room_at_def Let_def split: option.splits)

lemma in_room_on_session: "in_room k i (on_session j f sv) = in_room k i sv"
  by (rule in_room_cong) (rule on_session_same)

lemma in_room_completions:
  assumes "in_room k i sv" "j \<noteq> k \<or> ec = Success"
  shows "in_room k i (OnAccept j ec sv)" "in_room k i (OnRead j ec n sv)" "in_room k i (OnWrite j ec sv)"
  using assms by (auto simp: OnAccept_def OnRead_def OnWrite_def Let_def in_room_on_session intro: in_room_kept)

lemma in_room_event:
  assumes "rooms_ok sv" "in_room k i sv" "on_event e sv = Return sv'" "\<not> fails_session k e"
  shows "in_room k i sv'"
proof (cases e)
  case (Broadcast j stream type pkt)
  then show ?thesis
    using assms(2,3) by (auto simp: Send_eq in_room_def room_at_def split: option.splits if_splits)
next
  case (Connects req)
  then have "DoSessionWebSocket (Some req) sv = Return sv'" using assms(3) by simp
  then show ?thesis by (cases rule: DoSessionWebSocket_cases) (use assms(2) in \<open>auto simp: in_room_def\<close>)
next
  case (CallRuns j n)
  then have "room sv' = room sv"
    using assms(3) by (auto simp: run_posted_def on_session_same split: option.splits)
  then show ?thesis using assms(2) in_room_cong [of sv' sv k i] by blast
qed (use assms(2-4) in_room_completions in \<open>auto split: if_splits\<close>)

lemma waiting_for_on_session:
  assumes "sessions sv k = Some s" "sessions sv' = sessions (on_session j f sv)" "posted sv' = posted sv"
  shows "waiting_for k sv' = (if j = k then send_queue (f (session s)) else send_queue (session s)) @ messages_for k (posted sv)"
  using assms by (simp add: waiting_for_def on_session_lookup)

lemma session_OnWrite_suffix: "suffix (send_queue (session_OnWrite Success s)) (send_queue s)"
proof (cases "send_queue s")
  case (Cons d q)
  then show ?thesis using session_writer.queue_complete [of s] by (auto intro: suffix_ConsI)
qed (simp add: session_defs)

lemma waiting_for_event:
  assumes ok: "rooms_ok sv" and s: "sessions sv k = Some s" "session_id s = i" and room: "in_room k i sv"
    and e: "on_event e sv = Return sv'" and fine: "\<not> fails_session k e" and serial: "allowed (\<lambda>n. n = 0) e"
  shows "suffix (waiting_for k sv') (waiting_for k sv @ map encoded (packets_of i [e]))"
proof (cases e)
  case (Broadcast j stream type pkt)
  obtain ks m where at: "room_at j (room sv) = (ks, m)" by (cases "room_at j (room sv)")
  have ks: "distinct ks" "k \<in> set ks \<longleftrightarrow> j = i"
    using rooms_ok_room_at(2,3) [OF ok at] s room at
    by (auto simp: in_room_def room_at_def split: option.splits)
  then have "waiting_for k sv' = waiting_for k sv @ map encoded (packets_of i [e])"
    using e Broadcast by (auto simp: Send_eq at waiting_for_def messages_for_posted encoded_def split: option.splits)
  then show ?thesis by simp
next
  case (Connects req)
  then have "DoSessionWebSocket (Some req) sv = Return sv'" using e by simp
  moreover have "k \<noteq> next_session sv" using ok s(1) by (auto simp: rooms_ok_def)
  ultimately show ?thesis
    using Connects by (cases rule: DoSessionWebSocket_cases) (simp_all add: waiting_for_def)
next
  case (AcceptDone j ec)
  then show ?thesis
    using e s waiting_for_on_session [OF s(1) completions_lookup(1,4)] session_ops_same_writer(1)
    by (auto simp: waiting_for_def same_writer_def)
next
  case (ReadDone j ec n)
  then show ?thesis
    using e s waiting_for_on_session [OF s(1) completions_lookup(2,5)] session_ops_same_writer(2)
    by (auto simp: waiting_for_def same_writer_def)
next
  case (WriteDone j ec)
  then show ?thesis
    using e s fine waiting_for_on_session [OF s(1) completions_lookup(3,6), of j ec] session_OnWrite_suffix
    by (auto simp: waiting_for_def split: if_splits)
next
  case (CallRuns j n)
  then have sv': "sv' = run_posted j n sv" using e by simp
  have "waiting_for k sv' = waiting_for k sv"
  proof (cases rule: run_posted_cases [of j n sv])
    case (run d ps xs ys)
    moreover from this have "xs = []" using serial CallRuns by simp
    ultimately show ?thesis
      using s sv' by (cases "j = k") (simp_all add: waiting_for_def on_session_lookup session_writer.queue_send)
  qed (simp add: sv')
  then show ?thesis using CallRuns by simp
qed

lemma session_id_event:
  assumes "rooms_ok sv" "sessions sv k = Some s" "on_event e sv = Return sv'"
  shows "\<exists>s'. sessions sv' k = Some s' \<and> session_id s' = session_id s"
proof (cases e)
  case (Connects req)
  then have "DoSessionWebSocket (Some req) sv = Return sv'" using assms(3) by simp
  moreover have "k \<noteq> next_session sv" using assms(1,2) by (auto simp: rooms_ok_def)
  ultimately show ?thesis using assms(2) by (cases rule: DoSessionWebSocket_cases) simp_all
next
  case (CallRuns j n)
  then show ?thesis
    using assms by (auto simp: run_posted_def on_session_lookup split: option.splits)
qed (use assms in \<open>auto simp: Send_eq completions_lookup on_session_lookup split: prod.splits if_splits\<close>)

lemma waiting_for_run:
  assumes "rooms_ok sv" "sessions sv k = Some s" "session_id s = i" "in_room k i sv"
    and "server_run es sv = Return sv'" "list_all (\<lambda>e. \<not> fails_session k e) es" "list_all (allowed (\<lambda>n. n = 0)) es"
  shows "suffix (waiting_for k sv') (waiting_for k sv @ map encoded (packets_of i es))"
  using assms
proof (induction es arbitrary: sv s)
  case (Cons e es)
  obtain sv1 where e: "on_event e sv = Return sv1" and es: "server_run es sv1 = Return sv'"
    using Cons.prems(5) by (auto simp: bind_outcome_eq_Return)
  obtain s1 where s1: "sessions sv1 k = Some s1" "session_id s1 = i"
    using session_id_event [OF Cons.prems(1,2) e] Cons.prems(3) by auto
  have "rooms_ok sv1" using on_event_step [OF e] rooms_ok_step Cons.prems(1) by blast
  moreover have "in_room k i sv1" using in_room_event [OF Cons.prems(1,4) e] Cons.prems(6) by simp
  ultimately have "suffix (waiting_for k sv') (waiting_for k sv1 @ map encoded (packets_of i es))"
    using Cons.IH [OF _ s1 _ es] Cons.prems(6,7) by simp
  moreover have "suffix (waiting_for k sv1) (waiting_for k sv @ map encoded (packets_of i [e]))"
    using waiting_for_event [OF Cons.prems(1-4) e] Cons.prems(6,7) by simp
  ultimately have "suffix (waiting_for k sv') (waiting_for k sv @ map encoded (packets_of i [e] @ packets_of i es))"
    by (simp add: suffix_def) (metis append.assoc)
  then show ?case by (simp flip: packets_of_append)
qed simp

section \<open>A session that keeps up\<close>

text \<open>What a session was given so far: what it has written (the front of its queue is the last of it), what is queued
  behind the write under way and what is posted to it.\<close>

definition given_to :: "nat \<Rightarrow> server \<Rightarrow> data list" where
  "given_to k sv = (case sessions sv k of None \<Rightarrow> [] | Some s \<Rightarrow> written (session s) @ tl (send_queue (session s))) @
     messages_for k (posted sv)"

text \<open>When a write completes, more data than the session's maximum is queued behind it: the oldest are about to be
  dropped.\<close>

fun overflows :: "nat \<Rightarrow> server_event \<Rightarrow> server \<Rightarrow> bool" where
  "overflows k (WriteDone j ec) sv \<longleftrightarrow> j = k \<and>
     (case sessions sv k of None \<Rightarrow> False
      | Some s \<Rightarrow> send_queue_max_size (session s) < length (tl (send_queue (session s))))"
| "overflows k _ sv \<longleftrightarrow> False"

text \<open>In the run \<open>es\<close> from \<open>sv\<close> the session never falls behind so far.\<close>

fun keeps_up :: "nat \<Rightarrow> server_event list \<Rightarrow> server \<Rightarrow> bool" where
  "keeps_up k [] sv \<longleftrightarrow> True"
| "keeps_up k (e # es) sv \<longleftrightarrow> \<not> overflows k e sv \<and>
     (case on_event e sv of Return sv' \<Rightarrow> keeps_up k es sv' | _ \<Rightarrow> True)"

lemma given_to_on_session:
  assumes "sessions sv k = Some s" "sessions sv' = sessions (on_session j f sv)" "posted sv' = posted sv"
  shows "given_to k sv' = (if j = k then written (f (session s)) @ tl (send_queue (f (session s)))
    else written (session s) @ tl (send_queue (session s))) @ messages_for k (posted sv)"
  using assms by (simp add: given_to_def on_session_lookup)

lemma session_OnWrite_keeps:
  assumes "send_queue s \<noteq> []" "length (tl (send_queue s)) \<le> send_queue_max_size s"
  shows "written (session_OnWrite Success s) @ tl (send_queue (session_OnWrite Success s)) = written s @ tl (send_queue s)"
  using assms by (cases "tl (send_queue s)") (simp_all add: session_defs)

text \<open>A write that fits completes without loss: what a session was given grows by exactly what is sent to its stream.\<close>

lemma given_to_event:
  assumes ok: "rooms_ok sv" and s: "sessions sv k = Some s" "session_id s = i" and room: "in_room k i sv"
    and e: "on_event e sv = Return sv'" and fine: "\<not> fails_session k e" "\<not> overflows k e sv"
    and serial: "allowed (\<lambda>n. n = 0) e"
  shows "given_to k sv' = given_to k sv @ map encoded (packets_of i [e])"
proof (cases e)
  case (Broadcast j stream type pkt)
  obtain ks m where at: "room_at j (room sv) = (ks, m)" by (cases "room_at j (room sv)")
  have ks: "distinct ks" "k \<in> set ks \<longleftrightarrow> j = i"
    using rooms_ok_room_at(2,3) [OF ok at] s room at
    by (auto simp: in_room_def room_at_def split: option.splits)
  then show ?thesis
    using e Broadcast by (auto simp: Send_eq at given_to_def messages_for_posted encoded_def split: option.splits)
next
  case (Connects req)
  then have "DoSessionWebSocket (Some req) sv = Return sv'" using e by simp
  moreover have "k \<noteq> next_session sv" using ok s(1) by (auto simp: rooms_ok_def)
  ultimately show ?thesis
    using Connects by (cases rule: DoSessionWebSocket_cases) (simp_all add: given_to_def)
next
  case (AcceptDone j ec)
  then show ?thesis
    using e s given_to_on_session [OF s(1) completions_lookup(1,4)] session_ops_same_writer(1)
    by (auto simp: given_to_def same_writer_def)
next
  case (ReadDone j ec n)
  then show ?thesis
    using e s given_to_on_session [OF s(1) completions_lookup(2,5)] session_ops_same_writer(2)
    by (auto simp: given_to_def same_writer_def)
next
  case (WriteDone j ec)
  show ?thesis
  proof (cases "j = k \<and> send_queue (session s) \<noteq> []")
    case True
    then have "ec = Success" "sv' = OnWrite k ec sv" using e fine(1) WriteDone s(1) by (auto simp: write_under_way_def)
    moreover have "length (tl (send_queue (session s))) \<le> send_queue_max_size (session s)"
      using fine(2) WriteDone True s(1) by simp
    ultimately show ?thesis
      using WriteDone True s given_to_on_session [OF s(1) completions_lookup(3,6), of k ec]
        session_OnWrite_keeps [of "session s"] by (simp add: given_to_def)
  next
    case False
    then show ?thesis
      using e WriteDone s given_to_on_session [OF s(1) completions_lookup(3,6), of j ec]
      by (auto simp: write_under_way_def given_to_def split: if_splits)
  qed
next
  case (CallRuns j n)
  then have sv': "sv' = run_posted j n sv" using e by simp
  have "given_to k sv' = given_to k sv"
  proof (cases rule: run_posted_cases [of j n sv])
    case (run d ps xs ys)
    moreover from this have "xs = []" using serial CallRuns by simp
    moreover have "written (session_DoSend d c) @ tl (send_queue (session_DoSend d c)) = written c @ tl (send_queue c) @ [d]" for c
      by (cases "send_queue c") (simp_all add: session_writer.queue_send session_writer.started_send)
    ultimately show ?thesis
      using s sv' by (cases "j = k") (simp_all add: given_to_def on_session_lookup)
  qed (simp add: sv')
  then show ?thesis using CallRuns by simp
qed

lemma given_to_run:
  assumes "rooms_ok sv" "sessions sv k = Some s" "session_id s = i" "in_room k i sv"
    and "server_run es sv = Return sv'" "list_all (\<lambda>e. \<not> fails_session k e) es" "keeps_up k es sv"
    and "list_all (allowed (\<lambda>n. n = 0)) es"
  shows "given_to k sv' = given_to k sv @ map encoded (packets_of i es)"
  using assms
proof (induction es arbitrary: sv s)
  case (Cons e es)
  obtain sv1 where e: "on_event e sv = Return sv1" and es: "server_run es sv1 = Return sv'"
    using Cons.prems(5) by (auto simp: bind_outcome_eq_Return)
  obtain s1 where s1: "sessions sv1 k = Some s1" "session_id s1 = i"
    using session_id_event [OF Cons.prems(1,2) e] Cons.prems(3) by auto
  have "rooms_ok sv1" using on_event_step [OF e] rooms_ok_step Cons.prems(1) by blast
  moreover have "in_room k i sv1" using in_room_event [OF Cons.prems(1,4) e] Cons.prems(6) by simp
  ultimately have "given_to k sv' = given_to k sv1 @ map encoded (packets_of i es)"
    using Cons.IH [OF _ s1 _ es] Cons.prems(6-8) e by simp
  moreover have "given_to k sv1 = given_to k sv @ map encoded (packets_of i [e])"
    using given_to_event [OF Cons.prems(1-4) e] Cons.prems(6-8) by simp
  moreover have "packets_of i (e # es) = packets_of i [e] @ packets_of i es"
    using packets_of_append [of i "[e]" es] by simp
  ultimately show ?case by simp
qed simp

section \<open>Properties\<close>

text \<open>A run that joins session 0 to the stream \<open>i\<close> of a new server, whatever its options.\<close>

definition joining :: "server_options \<Rightarrow> http_request \<Rightarrow> string \<Rightarrow> nat \<Rightarrow> cint \<times> av_packet \<Rightarrow> server_event list" where
  "joining opts req i x tp = [Broadcast i x (fst tp) (snd tp), Connects (req\<lparr>target := ws_target_prefix opts @ i\<rparr>),
     AcceptDone 0 Success]"

lemma joining_runs:
  obtains sv c where "server_run (joining opts req i x tp) (WsStreamServer opts) = Return sv"
    "sessions sv = [0 \<mapsto> \<lparr>session_id = i, session = c\<rparr>]" "room sv = [i \<mapsto> [0]]" "posted sv = []"
    "send_queue c = []" "written c = []" "send_queue_max_size c = max 1 (max_queue opts)" "silent_send c"
proof -
  define c0 :: "data session" where "c0 = session_Run (SetEventCallback NET_EVENT_FAIL (Some 0)
    ((WsSession True (max_queue opts))\<lparr>silent_send := True\<rparr>))"
  have c0: "send_queue c0 = []" "written c0 = []" "send_queue_max_size c0 = max 1 (max_queue opts)" "silent_send c0"
    by (simp_all add: c0_def session_Run_def SetEventCallback_def conn_defs new_session)
  define sv where "sv = \<lparr>server_opts = opts, room = [i \<mapsto> []], stream_map = [i \<mapsto> x], sessions = [0 \<mapsto> \<lparr>session_id = i, session = c0\<rparr>],
    next_session = 1, posted = [], fails = []\<rparr>"
  have "server_run (joining opts req i x tp) (WsStreamServer opts) = Return (OnAccept 0 Success sv)"
    by (simp add: joining_def Send_eq room_at_def WsStreamServer_def DoSessionWebSocket_def starts_with_def sv_def Let_def c0_def)
  moreover have "sessions (OnAccept 0 Success sv) = [0 \<mapsto> \<lparr>session_id = i, session = session_OnAccept Success c0\<rparr>]"
    "room (OnAccept 0 Success sv) = [i \<mapsto> [0]]" "posted (OnAccept 0 Success sv) = []"
    by (simp_all add: OnAccept_def sv_def session_opened_def on_session_def room_Join_def room_at_def)
  ultimately show ?thesis
    by (rule that) (simp_all add: c0 session_OnAccept_def session_DoRead_def conn_defs)
qed

definition sample_joining :: "server_event list" where
  "sample_joining = joining sample_server_options (sample_request Get) ''a'' 7 (0, packet sample_data)"

definition sample_sending :: "server_event list" where
  "sample_sending = [Broadcast ''b'' 8 0 (packet sample_data), Broadcast ''a'' 7 0 (packet sample_data), CallRuns 0 0,
     Broadcast ''a'' 7 1 (packet sample_data)]"

lemmas running_simps = Send_eq room_at_def messages_for_def encoded_def run_posted_def on_session_def
  session_DoSend_def session_DoWrite_def conn_defs

lemma sample_server_runs:
  "\<exists>sv s. server_run sample_joining (WsStreamServer sample_server_options) = Return sv \<and>
     sessions sv 0 = Some s \<and> session_id s = ''a'' \<and> in_room 0 ''a'' sv \<and> posted sv = []"
  unfolding sample_joining_def
  by (rule joining_runs [of sample_server_options "sample_request Get" "''a''" 7 "(0, packet sample_data)"])
    (simp add: in_room_def)

lemma server_run_append: "server_run (es @ fs) sv = bind_outcome (server_run es sv) (server_run fs)"
proof (induction es arbitrary: sv)
  case (Cons e es)
  then show ?case by (cases "on_event e sv") simp_all
qed simp

lemma sample_server_delivers:
  "\<exists>sv s. server_run (sample_joining @ sample_sending) (WsStreamServer sample_server_options) = Return sv \<and>
     sessions sv 0 = Some s \<and> session_id s = ''a''"
proof -
  obtain sv c where "server_run sample_joining (WsStreamServer sample_server_options) = Return sv"
    and sv: "sessions sv = [0 \<mapsto> \<lparr>session_id = ''a'', session = c\<rparr>]" "room sv = [''a'' \<mapsto> [0]]" "posted sv = []"
      "send_queue c = []" "silent_send c"
    unfolding sample_joining_def by (rule joining_runs)
  moreover have "\<exists>sv' s. server_run sample_sending sv = Return sv' \<and> sessions sv' 0 = Some s \<and> session_id s = ''a''"
    using sv by (simp add: sample_sending_def running_simps)
  ultimately show ?thesis unfolding server_run_append by simp
qed

lemma sample_within: "within_threads 1 sample_joining" "within_threads 1 sample_sending"
  by (simp_all add: within_threads_def sample_joining_def joining_def sample_sending_def)

text \<open>C4.  Delivery.  In every run of the server, with any number of I/O threads and whatever the order of the
  broadcasts, the connections and the completions (failed ones included): what a session has written,
  with what is queued behind the write under way and what is posted to it, are packets sent on the
  session's own stream, each at most as often as it was sent.  With one I/O thread they are moreover in
  the order in which they were sent.\<close>

theorem sessions_deliver_their_stream:
  assumes "server_run es (WsStreamServer opts) = Return sv" and "sessions sv k = Some s"
  shows "let got = written (session s) @ tl (send_queue (session s)) @ messages_for k (posted sv);
             sent = map encoded (packets_of (session_id s) es) in
    mset got \<subseteq># mset sent \<and> (\<not> within_threads 1 es \<or> subseq got sent)"
proof -
  let ?got = "written (session s) @ tl (send_queue (session s)) @ messages_for k (posted sv)"
  let ?sent = "map encoded (packets_of (session_id s) es)"
  have "mset ?got \<subseteq># mset ?sent"
  proof -
    obtain all where "subseq ?got all" "each_once all ?sent"
      using any_threads.served_delivered [OF assms(1) allowed_any assms(2)] by blast
    then show ?thesis unfolding each_once_def using subseq_mset subset_mset.trans by blast
  qed
  moreover have "subseq ?got ?sent" if one: "within_threads 1 es"
  proof -
    obtain all where "subseq ?got all" "in_order all ?sent"
      using one_thread.served_delivered [OF assms(1) one [unfolded within_one_thread] assms(2)] by blast
    then show ?thesis unfolding in_order_def by (rule subseq_order.trans)
  qed
  ultimately show ?thesis unfolding Let_def by blast
qed

theorem sessions_deliver_their_stream_witness:
  "\<exists>sv s. server_run (sample_joining @ sample_sending) (WsStreamServer sample_server_options) = Return sv \<and>
     sessions sv 0 = Some s \<and>
     (let got = written (session s) @ tl (send_queue (session s)) @ messages_for 0 (posted sv);
          sent = map encoded (packets_of (session_id s) (sample_joining @ sample_sending)) in
      mset got \<subseteq># mset sent \<and> subseq got sent)"
proof -
  obtain sv s where sv: "server_run (sample_joining @ sample_sending) (WsStreamServer sample_server_options) = Return sv"
    "sessions sv 0 = Some s"
    using sample_server_delivers by blast
  have "within_threads 1 (sample_joining @ sample_sending)" using sample_within by (simp add: within_threads_def)
  then show ?thesis using sv sessions_deliver_their_stream [OF sv] unfolding Let_def by blast
qed

text \<open>C14.  The newest packets are kept.  With one I/O thread, from any state the server reaches with session
  \<open>k\<close> in the room of its stream, as long as no operation of the session fails, what is still to be written
  to the client (its queue and the calls posted to it) is always a tail of what was to be written followed
  by every packet sent on the stream since: no packet is passed over, and only the oldest leave.\<close>

theorem sessions_keep_the_newest_packets:
  assumes "server_run es (WsStreamServer opts) = Return sv" and "within_threads 1 (es @ fs)"
    and "sessions sv k = Some s" and "in_room k (session_id s) sv"
    and "server_run fs sv = Return sv'" and "list_all (\<lambda>e. \<not> fails_session k e) fs"
  shows "suffix (waiting_for k sv') (waiting_for k sv @ map encoded (packets_of (session_id s) fs))"
proof -
  have "list_all (allowed (\<lambda>n. n = 0)) es" "list_all (allowed (\<lambda>n. n = 0)) fs"
    using assms(2) unfolding within_one_thread by simp_all
  then show ?thesis
    using waiting_for_run [OF _ assms(3) refl assms(4-6)] one_thread.served_run [OF assms(1)]
    unfolding one_thread.served_def by blast
qed

theorem sessions_keep_the_newest_packets_witness:
  "\<exists>sv s sv'. server_run sample_joining (WsStreamServer sample_server_options) = Return sv \<and> sessions sv 0 = Some s \<and>
     server_run sample_sending sv = Return sv' \<and>
     suffix (waiting_for 0 sv') (waiting_for 0 sv @ map encoded (packets_of (session_id s) sample_sending))"
proof -
  obtain sv s where sv: "server_run sample_joining (WsStreamServer sample_server_options) = Return sv"
    "sessions sv 0 = Some s" "session_id s = ''a''" "in_room 0 ''a'' sv"
    using sample_server_runs by blast
  then obtain sv' where sv': "server_run sample_sending sv = Return sv'"
    using sample_server_delivers by (auto simp: server_run_append)
  moreover have "list_all (\<lambda>e. \<not> fails_session 0 e) sample_sending" by (simp add: sample_sending_def)
  moreover have "within_threads 1 (sample_joining @ sample_sending)" using sample_within by (simp add: within_threads_def)
  ultimately show ?thesis
    using sv sessions_keep_the_newest_packets [OF sv(1) _ sv(2) _ sv'] by auto
qed

text \<open>Two packets that overtake each other.\<close>

definition overtaking :: "string \<Rightarrow> nat \<Rightarrow> cint \<times> av_packet \<Rightarrow> cint \<times> av_packet \<Rightarrow> server_event list" where
  "overtaking i x p q = [Broadcast i x (fst p) (snd p), Broadcast i x (fst q) (snd q), CallRuns 0 1, CallRuns 0 0,
     WriteDone 0 Success]"

text \<open>C15.  Two I/O threads reorder.  An accepted socket's executor is the \<open>io_context\<close>, not a strand: with two
  threads (the default is three) the calls posted for two packets can overtake each other, and the client
  is sent the later packet first.\<close>

theorem two_threads_reorder_packets:
  "let es = joining opts req i x tp @ overtaking i x p q in
   within_threads 2 es \<and> packets_of i es = [tp, p, q] \<and>
   (\<exists>sv s. server_run es (WsStreamServer opts) = Return sv \<and> sessions sv 0 = Some s \<and> session_id s = i \<and>
      written (session s) = [encoded q, encoded p])"
proof -
  obtain sv c where "server_run (joining opts req i x tp) (WsStreamServer opts) = Return sv"
    and sv: "sessions sv = [0 \<mapsto> \<lparr>session_id = i, session = c\<rparr>]" "room sv = [i \<mapsto> [0]]" "posted sv = []"
      "send_queue c = []" "written c = []" "send_queue_max_size c = max 1 (max_queue opts)" "silent_send c"
    by (rule joining_runs)
  moreover have "\<exists>sv' s. server_run (overtaking i x p q) sv = Return sv' \<and> sessions sv' 0 = Some s \<and> session_id s = i \<and>
      written (session s) = [encoded q, encoded p]"
    using sv by (simp add: overtaking_def running_simps write_under_way_def OnWrite_def session_OnWrite_def)
  moreover have "within_threads 2 (joining opts req i x tp @ overtaking i x p q)"
    "packets_of i (joining opts req i x tp @ overtaking i x p q) = [tp, p, q]"
    by (simp_all add: within_threads_def joining_def overtaking_def)
  ultimately show ?thesis unfolding Let_def server_run_append by simp
qed

end
