(* ===== verification/VideoOp.thy ===== *)
theory VideoOp imports Decoder begin

text \<open>
  \<open>common/media/stream_def.*\<close> and \<open>stream_video.*\<close>: stream errors, the names of the stream methods,
  and the operation \<open>StreamVideoOp\<close> that decodes a packet and scales the frame.  FFmpeg's codec and
  scaler are the parameter \<open>av_codec\<close>, over a type of codec contexts \<open>'c\<close> and of pictures \<open>'p\<close>.
\<close>

section \<open>Errors\<close>

text \<open>\<open>-0xA0000000\<close> negates an unsigned literal, so the enumerator is positive.\<close>

definition STREAM_ERROR_ANY :: int where "STREAM_ERROR_ANY = uint (- 0xA0000000 :: uint32)"

text \<open>A \<open>StreamError\<close> made from a code of FFmpeg or from a message.\<close>

datatype stream_error = AvError int | StreamMsg string

fun error_code_of :: "stream_error \<Rightarrow> int" where
  "error_code_of (AvError n) = n"
| "error_code_of (StreamMsg s) = STREAM_ERROR_ANY"

text \<open>The end of a call: a value, a thrown \<open>StreamError\<close>, or undefined behaviour.\<close>

datatype 'a call = Ok 'a | Throw stream_error | Undefined

fun bind_call :: "'a call \<times> 's \<Rightarrow> ('a \<Rightarrow> 's \<Rightarrow> 'b call \<times> 's) \<Rightarrow> 'b call \<times> 's" where
  "bind_call (Ok x, s) k = k x s"
| "bind_call (Throw e, s) k = (Throw e, s)"
| "bind_call (Undefined, s) k = (Undefined, s)"

text \<open>\<open>if (bad) throw e;\<close>\<close>

definition throw_if :: "bool \<Rightarrow> stream_error \<Rightarrow> 's \<Rightarrow> unit call \<times> 's" where
  "throw_if bad e s = (if bad then Throw e else Ok (), s)"

lemma throw_if_simps [simp]: "throw_if True e s = (Throw e, s)" "throw_if False e s = (Ok (), s)"
  by (simp_all add: throw_if_def)

lemma STREAM_ERROR_ANY_eq: "STREAM_ERROR_ANY = 0x60000000"
  by (simp add: STREAM_ERROR_ANY_def)

section \<open>Stream methods\<close>

datatype stream_method =
    STREAM_METHOD_NONE | STREAM_METHOD_FILE | STREAM_METHOD_NETWORK | STREAM_METHOD_WEBCAM
  | OtherMethod int                       \<comment> \<open>an \<open>int\<close> outside the enumeration\<close>

fun StreamMethodToString :: "stream_method \<Rightarrow> string call" where
  "StreamMethodToString STREAM_METHOD_NONE = Ok ''none''"
| "StreamMethodToString STREAM_METHOD_FILE = Ok ''file''"
| "StreamMethodToString STREAM_METHOD_NETWORK = Ok ''network''"
| "StreamMethodToString STREAM_METHOD_WEBCAM = Ok ''webcam''"
| "StreamMethodToString (OtherMethod n) = Throw (StreamMsg ''StreamMethod unknown'')"

definition StreamMethodFromString :: "string \<Rightarrow> stream_method call" where
  "StreamMethodFromString s =
     (if s = ''none'' then Ok STREAM_METHOD_NONE
      else if s = ''file'' then Ok STREAM_METHOD_FILE
      else if s = ''network'' then Ok STREAM_METHOD_NETWORK
      else if s = ''webcam'' then Ok STREAM_METHOD_WEBCAM
      else Throw (StreamMsg (''StreamMethod unknown: '' @ s)))"

text \<open>Printing and reading are inverse to each other, on the four methods and the four names.\<close>

lemma StreamMethod_roundtrip: "StreamMethodToString m = Ok s \<longleftrightarrow> StreamMethodFromString s = Ok m"
  by (cases m) (auto simp: StreamMethodFromString_def)

section \<open>StreamVideoOp\<close>

record stream_video_options = video_options +
  sws_dst_width :: int
  sws_dst_height :: int
  sws_flags :: int

record 'p av_frame =
  frame_fmt :: pix_fmt
  frame_width :: int
  frame_height :: int
  frame_pts :: cint64
  picture :: 'p

text \<open>The dimensions and formats a scaling context converts between.\<close>

record sws_context =
  src_size :: "int \<times> int"
  src_fmt :: pix_fmt
  dst_size :: "int \<times> int"
  dst_fmt :: pix_fmt
  flags_of :: int

record ('c, 'p) av_codec =
  AVERROR_EAGAIN :: int
  SWS_BICUBIC :: int
  decoder_by_name :: "string \<Rightarrow> bool"
  decoder_by_id :: bool                    \<comment> \<open>for the codec id of the stream\<close>
  alloc_context :: "'c option"
  init_context :: "'c \<Rightarrow> int \<times> 'c"        \<comment> \<open>\<open>avcodec_parameters_to_context\<close>\<close>
  set_threads :: "int \<Rightarrow> int \<Rightarrow> 'c \<Rightarrow> 'c"  \<comment> \<open>count and type, 0 where left alone\<close>
  codec_open :: "'c \<Rightarrow> int \<times> 'c"
  send_packet :: "'c \<Rightarrow> av_packet \<Rightarrow> int \<times> 'c"
  receive_frame :: "'c \<Rightarrow> int \<times> 'p av_frame \<times> 'c"
  ctx_size :: "'c \<Rightarrow> int \<times> int"
  ctx_fmt :: "'c \<Rightarrow> pix_fmt"
  sws_get :: "sws_context \<Rightarrow> bool"         \<comment> \<open>whether \<open>sws_getContext\<close> succeeds\<close>
  sws_scale :: "sws_context \<Rightarrow> 'p av_frame \<Rightarrow> int \<Rightarrow> 'p"  \<comment> \<open>with the number of rows of the source\<close>

record 'c video_op =
  vo_options :: stream_video_options
  codec_ctx :: "'c option"
  has_frame :: bool                        \<comment> \<open>\<open>frame_\<close> is allocated\<close>
  sws_ctx :: "sws_context option"

definition StreamVideoOp :: "stream_video_options \<Rightarrow> 'c video_op" where
  "StreamVideoOp opts = \<lparr>vo_options = opts, codec_ctx = None, has_frame = False, sws_ctx = None\<rparr>"

text \<open>The first call opens the codec; an exception leaves the context allocated.\<close>

definition open_codec :: "('c, 'p) av_codec \<Rightarrow> 'c video_op \<Rightarrow> unit call \<times> 'c video_op" where
  "open_codec ff op =
     (if codec_ctx op \<noteq> None then (Ok (), op)
      else if \<not> ((dec_name (vo_options op) \<noteq> [] \<and> decoder_by_name ff (dec_name (vo_options op))) \<or> decoder_by_id ff)
      then (Throw (StreamMsg ''Decoder not found, id=''), op)
      else case alloc_context ff of
        None \<Rightarrow> (Throw (StreamMsg ''Codec alloc context fail''), op)
      | Some c \<Rightarrow>
          let (r, c) = init_context ff c in
          if r < 0 then (Throw (AvError r), op\<lparr>codec_ctx := Some c\<rparr>)
          else
            let c = set_threads ff (max 0 (dec_thread_count (vo_options op))) (max 0 (dec_thread_type (vo_options op))) c;
                (r, c) = codec_open ff c;
                op = op\<lparr>codec_ctx := Some c\<rparr> in
            if r \<noteq> 0 then (Throw (AvError r), op) else (Ok (), op\<lparr>has_frame := True\<rparr>))"

text \<open>Send the packet, receive a frame; both calls may ask to be tried again later.\<close>

definition decode_packet :: "('c, 'p) av_codec \<Rightarrow> av_packet \<Rightarrow> 'c video_op \<Rightarrow> 'p av_frame option call \<times> 'c video_op" where
  "decode_packet ff pkt op =
     (case codec_ctx op of
        None \<Rightarrow> (Undefined, op)
      | Some c \<Rightarrow>
          let (r, c) = send_packet ff c pkt; op = op\<lparr>codec_ctx := Some c\<rparr> in
          if r \<noteq> 0 then (if r = AVERROR_EAGAIN ff then Ok None else Throw (AvError r), op)
          else if \<not> has_frame op then (Undefined, op)
          else
            let (r, f, c) = receive_frame ff c; op = op\<lparr>codec_ctx := Some c\<rparr> in
            (if r = 0 then Ok (Some f) else if r = AVERROR_EAGAIN ff then Ok None else Throw (AvError r), op))"

text \<open>The scaler of the first frame is kept for all later ones.\<close>

definition sws_wanted :: "('c, 'p) av_codec \<Rightarrow> stream_video_options \<Rightarrow> 'c \<Rightarrow> sws_context" where
  "sws_wanted ff opts c =
     \<lparr>src_size = ctx_size ff c, src_fmt = ctx_fmt ff c,
      dst_size = (if sws_dst_width opts \<le> 0 then fst (ctx_size ff c) else sws_dst_width opts,
                  if sws_dst_height opts \<le> 0 then snd (ctx_size ff c) else sws_dst_height opts),
      dst_fmt = (if sws_dst_pix_fmt opts = AV_PIX_FMT_NONE then ctx_fmt ff c else sws_dst_pix_fmt opts),
      flags_of = (if sws_flags opts = 0 then SWS_BICUBIC ff else sws_flags opts)\<rparr>"

definition scale_frame :: "('c, 'p) av_codec \<Rightarrow> 'p av_frame \<Rightarrow> 'c video_op \<Rightarrow> 'p av_frame call \<times> 'c video_op" where
  "scale_frame ff f op =
     (case codec_ctx op of
        None \<Rightarrow> (Undefined, op)
      | Some c \<Rightarrow>
          let sws = (case sws_ctx op of Some s \<Rightarrow> s | None \<Rightarrow> sws_wanted ff (vo_options op) c) in
          if sws_ctx op = None \<and> \<not> sws_get ff sws then (Throw (StreamMsg ''Get sws context fail''), op)
          else (Ok \<lparr>frame_fmt = AV_PIX_FMT_NONE, frame_width = fst (dst_size sws), frame_height = snd (dst_size sws),
                    frame_pts = frame_pts f, picture = sws_scale ff sws f (snd (ctx_size ff c))\<rparr>,
                op\<lparr>sws_ctx := Some sws\<rparr>))"

definition GetFrame :: "('c, 'p) av_codec \<Rightarrow> av_packet \<Rightarrow> 'c video_op \<Rightarrow> 'p av_frame option call \<times> 'c video_op" where
  "GetFrame ff pkt op =
     bind_call (open_codec ff op) (\<lambda>_ op.
     bind_call (decode_packet ff pkt op) (\<lambda>f op.
       case f of
         None \<Rightarrow> (Ok None, op)
       | Some f \<Rightarrow>
           if sws_enable (vo_options op) then bind_call (scale_frame ff f op) (\<lambda>f op. (Ok (Some f), op))
           else (Ok (Some f), op)))"

definition Flush :: "('c \<Rightarrow> 'c) \<Rightarrow> 'c video_op \<Rightarrow> 'c video_op" where
  "Flush flush op = op\<lparr>codec_ctx := map_option flush (codec_ctx op)\<rparr>"

definition Free :: "'c video_op \<Rightarrow> 'c video_op" where
  "Free op = op\<lparr>codec_ctx := None, has_frame := False, sws_ctx := None\<rparr>"

section \<open>What one call does to the scaler\<close>

lemma bind_call_Ok_iff: "bind_call m k = (Ok y, s') \<longleftrightarrow> (\<exists>x s. m = (Ok x, s) \<and> k x s = (Ok y, s'))"
  by (cases m; cases "fst m") auto

text \<open>A relation that every step keeps is kept by their sequence, however it ends.\<close>

lemma bind_call_keeps:
  "R s (snd m) \<Longrightarrow> (\<And>x s'. R s s' \<Longrightarrow> R s (snd (k x s'))) \<Longrightarrow> R s (snd (bind_call m k))"
  by (cases m; cases "fst m") auto

text \<open>The steps before scaling leave the scaler and the options alone, however they end.\<close>

definition keeps_scaler :: "'c video_op \<Rightarrow> 'c video_op \<Rightarrow> bool" where
  "keeps_scaler op op' \<longleftrightarrow> sws_ctx op' = sws_ctx op \<and> vo_options op' = vo_options op"

lemma open_codec_scaler: "keeps_scaler op (snd (open_codec ff op))"
  by (auto simp: keeps_scaler_def open_codec_def Let_def split_beta split: option.splits)

lemma decode_packet_scaler: "keeps_scaler op (snd (decode_packet ff pkt op))"
  by (auto simp: keeps_scaler_def decode_packet_def Let_def split_beta split: option.splits)

text \<open>A scaled frame comes from the scaler the operation has afterwards, which is the one it had.\<close>

definition scaled_by :: "('c, 'p) av_codec \<Rightarrow> sws_context \<Rightarrow> 'p av_frame \<Rightarrow> bool" where
  "scaled_by ff s f \<longleftrightarrow> (frame_width f, frame_height f) = dst_size s \<and>
     (\<exists>g rows. picture f = sws_scale ff s g rows \<and> frame_pts f = frame_pts g)"

definition sized_for :: "stream_video_options \<Rightarrow> sws_context \<Rightarrow> bool" where
  "sized_for opts s \<longleftrightarrow> dst_size s =
     (if sws_dst_width opts \<le> 0 then fst (src_size s) else sws_dst_width opts,
      if sws_dst_height opts \<le> 0 then snd (src_size s) else sws_dst_height opts)"

lemma sized_for_wanted: "sized_for opts (sws_wanted ff opts c)"
  by (simp add: sized_for_def sws_wanted_def)

lemma scale_frame_scaler:
  assumes "scale_frame ff g op = (Ok f, op')"
  shows "\<exists>s. sws_ctx op' = Some s \<and> (sws_ctx op = Some s \<or> sws_ctx op = None \<and> sized_for (vo_options op) s) \<and>
    scaled_by ff s f \<and> vo_options op' = vo_options op"
proof -
  obtain c where c: "codec_ctx op = Some c" using assms by (auto simp: scale_frame_def split: option.splits)
  define s where "s = (case sws_ctx op of Some s \<Rightarrow> s | None \<Rightarrow> sws_wanted ff (vo_options op) c)"
  have "f = \<lparr>frame_fmt = AV_PIX_FMT_NONE, frame_width = fst (dst_size s), frame_height = snd (dst_size s),
            frame_pts = frame_pts g, picture = sws_scale ff s g (snd (ctx_size ff c))\<rparr>"
    and "op' = op\<lparr>sws_ctx := Some s\<rparr>"
    using assms c by (simp_all add: scale_frame_def s_def [symmetric] split: if_splits)
  moreover have "sws_ctx op = Some s \<or> sws_ctx op = None \<and> sized_for (vo_options op) s"
    by (cases "sws_ctx op") (simp_all add: s_def sized_for_wanted)
  ultimately show ?thesis by (auto simp: scaled_by_def)
qed

lemma GetFrame_scaler:
  assumes "GetFrame ff pkt op = (Ok (Some f), op')" and "sws_enable (vo_options op)"
  shows "\<exists>s. sws_ctx op' = Some s \<and> (sws_ctx op = Some s \<or> sws_ctx op = None \<and> sized_for (vo_options op) s) \<and>
    scaled_by ff s f \<and> vo_options op' = vo_options op"
proof -
  obtain u op1 where 1: "open_codec ff op = (Ok u, op1)"
    and k1: "bind_call (decode_packet ff pkt op1) (\<lambda>f op. case f of None \<Rightarrow> (Ok None, op)
       | Some f \<Rightarrow> if sws_enable (vo_options op) then bind_call (scale_frame ff f op) (\<lambda>f op. (Ok (Some f), op))
           else (Ok (Some f), op)) = (Ok (Some f), op')"
    using assms(1) unfolding GetFrame_def bind_call_Ok_iff by blast
  then obtain g op2 where 2: "decode_packet ff pkt op1 = (Ok (Some g), op2)"
    and k2: "(if sws_enable (vo_options op2) then bind_call (scale_frame ff g op2) (\<lambda>f op. (Ok (Some f), op))
           else (Ok (Some g), op2)) = (Ok (Some f), op')"
    unfolding bind_call_Ok_iff by (auto split: option.splits)
  have "keeps_scaler op op1" "keeps_scaler op1 op2"
    using open_codec_scaler [of op ff] decode_packet_scaler [of op1 ff pkt] 1 2 by simp_all
  then have same: "sws_ctx op2 = sws_ctx op" "vo_options op2 = vo_options op" by (simp_all add: keeps_scaler_def)
  then have "scale_frame ff g op2 = (Ok f, op')" using k2 assms(2) by (auto simp: bind_call_Ok_iff)
  then show ?thesis using scale_frame_scaler [of ff g op2 f op'] same by simp
qed

lemma GetFrame_none_scaler: "GetFrame ff pkt op = (Ok None, op') \<Longrightarrow> keeps_scaler op op'"
  using open_codec_scaler [of op ff] decode_packet_scaler [of "snd (open_codec ff op)" ff pkt]
  unfolding GetFrame_def bind_call_Ok_iff
  by (fastforce simp: bind_call_Ok_iff keeps_scaler_def split: option.splits if_splits)

text \<open>However a call ends, a scaler once made stays.\<close>

definition extends_scaler :: "'c video_op \<Rightarrow> 'c video_op \<Rightarrow> bool" where
  "extends_scaler op op' \<longleftrightarrow> vo_options op' = vo_options op \<and> (sws_ctx op = None \<or> sws_ctx op' = sws_ctx op)"

lemma keeps_extends: "extends_scaler op op1 \<Longrightarrow> keeps_scaler op1 op2 \<Longrightarrow> extends_scaler op op2"
  by (simp add: keeps_scaler_def extends_scaler_def)

lemma scale_frame_extends: "extends_scaler op op1 \<Longrightarrow> extends_scaler op (snd (scale_frame ff f op1))"
  by (auto simp: extends_scaler_def scale_frame_def Let_def split: option.splits)

lemmas extends_bind = bind_call_keeps [where R = extends_scaler]

lemma GetFrame_extends: "extends_scaler op (snd (GetFrame ff pkt op))"
  unfolding GetFrame_def
proof (rule extends_bind, goal_cases)
  case 1
  show ?case by (rule keeps_extends [OF _ open_codec_scaler]) (simp add: extends_scaler_def)
next
  case (2 u op1)
  show ?case
  proof (rule extends_bind, goal_cases)
    case 1
    show ?case using 2 by (rule keeps_extends [OF _ decode_packet_scaler])
  next
    case (2 f op2)
    show ?case
    proof (cases "f \<noteq> None \<and> sws_enable (vo_options op2)")
      case True
      then obtain g where "f = Some g" "sws_enable (vo_options op2)" by auto
      then show ?thesis using extends_bind [OF scale_frame_extends [OF 2], of "\<lambda>f op. (Ok (Some f), op)"] by simp
    next
      case False
      then show ?thesis using 2 by (auto split: option.splits)
    qed
  qed
qed

section \<open>A stream of packets\<close>

text \<open>The frames of a run of packets, up to the first exception.\<close>

fun decode_all :: "('c, 'p) av_codec \<Rightarrow> av_packet list \<Rightarrow> 'c video_op \<Rightarrow> 'p av_frame list \<times> 'c video_op" where
  "decode_all ff [] op = ([], op)"
| "decode_all ff (pkt # pkts) op =
     (case GetFrame ff pkt op of
        (Ok None, op) \<Rightarrow> decode_all ff pkts op
      | (Ok (Some f), op) \<Rightarrow> (case decode_all ff pkts op of (fs, op) \<Rightarrow> (f # fs, op))
      | (_, op) \<Rightarrow> ([], op))"

lemma decode_all_scaled:
  "sws_enable (vo_options op) \<Longrightarrow> sws_ctx op = Some s \<Longrightarrow> list_all (scaled_by ff s) (fst (decode_all ff pkts op))"
proof (induction pkts arbitrary: op)
  case (Cons pkt pkts)
  obtain r op' where r: "GetFrame ff pkt op = (r, op')" by (cases "GetFrame ff pkt op")
  consider "r = Ok None" | f where "r = Ok (Some f)" | "\<nexists>x. r = Ok x" by (cases r) auto
  then show ?case
  proof cases
    case 1
    then show ?thesis using Cons r GetFrame_none_scaler [of ff pkt op op'] by (simp add: keeps_scaler_def)
  next
    case 2
    then show ?thesis using Cons r GetFrame_scaler [of ff pkt op f op'] by (simp add: split_beta)
  next
    case 3
    then show ?thesis using r by (cases r) simp_all
  qed
qed simp

lemma decode_all_first:
  assumes "sws_enable (vo_options op)" and "sws_ctx op = None" and "fst (decode_all ff pkts op) \<noteq> []"
  shows "\<exists>s. sized_for (vo_options op) s \<and> list_all (scaled_by ff s) (fst (decode_all ff pkts op))"
  using assms
proof (induction pkts arbitrary: op)
  case (Cons pkt pkts)
  obtain r op' where r: "GetFrame ff pkt op = (r, op')" by (cases "GetFrame ff pkt op")
  consider "r = Ok None" | f where "r = Ok (Some f)" | "\<nexists>x. r = Ok x" by (cases r) auto
  then show ?case
  proof cases
    case 1
    then show ?thesis using Cons.IH [of op'] Cons.prems r GetFrame_none_scaler [of ff pkt op op']
      by (simp add: keeps_scaler_def)
  next
    case 2
    then obtain s where s: "sws_ctx op' = Some s" "sized_for (vo_options op) s" "scaled_by ff s f" "vo_options op' = vo_options op"
      using GetFrame_scaler [of ff pkt op f op'] Cons.prems r by auto
    then show ?thesis using decode_all_scaled [of op' s ff pkts] Cons.prems(1) r 2 by (auto simp: split_beta)
  next
    case 3
    then show ?thesis using r Cons.prems(3) by (cases r) simp_all
  qed
qed simp

text \<open>The scaler is built for the first frame and never again: all frames an operation gives are
  made by one scaling context and have its destination size, which is the configured one where it is
  positive and the size of the first frame otherwise; a change of the video's size changes
  nothing, although the old context is then run over pictures of another size.\<close>

lemma scaled_frames_have_one_size:
  assumes "sws_enable opts" and "fst (decode_all ff pkts (StreamVideoOp opts)) \<noteq> []"
  shows "\<exists>s. sized_for opts s \<and> list_all (scaled_by ff s) (fst (decode_all ff pkts (StreamVideoOp opts)))"
  using decode_all_first [of "StreamVideoOp opts" ff pkts] assms by (simp add: StreamVideoOp_def)

text \<open>A codec whose video changes its size after the first frame.\<close>

definition sample_video_options :: stream_video_options where
  "sample_video_options = \<lparr>dec_name = [], dec_thread_count = 0, dec_thread_type = 0, sws_enable = True,
     sws_dst_pix_fmt = AV_PIX_FMT_YUV420P, sws_dst_width = 0, sws_dst_height = 0, sws_flags = 0\<rparr>"

definition sample_codec :: "(int list, int \<times> int) av_codec" where
  "sample_codec = \<lparr>AVERROR_EAGAIN = -11, SWS_BICUBIC = 4, decoder_by_name = (\<lambda>_. True), decoder_by_id = True,
     alloc_context = Some [640, 320, 320], init_context = (\<lambda>c. (0, c)), set_threads = (\<lambda>_ _ c. c),
     codec_open = (\<lambda>c. (0, c)), send_packet = (\<lambda>c _. (0, tl c)),
     receive_frame = (\<lambda>c. (0, \<lparr>frame_fmt = AV_PIX_FMT_YUV420P, frame_width = hd c, frame_height = hd c,
                              frame_pts = 0, picture = (hd c, hd c)\<rparr>, c)),
     ctx_size = (\<lambda>c. (hd c, hd c)), ctx_fmt = (\<lambda>_. AV_PIX_FMT_YUV420P), sws_get = (\<lambda>_. True),
     sws_scale = (\<lambda>s f rows. dst_size s)\<rparr>"

end
