(* ===== verification/MediaStream.thy ===== *)
theory MediaStream imports VideoOp begin

text \<open>
  \<open>common/media/stream.cc\<close>: class \<open>Stream\<close>, an input of FFmpeg with the operations of its
  sub-streams.  \<open>libavformat\<close> is the parameter \<open>av_format\<close>: what opening an input gives, and the
  packets an input yields.  The stream's one packet is a slot that may hold a reference; reading into
  a slot that holds one loses it, which \<open>lost\<close> counts.
\<close>

section \<open>Options and state\<close>

record stream_options =
  opt_method :: stream_method
  input_url :: string
  input_format :: string
  cam_width :: int
  cam_height :: int
  framerate :: int
  pixel_format :: pix_fmt
  rtbufsize :: int
  max_delay :: int
  rtsp_transport :: string
  stimeout :: int
  dump_format :: bool
  video :: stream_video_options

text \<open>Values of an \<open>AVDictionary\<close>; \<open>DictSize w h\<close> is the string of \<open>w\<close>, an x and \<open>h\<close>.\<close>

datatype dict_value = DictStr string | DictInt int | DictSize int int

type_synonym dict = "(string \<times> dict_value) list"

record av_input =
  find_info :: int
  stream_types :: "cint list"              \<comment> \<open>of \<open>streams[0], streams[1], \<dots>\<close>\<close>
  reads :: "nat \<Rightarrow> int \<times> av_packet"       \<comment> \<open>the results of the successive \<open>av_read_frame\<close>\<close>

record av_format =
  AVERROR_EOF :: int
  input_format_known :: "string \<Rightarrow> bool"
  pix_fmt_name :: "pix_fmt \<Rightarrow> string option"
  open_input :: "nat \<Rightarrow> string \<Rightarrow> string option \<Rightarrow> dict \<Rightarrow> int \<times> av_input"

datatype format_context = NoContext | Allocated | OpenedInput av_input

record 'c sub =
  sub_index :: nat
  sub_op :: "'c video_op"

record 'c stream =
  options :: "stream_options option"
  is_open :: bool
  format_ctx :: format_context
  read_count :: nat
  packet_slot :: "av_packet option option"  \<comment> \<open>\<open>packet_\<close>: null, blank, or with a reference\<close>
  lost :: nat
  stream_subs :: "cint \<rightharpoonup> 'c sub"

definition new_stream :: "'c stream" where
  "new_stream = \<lparr>options = None, is_open = False, format_ctx = NoContext, read_count = 0, packet_slot = None,
     lost = 0, stream_subs = Map.empty\<rparr>"

section \<open>Open\<close>

text \<open>The dictionary of a webcam; the name of an unknown pixel format is a null pointer.\<close>

definition webcam_dict :: "av_format \<Rightarrow> stream_options \<Rightarrow> dict call" where
  "webcam_dict fmt opts =
     (if \<not> input_format_known fmt (input_format opts)
      then Throw (StreamMsg (''Options input_format not found: '' @ input_format opts))
      else
        let size = (if 0 < cam_width opts \<and> 0 < cam_height opts
                    then [(''video_size'', DictSize (cam_width opts) (cam_height opts))] else []);
            rate = (if 0 < framerate opts then [(''framerate'', DictInt (framerate opts))] else []) in
        if pixel_format opts = AV_PIX_FMT_NONE then Ok (size @ rate)
        else case pix_fmt_name fmt (pixel_format opts) of
          None \<Rightarrow> Undefined
        | Some name \<Rightarrow> Ok (size @ rate @ [(''pixel_format'', DictStr name)]))"

text \<open>\<open>options.width * options.height\<close> is a product of \<open>int\<close>s; overflow is undefined.\<close>

definition rtbufsize_dict :: "stream_options \<Rightarrow> dict call" where
  "rtbufsize_dict opts =
     (if 0 < rtbufsize opts then Ok [(''rtbufsize'', DictInt (rtbufsize opts))]
      else if opt_method opts = STREAM_METHOD_WEBCAM \<and> 0 < cam_width opts \<and> 0 < cam_height opts then
        if 2 ^ 31 \<le> cam_width opts * cam_height opts then Undefined
        else Ok [(''rtbufsize'', DictInt (cam_width opts * cam_height opts *
                   (if 0 < framerate opts then framerate opts else 15) * 2))]
      else Ok [])"

definition rtsp_dict :: "stream_options \<Rightarrow> dict call" where
  "rtsp_dict opts =
     (if rtsp_transport opts = [] then Ok []
      else if rtsp_transport opts = ''udp'' \<or> rtsp_transport opts = ''tcp''
      then Ok [(''rtsp_transport'', DictStr (rtsp_transport opts))]
      else Throw (StreamMsg (''Options rtsp_transport invalid: '' @ rtsp_transport opts)))"

fun append_dict :: "dict call \<Rightarrow> dict call \<Rightarrow> dict call" where
  "append_dict (Ok d) (Ok e) = Ok (d @ e)"
| "append_dict (Ok d) (Throw x) = Throw x"
| "append_dict (Ok d) Undefined = Undefined"
| "append_dict (Throw x) e = Throw x"
| "append_dict Undefined e = Undefined"

definition open_dict :: "av_format \<Rightarrow> stream_options \<Rightarrow> dict call" where
  "open_dict fmt opts =
     append_dict (append_dict (append_dict (append_dict
       (if opt_method opts = STREAM_METHOD_WEBCAM then webcam_dict fmt opts else Ok [])
       (rtbufsize_dict opts))
       (Ok (if 0 < max_delay opts then [(''max_delay'', DictInt (max_delay opts))] else [])))
       (rtsp_dict opts))
       (Ok (if 0 < stimeout opts then [(''stimeout'', DictInt (stimeout opts))] else []))"

text \<open>Only the first video stream is kept.\<close>

fun find_subs :: "stream_video_options \<Rightarrow> nat \<Rightarrow> cint list \<Rightarrow> (cint \<rightharpoonup> 'c sub) \<Rightarrow> (cint \<rightharpoonup> 'c sub)" where
  "find_subs opts i [] m = m"
| "find_subs opts i (t # ts) m =
     find_subs opts (Suc i) ts
       (if m t \<noteq> None then m
        else if t = AVMEDIA_TYPE_VIDEO then m(t \<mapsto> \<lparr>sub_index = i, sub_op = StreamVideoOp opts\<rparr>)
        else m)"

text \<open>The \<open>n\<close>-th input that is opened; a failed \<open>avformat_open_input\<close> frees the context.\<close>

definition stream_Open :: "av_format \<Rightarrow> nat \<Rightarrow> stream_options \<Rightarrow> 'c stream \<Rightarrow> unit call \<times> 'c stream" where
  "stream_Open fmt n opts s =
     bind_call (throw_if (opt_method opts = STREAM_METHOD_NONE \<or> input_url opts = [])
                  (StreamMsg ''Options invalid, method and input_url must set'') s) (\<lambda>_ s.
     let s = s\<lparr>options := Some opts\<rparr> in
     bind_call (throw_if (opt_method opts \<notin> {STREAM_METHOD_FILE, STREAM_METHOD_NETWORK, STREAM_METHOD_WEBCAM})
                  (StreamMsg ''Options method invalid'') s) (\<lambda>_ s.
     bind_call (open_dict fmt opts, s\<lparr>format_ctx := Allocated\<rparr>) (\<lambda>d s.
     let (ret, input) = open_input fmt n (input_url opts)
           (if opt_method opts = STREAM_METHOD_WEBCAM then Some (input_format opts) else None) d in
     bind_call (throw_if (ret \<noteq> 0) (AvError ret) (s\<lparr>format_ctx := if ret = 0 then OpenedInput input else NoContext\<rparr>)) (\<lambda>_ s.
     bind_call (throw_if (find_info input < 0) (AvError (find_info input)) s) (\<lambda>_ s.
       (Ok (), s\<lparr>stream_subs := find_subs (video opts) 0 (stream_types input) (stream_subs s), is_open := True\<rparr>))))))"

section \<open>Packets and frames\<close>

definition holds_packet :: "'c stream \<Rightarrow> bool" where
  "holds_packet s \<longleftrightarrow> (case packet_slot s of Some (Some p) \<Rightarrow> True | _ \<Rightarrow> False)"

definition GetPacket :: "bool \<Rightarrow> 'c stream \<Rightarrow> av_packet call \<times> 'c stream" where
  "GetPacket unref s =
     (case format_ctx s of
        OpenedInput input \<Rightarrow>
          let (ret, pkt) = reads input (read_count s);
              s = s\<lparr>read_count := Suc (read_count s), lost := lost s + (if holds_packet s then 1 else 0)\<rparr> in
          if ret < 0 then (Throw (AvError ret), s\<lparr>packet_slot := Some None\<rparr>)
          else if unref then (Ok av_packet_alloc, s\<lparr>packet_slot := Some None\<rparr>)
          else (Ok pkt, s\<lparr>packet_slot := Some (Some pkt)\<rparr>)
      | _ \<Rightarrow> (Undefined, s\<lparr>packet_slot := (case packet_slot s of None \<Rightarrow> Some None | p \<Rightarrow> p)\<rparr>))"

definition UnrefPacket :: "'c stream \<Rightarrow> 'c stream" where
  "UnrefPacket s = s\<lparr>packet_slot := (case packet_slot s of None \<Rightarrow> None | Some p \<Rightarrow> Some None)\<rparr>"

definition GetStreamSub :: "cint \<Rightarrow> 'c stream \<Rightarrow> 'c sub call" where
  "GetStreamSub type s = (case stream_subs s type of None \<Rightarrow> Throw (StreamMsg ''map::at'') | Some sub \<Rightarrow> Ok sub)"

definition stream_GetFrame ::
  "('c, 'p) av_codec \<Rightarrow> cint \<Rightarrow> av_packet option \<Rightarrow> bool \<Rightarrow> 'c stream \<Rightarrow> 'p av_frame option call \<times> 'c stream" where
  "stream_GetFrame ff type pkt unref s =
     bind_call (case pkt of None \<Rightarrow> GetPacket False s | Some pkt \<Rightarrow> (Ok pkt, s)) (\<lambda>pkt s.
     bind_call (GetStreamSub type s, s) (\<lambda>sub s.
     bind_call
       (if stream_index pkt = of_nat (sub_index sub) then
          case GetFrame ff pkt (sub_op sub) of
            (r, op) \<Rightarrow> (r, s\<lparr>stream_subs := (stream_subs s)(type \<mapsto> sub\<lparr>sub_op := op\<rparr>)\<rparr>)
        else (Ok None, s)) (\<lambda>f s.
       if \<not> unref then (Ok f, s)
       else if packet_slot s = None then (Undefined, s)
       else (Ok f, UnrefPacket s))))"

definition GetFrameVideo :: "('c, 'p) av_codec \<Rightarrow> 'c stream \<Rightarrow> 'p av_frame option call \<times> 'c stream" where
  "GetFrameVideo ff = stream_GetFrame ff AVMEDIA_TYPE_VIDEO None True"

definition stream_Close :: "'c stream \<Rightarrow> 'c stream" where
  "stream_Close s = s\<lparr>stream_subs := Map.empty, packet_slot := None, format_ctx := NoContext, is_open := False\<rparr>"

section \<open>An opened stream\<close>

lemma find_subs_kept: "m AVMEDIA_TYPE_VIDEO \<noteq> None \<Longrightarrow> find_subs opts i ts m = m"
  by (induction ts arbitrary: i) auto

lemma find_subs_first:
  "find_subs opts i ts Map.empty =
     (if AVMEDIA_TYPE_VIDEO \<in> set ts
      then [AVMEDIA_TYPE_VIDEO \<mapsto>
              \<lparr>sub_index = i + length (takeWhile (\<lambda>t. t \<noteq> AVMEDIA_TYPE_VIDEO) ts), sub_op = StreamVideoOp opts\<rparr>]
      else Map.empty)"
  by (induction ts arbitrary: i) (auto simp: find_subs_kept)

lemma open_dict_Ok: "open_dict fmt opts = Ok d \<Longrightarrow> rtsp_transport opts \<in> {[], ''udp'', ''tcp''}"
  by (cases "if opt_method opts = STREAM_METHOD_WEBCAM then webcam_dict fmt opts else Ok []"; cases "rtbufsize_dict opts")
    (auto simp: open_dict_def rtsp_dict_def split: if_splits)

lemma bind_throw_if_Ok:
  "bind_call (throw_if b e s) k = (Ok y, s') \<longleftrightarrow> \<not> b \<and> k () s = (Ok y, s')"
  by (cases b) simp_all

lemma stream_Open_Ok:
  assumes "stream_Open fmt n opts s = (Ok (), s')"
  shows "\<exists>d input. open_dict fmt opts = Ok d \<and> opt_method opts \<in> {STREAM_METHOD_FILE, STREAM_METHOD_NETWORK, STREAM_METHOD_WEBCAM} \<and>
    input_url opts \<noteq> [] \<and>
    open_input fmt n (input_url opts) (if opt_method opts = STREAM_METHOD_WEBCAM then Some (input_format opts) else None) d = (0, input) \<and>
    s' = s\<lparr>options := Some opts, format_ctx := OpenedInput input, is_open := True,
            stream_subs := find_subs (video opts) 0 (stream_types input) (stream_subs s)\<rparr>"
proof -
  obtain d where d: "open_dict fmt opts = Ok d"
    using assms by (cases "open_dict fmt opts") (auto simp: stream_Open_def Let_def bind_throw_if_Ok)
  obtain ret input where i: "open_input fmt n (input_url opts)
      (if opt_method opts = STREAM_METHOD_WEBCAM then Some (input_format opts) else None) d = (ret, input)"
    by (meson surj_pair)
  show ?thesis
    using assms d i by (auto simp: stream_Open_def Let_def bind_throw_if_Ok)
qed

text \<open>What an opened stream is: \<open>Open\<close> succeeds only for a file, network or webcam method with an
  address and one of the accepted RTSP transports, and then the stream has at most one operation, for
  the first video stream of the input; streams of other types are left out.\<close>

lemma opened_stream_keeps_the_first_video_stream:
  assumes "stream_Open fmt n opts new_stream = (Ok (), s)"
  shows "is_open s \<and> rtsp_transport opts \<in> {[], ''udp'', ''tcp''} \<and> input_url opts \<noteq> [] \<and>
    opt_method opts \<in> {STREAM_METHOD_FILE, STREAM_METHOD_NETWORK, STREAM_METHOD_WEBCAM} \<and>
    (\<exists>input. format_ctx s = OpenedInput input \<and>
      stream_subs s =
        (if AVMEDIA_TYPE_VIDEO \<in> set (stream_types input)
         then [AVMEDIA_TYPE_VIDEO \<mapsto>
                 \<lparr>sub_index = length (takeWhile (\<lambda>t. t \<noteq> AVMEDIA_TYPE_VIDEO) (stream_types input)),
                  sub_op = StreamVideoOp (video opts)\<rparr>]
         else Map.empty))"
  using stream_Open_Ok [OF assms] by (auto simp: new_stream_def find_subs_first dest: open_dict_Ok)

definition sample_stream_options :: stream_options where
  "sample_stream_options = \<lparr>opt_method = STREAM_METHOD_NETWORK, input_url = ''rtsp://cam'', input_format = [],
     cam_width = 0, cam_height = 0, framerate = 0, pixel_format = AV_PIX_FMT_NONE, rtbufsize = 0, max_delay = 500000,
     rtsp_transport = ''tcp'', stimeout = 5000000, dump_format = True, video = sample_video_options\<rparr>"

text \<open>An input with sound first and video second.\<close>

definition sample_input :: av_input where
  "sample_input = \<lparr>find_info = 0, stream_types = [1, 0],
     reads = (\<lambda>n. (if n < 4 then 0 else -541478725, av_packet_alloc\<lparr>stream_index := of_nat (n mod 2), flags := 1, pts := 0, dts := 0\<rparr>))\<rparr>"

definition sample_format :: av_format where
  "sample_format = \<lparr>AVERROR_EOF = -541478725, input_format_known = (\<lambda>_. False), pix_fmt_name = (\<lambda>_. None),
     open_input = (\<lambda>_ _ _ _. (0, sample_input))\<rparr>"

definition sample_stream :: "int list stream" where
  "sample_stream = snd (stream_Open sample_format 0 sample_stream_options new_stream)"

lemmas sample_stream_defs = sample_stream_def sample_format_def sample_input_def sample_stream_options_def

lemma sample_opened: "stream_Open sample_format 0 sample_stream_options new_stream = (Ok (), sample_stream)"
  by (simp add: sample_stream_defs stream_Open_def open_dict_def rtbufsize_dict_def rtsp_dict_def throw_if_def Let_def)

end
