(* ===== verification/StreamPlayer.thy ===== *)
theory StreamPlayer imports MediaStream begin

text \<open>
  \<open>rtsp-ws-proxy/stream_player.cc\<close>: the proxy's own window for a stream.  The thread of the stream hands in
  its packets; the thread of the window waits for the first frame, makes the window and drops it when the
  user closes it.  The two interleave in \<open>pstep\<close>, section by section under the mutex; the test of \<open>ui_\<close> in
  \<open>Send\<close> is outside the mutex and so a step of its own.
\<close>

section \<open>State\<close>

datatype window_pc =
    WaitFrame                              \<comment> \<open>in the waiting loop\<close>
  | MakeWindow                             \<comment> \<open>about to make \<open>ui_\<close>\<close>
  | RunWindow                              \<comment> \<open>in \<open>ui_->Run\<close>\<close>
  | WindowOver                             \<comment> \<open>after \<open>ui_ = nullptr\<close>: the thread can be joined\<close>

record ('c, 'p) stream_player =
  player_id :: string
  player_ops :: "cint \<rightharpoonup> 'c video_op"
  window_ok :: bool                        \<comment> \<open>\<open>ui_ok_\<close>\<close>
  window :: bool                           \<comment> \<open>\<open>ui_\<close> is not null\<close>
  window_size :: "(int \<times> int) option"      \<comment> \<open>\<open>ui_params_\<close>, once set\<close>
  window_at :: window_pc
  run_over :: bool                         \<comment> \<open>\<open>ui_->Run\<close> has returned\<close>
  checked :: "'p av_frame option"          \<comment> \<open>the frame in \<open>Send\<close> between \<open>if (ui_)\<close> and \<open>ui_->Update\<close>\<close>
  window_shown :: "'p av_frame list"

definition StreamPlayer :: "string \<Rightarrow> ('c, 'p) stream_player" where
  "StreamPlayer i = \<lparr>player_id = i, player_ops = Map.empty, window_ok = False, window = False, window_size = None,
     window_at = WaitFrame, run_over = False, checked = None, window_shown = []\<rparr>"

section \<open>The thread of the stream\<close>

definition player_video_options :: stream_video_options where
  "player_video_options = \<lparr>dec_name = [], dec_thread_count = 0, dec_thread_type = 0, sws_enable = True,
     sws_dst_pix_fmt = AV_PIX_FMT_YUV420P, sws_dst_width = 0, sws_dst_height = 0, sws_flags = 0\<rparr>"

text \<open>The operation of a media type, made with the first packet of the type.\<close>

definition player_op ::
    "'c stream \<Rightarrow> cint \<Rightarrow> ('c, 'p) stream_player \<Rightarrow> 'c video_op call \<times> ('c, 'p) stream_player" where
  "player_op s type p =
     (case player_ops p type of
        Some op \<Rightarrow> (Ok op, p)
      | None \<Rightarrow>
          bind_call (GetStreamSub type s, p) (\<lambda>_ p.
          bind_call (throw_if (type \<noteq> AVMEDIA_TYPE_VIDEO) (StreamMsg ''media type not support at present'') p) (\<lambda>_ p.
            let op = StreamVideoOp player_video_options in
            (Ok op, p\<lparr>player_ops := (player_ops p)(type \<mapsto> op)\<rparr>))))"

text \<open>\<open>Send\<close> up to the tests of \<open>ui_ok_\<close> and \<open>ui_\<close>; a frame that passes both is left in \<open>checked\<close>.\<close>

definition player_Send :: "('c, 'p) av_codec \<Rightarrow> string \<Rightarrow> 'c stream \<Rightarrow> cint \<Rightarrow> av_packet \<Rightarrow>
    ('c, 'p) stream_player \<Rightarrow> unit call \<times> ('c, 'p) stream_player" where
  "player_Send ff i s type pkt p =
     (if i \<noteq> player_id p then (Ok (), p)
      else
        bind_call (player_op s type p) (\<lambda>op p.
          case GetFrame ff pkt op of
            (r, op) \<Rightarrow>
              bind_call (r, p\<lparr>player_ops := (player_ops p)(type \<mapsto> op)\<rparr>) (\<lambda>f p.
                case f of
                  None \<Rightarrow> (Ok (), p)
                | Some f \<Rightarrow>
                    if type \<noteq> AVMEDIA_TYPE_VIDEO then (Ok (), p)
                    else if window_ok p then (Ok (), if window p then p\<lparr>checked := Some f\<rparr> else p)
                    else (Ok (), p\<lparr>window_ok := True, window_size := Some (frame_width f, frame_height f)\<rparr>))))"

text \<open>The section under the mutex that follows; a null \<open>ui_\<close> is dereferenced.\<close>

definition player_Update :: "('c, 'p) stream_player \<Rightarrow> ('c, 'p) stream_player outcome" where
  "player_Update p =
     (case checked p of
        None \<Rightarrow> Return p
      | Some f \<Rightarrow> if window p then Return (p\<lparr>checked := None, window_shown := window_shown p @ [f]\<rparr>) else OutOfBounds)"

section \<open>The thread of the window\<close>

text \<open>One step of the thread.  \<open>ui_->Run\<close> does not return by itself: it stays in its loop until the user closes the
  window, or returns at once if the window cannot be opened; either is \<open>run_returns\<close>.\<close>

definition window_step :: "('c, 'p) stream_player \<Rightarrow> ('c, 'p) stream_player" where
  "window_step p =
     (case window_at p of
        WaitFrame \<Rightarrow> if window_ok p then p\<lparr>window_at := MakeWindow\<rparr> else p
      | MakeWindow \<Rightarrow> p\<lparr>window := True, window_at := RunWindow\<rparr>
      | RunWindow \<Rightarrow> if run_over p then p\<lparr>window := False, window_at := WindowOver\<rparr> else p
      | WindowOver \<Rightarrow> p)"

definition run_returns :: "('c, 'p) stream_player \<Rightarrow> ('c, 'p) stream_player" where
  "run_returns p = (if window_at p = RunWindow then p\<lparr>run_over := True\<rparr> else p)"

text \<open>\<open>Stop\<close> joins the thread: \<open>None\<close> as long as it has not ended.\<close>

definition player_Stop :: "('c, 'p) stream_player \<Rightarrow> ('c, 'p) stream_player option" where
  "player_Stop p = (if window_at p = WindowOver then Some p else None)"

inductive pstep :: "('c, 'p) av_codec \<Rightarrow> ('c, 'p) stream_player \<Rightarrow> ('c, 'p) stream_player \<Rightarrow> bool" for ff where
  send: "checked p = None \<Longrightarrow> player_Send ff i s type pkt p = (r, p') \<Longrightarrow> pstep ff p p'"
| update: "player_Update p = Return p' \<Longrightarrow> pstep ff p p'"
| window: "pstep ff p (window_step p)"
| returns: "pstep ff p (run_returns p)"

inductive preach :: "('c, 'p) av_codec \<Rightarrow> string \<Rightarrow> ('c, 'p) stream_player \<Rightarrow> bool" for ff i where
  start: "preach ff i (StreamPlayer i)"
| step: "preach ff i p \<Longrightarrow> pstep ff p p' \<Longrightarrow> preach ff i p'"

section \<open>Invariant\<close>

definition pinv :: "('c, 'p) stream_player \<Rightarrow> bool" where
  "pinv p \<longleftrightarrow>
     (window p \<longleftrightarrow> window_at p = RunWindow) \<and> (window_at p \<noteq> WaitFrame \<longrightarrow> window_ok p) \<and>
     (run_over p \<longrightarrow> window_at p \<in> {RunWindow, WindowOver}) \<and> (window_at p = WindowOver \<longrightarrow> run_over p) \<and>
     (checked p \<noteq> None \<longrightarrow> window_at p \<in> {RunWindow, WindowOver}) \<and> (window_ok p \<longleftrightarrow> \<not> Option.is_none (window_size p))"

text \<open>What \<open>player_op\<close> leaves alone, and what \<open>Send\<close> does to the window.\<close>

lemma player_op_state:
  "player_op s type p = (r, p') \<Longrightarrow>
   window p' = window p \<and> window_at p' = window_at p \<and>
   window_ok p' = window_ok p \<and> window_size p' = window_size p \<and> checked p' = checked p"
  by (auto simp: player_op_def GetStreamSub_def throw_if_def Let_def split: option.splits if_splits)

lemma player_Send_state:
  assumes "player_Send ff i s type pkt p = (r, p')"
  shows "window p' = window p \<and> window_at p' = window_at p \<and>
    (window_ok p' = window_ok p \<and> window_size p' = window_size p \<and> checked p' = checked p \<or>
     window_ok p \<and> window p \<and> window_ok p' \<and> window_size p' = window_size p \<or>
     \<not> window_ok p \<and> window_ok p' \<and> \<not> Option.is_none (window_size p') \<and> checked p' = checked p)"
proof -
  obtain r1 p1 where op: "player_op s type p = (r1, p1)" by (cases "player_op s type p")
  note kept = player_op_state [OF op]
  show ?thesis
  proof (cases "i = player_id p \<and> (\<exists>op. r1 = Ok op)")
    case False
    then show ?thesis using assms op kept by (cases r1) (auto simp: player_Send_def split: if_splits)
  next
    case True
    then obtain op' where r1: "i = player_id p" "r1 = Ok op'" by blast
    obtain r2 op2 where "GetFrame ff pkt op' = (r2, op2)" by (cases "GetFrame ff pkt op'")
    then show ?thesis
      using assms op kept r1 by (cases r2) (auto simp: player_Send_def split: if_splits option.splits)
  qed
qed

lemma player_op_run_over: "player_op s type p = (r, p') \<Longrightarrow> run_over p' = run_over p"
  by (auto simp: player_op_def GetStreamSub_def throw_if_def Let_def split: option.splits if_splits)

lemma player_Send_run_over:
  assumes "player_Send ff i s type pkt p = (r, p')"
  shows "run_over p' = run_over p"
proof (cases "i = player_id p")
  case True
  obtain r1 p1 where op: "player_op s type p = (r1, p1)" by (cases "player_op s type p")
  then have kept: "run_over p1 = run_over p" by (rule player_op_run_over)
  show ?thesis
  proof (cases r1)
    case (Ok op')
    obtain r2 op2 where "GetFrame ff pkt op' = (r2, op2)" by (cases "GetFrame ff pkt op'")
    then show ?thesis
      using assms True op kept Ok by (cases r2) (auto simp: player_Send_def split: option.splits if_splits)
  qed (use assms True op kept in \<open>auto simp: player_Send_def\<close>)
qed (use assms in \<open>simp add: player_Send_def\<close>)

lemma pstep_pinv: "pstep ff p p' \<Longrightarrow> pinv p \<Longrightarrow> pinv p'"
proof (induction rule: pstep.induct)
  case (send p i s type pkt r p')
  then show ?case using player_Send_state [OF send(2)] player_Send_run_over [OF send(2)] by (auto simp: pinv_def)
next
  case (update p p')
  then show ?case by (auto simp: pinv_def player_Update_def split: option.splits if_splits)
next
  case (window p)
  then show ?case by (auto simp: pinv_def window_step_def split: window_pc.splits)
next
  case (returns p)
  then show ?case by (auto simp: pinv_def run_returns_def)
qed

lemma preach_pinv: "preach ff i p \<Longrightarrow> pinv p"
proof (induction rule: preach.induct)
  case start
  show ?case by (simp add: StreamPlayer_def pinv_def)
qed (rule pstep_pinv)

section \<open>Properties\<close>

text \<open>Steps of the window's thread alone.\<close>

fun window_steps :: "nat \<Rightarrow> ('c, 'p) stream_player \<Rightarrow> ('c, 'p) stream_player" where
  "window_steps 0 p = p"
| "window_steps (Suc n) p = window_steps n (window_step p)"

text \<open>C25.  The proxy's player dereferences a null pointer exactly when the user closes the window between the two
  halves of \<open>Send\<close>: a frame has passed the test of \<open>ui_\<close> and the window's thread is over.\<close>

theorem closing_the_window_crashes_iff:
  assumes "preach ff i p"
  shows "player_Update p = OutOfBounds \<longleftrightarrow> checked p \<noteq> None \<and> window_at p = WindowOver"
  using preach_pinv [OF assms] by (auto simp: pinv_def player_Update_def split: option.splits)

text \<open>What can happen while \<open>main\<close> waits in \<open>Stop\<close>, which it does when the streams have been stopped: steps of the
  window's thread, and the return of \<open>Run\<close>.\<close>

datatype wait_event = ThreadStep | RunReturns

fun wait_run :: "wait_event list \<Rightarrow> ('c, 'p) stream_player \<Rightarrow> ('c, 'p) stream_player" where
  "wait_run [] p = p"
| "wait_run (ThreadStep # es) p = wait_run es (window_step p)"
| "wait_run (RunReturns # es) p = wait_run es (run_returns p)"

lemma wait_run_pinv:
  "pinv p \<Longrightarrow> pinv (wait_run es p) \<and> window_ok (wait_run es p) = window_ok p \<and>
     (run_over (wait_run es p) \<longrightarrow> run_over p \<or> RunReturns \<in> set es)"
proof (induction es p rule: wait_run.induct)
  case (2 es p)
  have "pinv (window_step p)" using pstep_pinv [OF pstep.window 2(2)] .
  moreover have "window_ok (window_step p) = window_ok p" "run_over (window_step p) = run_over p"
    by (simp_all add: window_step_def split: window_pc.split)
  ultimately show ?case using 2 by simp
next
  case (3 es p)
  have "pinv (run_returns p)" using pstep_pinv [OF pstep.returns 3(2)] .
  moreover have "window_ok (run_returns p) = window_ok p" by (simp add: run_returns_def)
  ultimately show ?case using 3 by simp
qed simp

text \<open>C30.  When \<open>Stop\<close> returns.  It joins the window's thread, from any state the player reaches.  It returns only if a
  first frame has come and \<open>Run\<close> has returned, that is if the user closes the window (or it could not be opened); and
  if a first frame has come, the thread ends as soon as it has got into \<open>Run\<close>, which takes at most two steps, \<open>Run\<close>
  returns, and it makes one more step.  So the proxy of a stream that never gave a frame never exits, and that of one
  that did waits for its user.\<close>

theorem join_returns_iff_a_frame_came:
  assumes "preach ff i p"
  shows "(player_Stop (wait_run es p) \<noteq> None \<longrightarrow> window_ok p \<and> (run_over p \<or> RunReturns \<in> set es)) \<and>
    (player_Stop (wait_run [ThreadStep, ThreadStep, RunReturns, ThreadStep] p) \<noteq> None \<longleftrightarrow> window_ok p)"
proof -
  have only: "window_ok p \<and> (run_over p \<or> RunReturns \<in> set es)" if "player_Stop (wait_run es p) \<noteq> None" for es
    using that wait_run_pinv [OF preach_pinv [OF assms], of es] by (auto simp: player_Stop_def pinv_def split: if_splits)
  moreover have "player_Stop (wait_run [ThreadStep, ThreadStep, RunReturns, ThreadStep] p) \<noteq> None" if "window_ok p"
    using that by (cases "window_at p") (auto simp: window_step_def run_returns_def player_Stop_def)
  ultimately show ?thesis by blast
qed

text \<open>A player whose window is closed while a second frame is handed in.\<close>

definition sample_camera :: "int list stream" where
  "sample_camera = new_stream
     \<lparr>stream_subs := [AVMEDIA_TYPE_VIDEO \<mapsto> \<lparr>sub_index = 0, sub_op = StreamVideoOp player_video_options\<rparr>]\<rparr>"

definition sample_send :: "(int list, int \<times> int) stream_player \<Rightarrow> (int list, int \<times> int) stream_player" where
  "sample_send p = snd (player_Send sample_codec ''a'' sample_camera AVMEDIA_TYPE_VIDEO av_packet_alloc p)"

definition sample_closed :: "(int list, int \<times> int) stream_player" where
  "sample_closed = window_step (run_returns (sample_send (window_steps 2 (sample_send (StreamPlayer ''a'')))))"

lemma sample_send_reach: "preach sample_codec i p \<Longrightarrow> checked p = None \<Longrightarrow> preach sample_codec i (sample_send p)"
  unfolding sample_send_def by (metis pstep.send preach.step surjective_pairing)

lemma window_steps_reach: "preach ff i p \<Longrightarrow> preach ff i (window_steps n p)"
  by (induction n arbitrary: p) (simp_all add: preach.step [OF _ pstep.window])

lemmas sample_runs = sample_send_def player_Send_def player_op_def sample_camera_def GetStreamSub_def new_stream_def
  GetFrame_def open_codec_def decode_packet_def scale_frame_def sws_wanted_def sample_codec_def StreamPlayer_def
  StreamVideoOp_def player_video_options_def window_step_def run_returns_def numeral_2_eq_2 Let_def

lemma sample_closed_reach: "preach sample_codec ''a'' sample_closed"
proof -
  have "preach sample_codec ''a'' (window_steps 2 (sample_send (StreamPlayer ''a'')))"
    by (intro window_steps_reach sample_send_reach preach.start) (simp add: StreamPlayer_def)
  then have "preach sample_codec ''a'' (sample_send (window_steps 2 (sample_send (StreamPlayer ''a''))))"
    by (rule sample_send_reach) (simp add: sample_runs)
  then show ?thesis unfolding sample_closed_def by (intro preach.step [OF _ pstep.window] preach.step [OF _ pstep.returns])
qed

theorem closing_the_window_crashes_iff_witness:
  "player_Update sample_closed = OutOfBounds"
  using closing_the_window_crashes_iff [OF sample_closed_reach] by (simp add: sample_closed_def sample_runs)

theorem join_returns_iff_a_frame_came_witness:
  "player_Stop (wait_run [ThreadStep, ThreadStep, RunReturns, ThreadStep] (sample_send (StreamPlayer ''a''))) \<noteq> None \<and>
   player_Stop (wait_run (replicate 9 ThreadStep) (sample_send (StreamPlayer ''a''))) = None \<and>
   player_Stop (wait_run [RunReturns, ThreadStep] (StreamPlayer ''a'' :: (int list, int \<times> int) stream_player)) = None"
proof -
  have "preach sample_codec ''a'' (sample_send (StreamPlayer ''a''))"
    by (intro sample_send_reach preach.start) (simp add: StreamPlayer_def)
  moreover have "window_ok (sample_send (StreamPlayer ''a''))" "\<not> run_over (sample_send (StreamPlayer ''a''))"
    by (simp_all add: sample_runs)
  moreover have "\<not> window_ok (StreamPlayer ''a'' :: (int list, int \<times> int) stream_player)" by (simp add: StreamPlayer_def)
  ultimately show ?thesis
    using join_returns_iff_a_frame_came [of sample_codec "''a''" "sample_send (StreamPlayer ''a'')" "replicate 9 ThreadStep"]
      join_returns_iff_a_frame_came [OF preach.start [where ff = sample_codec and i = "''a''"], of "[RunReturns, ThreadStep]"]
    by auto
qed

end
