(* ===== verification/ProxyMain.thy ===== *)
theory ProxyMain imports Listener Delivery StreamPlayer begin

text \<open>
  \<open>WsServer::Run\<close> (\<open>rtsp-ws-proxy/ws_server_plain.cc\<close>, and its TLS variant) and the \<open>main\<close> of the proxy around it:
  the threads of the server, the signals that stop it, what the packets of a stream are given to, and the
  order in which \<open>main\<close> starts and stops its parts.  The \<open>io_context\<close> is a local variable of \<open>Run\<close>: what still refers to it
  afterwards refers to an object that is gone.
\<close>

section \<open>Run\<close>

record run_options =
  addr :: string
  port :: int
  threads :: int
  signal_exit_enable :: bool
  thread_main_block :: bool
  thread_exit_block :: bool
  has_on_stop :: bool
  has_on_exit :: bool

definition WsServerOptions :: run_options where
  "WsServerOptions = \<lparr>addr = ''0.0.0.0'', port = 8080, threads = 3, signal_exit_enable = True, thread_main_block = True,
     thread_exit_block = True, has_on_stop = False, has_on_exit = False\<rparr>"

datatype run_event =
    MakesContext                           \<comment> \<open>the local \<open>io_context ioc\<close>\<close>
  | Listens string "16 word"               \<comment> \<open>the coroutine of \<open>DoListen\<close> is spawned\<close>
  | AwaitsSignals
  | StartsThread                           \<comment> \<open>a thread in \<open>ioc.run()\<close>\<close>
  | MainRuns                               \<comment> \<open>\<open>ioc.run()\<close> on the calling thread\<close>
  | StopsContext | CallsOnStop | CallsOnExit
  | JoinsThreads
  | DestroysContext                        \<comment> \<open>the end of the scope of \<open>ioc\<close>\<close>

text \<open>\<open>StillRuns\<close>: the call does not return.  \<open>Terminates\<close>: \<open>std::terminate\<close>, when a thread that can be joined is destroyed.\<close>

datatype run_end = Throws string | StillRuns | Terminates | Returns

text \<open>What happens outside: which addresses parse, whether \<open>SIGINT\<close> or \<open>SIGTERM\<close> arrives, and whether \<open>DoListen\<close>
  stays in its loop (it returns when opening, binding or listening fails).  \<open>ioc.run()\<close> returns when the context
  is stopped, or at once when nothing is left to wait for.\<close>

record run_env =
  address_parses :: "string \<Rightarrow> bool"
  signal_arrives :: bool
  stays_listening :: bool

definition context_ends :: "run_env \<Rightarrow> run_options \<Rightarrow> bool" where
  "context_ends env opts \<longleftrightarrow> (if signal_exit_enable opts then signal_arrives env else \<not> stays_listening env)"

definition stop_events :: "run_options \<Rightarrow> run_event list" where
  "stop_events opts = (if signal_exit_enable opts then [StopsContext] @ (if has_on_stop opts then [CallsOnStop] else []) else [])"

definition exit_events :: "run_options \<Rightarrow> run_event list" where
  "exit_events opts = (if has_on_exit opts then [CallsOnExit] else [])"

text \<open>\<open>v.reserve(n)\<close> of a negative \<open>n\<close>, as a \<open>size_t\<close>, throws \<open>std::length_error\<close>.  The threads that \<open>v\<close> still holds at
  the end are joined, or destroyed; \<open>ioc\<close>, which was declared before, is destroyed after \<open>v\<close> on every way out.\<close>

definition Run :: "run_env \<Rightarrow> run_options \<Rightarrow> run_end \<times> run_event list" where
  "Run env opts =
     (if \<not> address_parses env (addr opts) then (Throws ''make_address'', [])
      else
        let es = [MakesContext, Listens (addr opts) (word_of_int (port opts))] @ (if signal_exit_enable opts then [AwaitsSignals] else []);
            n = (if thread_main_block opts then threads opts - 1 else threads opts) in
        if n < 0 then (Throws ''vector::reserve'', es @ [DestroysContext])
        else
          let es = es @ replicate (nat n) StartsThread @ (if thread_main_block opts then [MainRuns] else []) in
          if thread_main_block opts \<and> \<not> context_ends env opts then (StillRuns, es)
          else
            let es = es @ (if thread_main_block opts then stop_events opts else []) @ exit_events opts in
            if \<not> thread_exit_block opts then (if n = 0 then (Returns, es @ [DestroysContext]) else (Terminates, es))
            else if n = 0 then (Returns, es @ [JoinsThreads, DestroysContext])
            else if \<not> context_ends env opts then (StillRuns, es)
            else (Returns, es @ (if thread_main_block opts then [] else stop_events opts) @ [JoinsThreads, DestroysContext]))"

text \<open>\<open>WsServerSSL::Run\<close>: the certificates are loaded before anything is started.\<close>

definition ssl_Run :: "run_env \<Rightarrow> (string \<Rightarrow> string option) \<Rightarrow> string \<Rightarrow> string \<Rightarrow> string \<Rightarrow> run_options \<Rightarrow>
    (run_end \<times> run_event list) outcome" where
  "ssl_Run env file crt key dh opts =
     (if \<not> address_parses env (addr opts) then Return (Throws ''make_address'', [])
      else bind_outcome (LoadServerCertificate file crt key dh) (\<lambda>_. Return (Run env opts)))"

section \<open>The packets of a stream\<close>

text \<open>The life of the \<open>io_context\<close>.\<close>

datatype io_context = NotMade | Alive | Gone

fun context_step :: "run_event \<Rightarrow> io_context \<Rightarrow> io_context" where
  "context_step MakesContext c = Alive"
| "context_step DestroysContext c = Gone"
| "context_step _ c = c"

text \<open>The packet callback that \<open>main\<close> makes for each stream: the server, then the proxy's own window if there is one.
  \<open>WsSession::Send\<close> posts a call to the executor of its socket, which refers to the \<open>io_context\<close>: an object that must
  exist when a call is posted to it.\<close>

definition server_Send :: "io_context \<Rightarrow> string \<Rightarrow> nat \<Rightarrow> cint \<Rightarrow> av_packet \<Rightarrow> server \<Rightarrow> server outcome" where
  "server_Send ctx i stream type pkt sv =
     bind_outcome (Server.Send i stream type pkt sv) (\<lambda>sv'.
       if ctx = Gone \<and> posted sv' \<noteq> posted sv then OutOfBounds else Return sv')"

definition packet_callback :: "('c, 'p) av_codec \<Rightarrow> io_context \<Rightarrow> string \<Rightarrow> nat \<Rightarrow> 'c stream \<Rightarrow> cint \<Rightarrow> av_packet \<Rightarrow>
    server \<times> ('c, 'p) stream_player option \<Rightarrow> (unit call \<times> server \<times> ('c, 'p) stream_player option) outcome" where
  "packet_callback ff ctx i stream s type pkt state =
     (case state of (sv, pl) \<Rightarrow>
      bind_outcome (server_Send ctx i stream type pkt sv) (\<lambda>sv.
        case pl of
          None \<Rightarrow> Return (Ok (), sv, None)
        | Some p \<Rightarrow> (case player_Send ff i s type pkt p of (r, p) \<Rightarrow> Return (r, sv, Some p))))"

section \<open>main\<close>

text \<open>What \<open>main\<close> does, in order: it starts the streams \<open>ids\<close> (and the windows \<open>ps\<close>), runs the server, and when \<open>Run\<close> has
  returned it stops the streams, then the windows.\<close>

datatype main_event = StartsStream string | InRun run_event | StopsStream string | StopsPlayer string

definition main_events :: "run_env \<Rightarrow> run_options \<Rightarrow> string list \<Rightarrow> string list \<Rightarrow> main_event list" where
  "main_events env opts ids ps =
     map StartsStream ids @ map InRun (snd (Run env opts)) @
     (if fst (Run env opts) = Returns then map StopsStream ids @ map StopsPlayer ps else [])"

text \<open>A stream's thread calls its callback from its start until it has been stopped, which joins it.\<close>

definition stream_runs :: "string \<Rightarrow> main_event list \<Rightarrow> bool" where
  "stream_runs i es \<longleftrightarrow> StartsStream i \<in> set es \<and> StopsStream i \<notin> set es"

fun context_event :: "main_event \<Rightarrow> io_context \<Rightarrow> io_context" where
  "context_event (InRun e) c = context_step e c"
| "context_event _ c = c"

definition context_after :: "main_event list \<Rightarrow> io_context" where
  "context_after es = fold context_event es NotMade"

section \<open>Lemmas\<close>

lemma rooms_ok_run:
  assumes "server_run es sv = Return sv'" "rooms_ok sv"
  shows "rooms_ok sv'"
  using assms
proof (induction es arbitrary: sv)
  case (Cons e es)
  then show ?case using on_event_step rooms_ok_step by (fastforce simp: bind_outcome_eq_Return)
qed simp

lemma rooms_ok_new: "rooms_ok (WsStreamServer opts)"
  by (simp add: rooms_ok_def WsStreamServer_def)

lemma in_room_run:
  assumes "rooms_ok sv" "sessions sv k = Some s" "in_room k (session_id s) sv" "server_run es sv = Return sv'"
    and "list_all (\<lambda>e. \<not> fails_session k e) es"
  shows "in_room k (session_id s) sv' \<and> (\<exists>s'. sessions sv' k = Some s' \<and> session_id s' = session_id s)"
  using assms
proof (induction es arbitrary: sv s)
  case (Cons e es)
  obtain sv1 where e: "on_event e sv = Return sv1" and es: "server_run es sv1 = Return sv'"
    using Cons.prems(4) by (auto simp: bind_outcome_eq_Return)
  obtain s1 where s1: "sessions sv1 k = Some s1" "session_id s1 = session_id s"
    using session_id_event [OF Cons.prems(1,2) e] by blast
  have "rooms_ok sv1" using on_event_step [OF e] rooms_ok_step Cons.prems(1) by blast
  moreover have "in_room k (session_id s1) sv1" using in_room_event [OF Cons.prems(1,3) e] Cons.prems(5) s1 by simp
  ultimately show ?case using Cons.IH [OF _ s1(1) _ es] Cons.prems(5) s1(2) by auto
qed simp

lemma accepted_joins: "sessions sv k = Some s \<Longrightarrow> in_room k (session_id s) (OnAccept k Success sv)"
  by (auto simp: OnAccept_def session_opened_def on_session_lookup in_room_def room_Join_def room_at_def Let_def
      split: option.splits)

lemma server_Send_gone:
  "server_Send Gone i stream type pkt sv = OutOfBounds \<longleftrightarrow> (\<exists>k. in_room k i sv)"
  by (auto simp: server_Send_def Send_eq room_at_def in_room_def ex_in_conv split: option.splits)

lemma server_Send_alive: "ctx \<noteq> Gone \<Longrightarrow> \<exists>sv'. server_Send ctx i stream type pkt sv = Return sv'"
  by (auto simp: server_Send_def Send_eq split: prod.splits)

lemma packet_callback_breaks_iff:
  "packet_callback ff ctx i stream s type pkt (sv, pl) = OutOfBounds \<longleftrightarrow> ctx = Gone \<and> (\<exists>k. in_room k i sv)"
proof (cases "ctx = Gone")
  case True
  then show ?thesis
    using server_Send_gone [of i stream type pkt sv]
    by (cases "server_Send ctx i stream type pkt sv"; cases pl) (auto simp: packet_callback_def split: prod.splits)
next
  case False
  then obtain sv' where "server_Send ctx i stream type pkt sv = Return sv'" using server_Send_alive by blast
  then show ?thesis using False by (cases pl) (auto simp: packet_callback_def split: prod.splits)
qed

text \<open>A thread is joined before \<open>Run\<close> returns, and \<open>Run\<close> returns exactly in these cases.\<close>

lemma Run_returns_iff:
  "fst (Run env opts) = Returns \<longleftrightarrow>
     (let n = if thread_main_block opts then threads opts - 1 else threads opts in
      address_parses env (addr opts) \<and> 0 \<le> n \<and> (n = 0 \<or> thread_exit_block opts) \<and>
      (thread_main_block opts \<or> 0 < n \<longrightarrow> context_ends env opts))"
  by (auto simp: Run_def Let_def)

lemma Run_joins_its_threads:
  assumes "fst (Run env opts) = Returns" and "StartsThread \<in> set (snd (Run env opts))"
  shows "\<exists>es. snd (Run env opts) = es @ [JoinsThreads, DestroysContext]"
  using assms by (auto simp: Run_def stop_events_def exit_events_def Let_def split: if_splits)

text \<open>A listener that fails is only logged: the proxy goes on reading its cameras and waits for a signal.\<close>

lemma failed_listener_still_runs:
  assumes "\<not> stays_listening env" "signal_exit_enable opts" "\<not> signal_arrives env"
    and "address_parses env (addr opts)" "thread_main_block opts" "1 \<le> threads opts"
  shows "fst (Run env opts) = StillRuns"
  using assms by (simp add: Run_def context_ends_def Let_def)

text \<open>A decoding error in the proxy's own window is thrown into the thread of the stream, which it ends for the
  clients of the server as well.\<close>

lemma window_error_reaches_the_stream:
  assumes "player_Send ff i s type pkt p = (Throw e, p')" and "server_Send ctx i stream type pkt sv = Return sv'"
  shows "packet_callback ff ctx i stream s type pkt (sv, Some p) = Return (Throw e, sv', Some p')"
  using assms by (simp add: packet_callback_def)

text \<open>When \<open>Run\<close> returns it has destroyed its context, and nothing else in \<open>main\<close> makes one.\<close>

lemma Run_destroys_its_context:
  assumes "fst (Run env opts) = Returns"
  shows "\<exists>es. snd (Run env opts) = es @ [DestroysContext]"
  using assms by (auto simp: Run_def Let_def split: if_splits)

lemma fold_context_other: "InRun ` UNIV \<inter> set es = {} \<Longrightarrow> fold context_event es c = c"
proof (induction es)
  case (Cons e es)
  then show ?case by (cases e) auto
qed simp

lemma fold_starts [simp]: "fold context_event (map StartsStream ids) c = c"
  by (rule fold_context_other) auto

section \<open>Properties\<close>

text \<open>C35.  Taking the proxy down.  When \<open>Run\<close> returns, the \<open>io_context\<close> that was its local is gone, and the streams are only
  stopped afterwards.  In between, for a stream with a client that was accepted and has neither failed nor left, the
  next packet of the stream is posted to the executor of the context that is gone.  At any point of \<open>main\<close> a packet's
  callback can fail so only if the context is gone by then and a session is in the stream's room.\<close>

theorem connected_client_breaks_the_shutdown:
  assumes "fst (Run env opts) = Returns" and "session_id s \<in> set ids"
    and "server_run es (WsStreamServer sopts) = Return sv" and "sessions sv k = Some s"
    and "server_run fs (OnAccept k Success sv) = Return sv'" and "list_all (\<lambda>e. \<not> fails_session k e) fs"
  shows "let pre = map StartsStream ids @ map InRun (snd (Run env opts)) in
    (\<exists>post. main_events env opts ids ps = pre @ post) \<and> stream_runs (session_id s) pre \<and>
    packet_callback ff (context_after pre) (session_id s) stream st type pkt (sv', pl) = OutOfBounds \<and>
    (packet_callback ff (context_after pre') (session_id s) stream st type pkt (sv', pl) = OutOfBounds \<longleftrightarrow>
      context_after pre' = Gone)"
proof -
  define sv1 where "sv1 = OnAccept k Success sv"
  have ok: "rooms_ok sv" using rooms_ok_run [OF assms(3) rooms_ok_new] .
  then have ok1: "rooms_ok sv1" unfolding sv1_def by (rule rooms_ok_step [OF sstep.accepted])
  have s1: "\<exists>s1. sessions sv1 k = Some s1 \<and> session_id s1 = session_id s"
    using assms(4) by (simp add: sv1_def completions_lookup on_session_lookup)
  then obtain s1 where s1: "sessions sv1 k = Some s1" "session_id s1 = session_id s" by blast
  have "in_room k (session_id s1) sv1"
    using accepted_joins [OF assms(4)] s1(2) by (simp add: sv1_def)
  from in_room_run [OF ok1 s1(1) this assms(5) [folded sv1_def] assms(6)] have room: "in_room k (session_id s) sv'"
    using s1(2) by simp
  obtain rs where rs: "snd (Run env opts) = rs @ [DestroysContext]"
    using Run_destroys_its_context [OF assms(1)] by blast
  have "context_after (map StartsStream ids @ map InRun (snd (Run env opts))) = Gone"
    unfolding rs by (simp add: context_after_def)
  moreover have "stream_runs (session_id s) (map StartsStream ids @ map InRun (snd (Run env opts)))"
    using assms(2) by (auto simp: stream_runs_def)
  ultimately show ?thesis using room by (auto simp: Let_def packet_callback_breaks_iff main_events_def)
qed

theorem connected_client_breaks_the_shutdown_witness:
  "\<exists>sv s. server_run [Broadcast ''a'' 7 0 (packet sample_data), Connects ((sample_request Get)\<lparr>target := ''/stream/a''\<rparr>)]
      (WsStreamServer sample_server_options) = Return sv \<and> sessions sv 0 = Some s \<and> session_id s = ''a'' \<and>
    packet_callback sample_codec
      (context_after ([StartsStream ''a''] @ map InRun (snd (Run \<lparr>address_parses = (\<lambda>_. True), signal_arrives = True,
        stays_listening = True\<rparr> WsServerOptions)))) ''a'' 7 sample_camera 0 (packet sample_data) (OnAccept 0 Success sv, None) = OutOfBounds"
proof -
  let ?env = "\<lparr>address_parses = (\<lambda>_. True), signal_arrives = True, stays_listening = True\<rparr>"
  obtain sv s where run: "server_run [Broadcast ''a'' 7 0 (packet sample_data), Connects ((sample_request Get)\<lparr>target := ''/stream/a''\<rparr>)]
      (WsStreamServer sample_server_options) = Return sv" and s: "sessions sv 0 = Some s" "session_id s = ''a''"
    by (simp add: Send_eq room_at_def WsStreamServer_def DoSessionWebSocket_def starts_with_def sample_server_options_def Let_def)
  have "fst (Run ?env WsServerOptions) = Returns"
    by (simp add: Run_returns_iff WsServerOptions_def context_ends_def)
  then show ?thesis
    using connected_client_breaks_the_shutdown [OF _ _ run s(1), of ?env WsServerOptions "[''a'']" "[]" "OnAccept 0 Success sv"
      "[]" sample_codec 7 sample_camera 0 "packet sample_data" None] run s
    by (auto simp: Let_def)
qed

end
