(* ===== verification/Util.thy ===== *)
theory Util imports Prelude begin

text \<open>
  The utilities of \<open>common/util\<close>: the blocking queue (\<open>blocking_queue.h\<close>), the time records and
  statistics (\<open>logext.h\<close>) and the rate limiter (\<open>rate.h\<close>).  Time points are integers in the
  clock's unit; each reading of the clock is an argument.  A call that would block gives no result.
\<close>

section \<open>BlockingQueue\<close>

record 'a blocking_queue =
  bq_queue :: "'a list"
  max_size :: nat
  dropped :: "'a option"                  \<comment> \<open>nothing dropped yet: a default value\<close>

definition BlockingQueue :: "nat \<Rightarrow> 'a blocking_queue" where
  "BlockingQueue n = \<lparr>bq_queue = [], max_size = n, dropped = None\<rparr>"

definition FixMaxSize :: "'a blocking_queue \<Rightarrow> bool \<times> 'a blocking_queue" where
  "FixMaxSize q =
     (if 0 < max_size q \<and> max_size q < length (bq_queue q)
      then (True, q\<lparr>dropped := Some (hd (bq_queue q)), bq_queue := tl (bq_queue q)\<rparr>)
      else (False, q))"

definition Put :: "'a \<Rightarrow> 'a blocking_queue \<Rightarrow> bool \<times> 'a blocking_queue" where
  "Put t q = FixMaxSize (q\<lparr>bq_queue := bq_queue q @ [t]\<rparr>)"

text \<open>\<open>Take\<close>, \<open>Peek\<close> and \<open>TakeAll\<close> wait until the queue is not empty.\<close>

definition Take :: "'a blocking_queue \<Rightarrow> ('a \<times> 'a blocking_queue) option" where
  "Take q = (case bq_queue q of [] \<Rightarrow> None | t # ts \<Rightarrow> Some (t, q\<lparr>bq_queue := ts\<rparr>))"

definition TryTake :: "'a blocking_queue \<Rightarrow> 'a option \<times> 'a blocking_queue" where
  "TryTake q = (case bq_queue q of [] \<Rightarrow> (None, q) | t # ts \<Rightarrow> (Some t, q\<lparr>bq_queue := ts\<rparr>))"

definition Peek :: "'a blocking_queue \<Rightarrow> 'a option" where
  "Peek q = (case bq_queue q of [] \<Rightarrow> None | t # ts \<Rightarrow> Some t)"

definition TryPeek :: "'a blocking_queue \<Rightarrow> 'a option" where
  "TryPeek q = (case bq_queue q of [] \<Rightarrow> None | t # ts \<Rightarrow> Some t)"

definition TakeAll :: "'a blocking_queue \<Rightarrow> ('a list \<times> 'a blocking_queue) option" where
  "TakeAll q = (if bq_queue q = [] then None else Some (bq_queue q, q\<lparr>bq_queue := []\<rparr>))"

definition MoveAll :: "'a blocking_queue \<Rightarrow> 'a list \<times> 'a blocking_queue" where
  "MoveAll q = (bq_queue q, q\<lparr>bq_queue := []\<rparr>)"

definition Clear :: "'a blocking_queue \<Rightarrow> 'a blocking_queue" where
  "Clear q = q\<lparr>bq_queue := []\<rparr>"

definition Size :: "'a blocking_queue \<Rightarrow> nat" where
  "Size q = length (bq_queue q)"

text \<open>A producer and a consumer: \<open>Put\<close> and \<open>TryTake\<close> in any order.  What the calls returned: for each \<open>Put\<close> the item
  it dropped, if it says that it dropped one, and for each \<open>TryTake\<close> the item taken.\<close>

datatype 'a queue_call = DoPut 'a | DoTake

fun queue_op :: "'a queue_call \<Rightarrow> 'a blocking_queue \<Rightarrow> 'a option \<times> 'a blocking_queue" where
  "queue_op (DoPut t) q = (case Put t q of (full, q) \<Rightarrow> (if full then dropped q else None, q))"
| "queue_op DoTake q = TryTake q"

fun run_queue :: "'a queue_call list \<Rightarrow> 'a blocking_queue \<Rightarrow> 'a option list \<times> 'a blocking_queue" where
  "run_queue [] q = ([], q)"
| "run_queue (op # ops) q =
     (case queue_op op q of (r, q) \<Rightarrow> (case run_queue ops q of (rs, q) \<Rightarrow> (r # rs, q)))"

text \<open>The abstract specification, on the list of the items held: a \<open>Put\<close> keeps the \<open>n\<close> newest items (all of them for
  \<open>n = 0\<close>) and gives the item that leaves, if one does.\<close>

definition newest :: "nat \<Rightarrow> 'a list \<Rightarrow> 'a list" where
  "newest n xs = (if n = 0 then xs else drop (length xs - n) xs)"

fun fifo_op :: "nat \<Rightarrow> 'a queue_call \<Rightarrow> 'a list \<Rightarrow> 'a option \<times> 'a list" where
  "fifo_op n (DoPut t) xs = (if 0 < n \<and> length xs = n then Some (hd xs) else None, newest n (xs @ [t]))"
| "fifo_op n DoTake xs = (case xs of [] \<Rightarrow> (None, []) | x # xs \<Rightarrow> (Some x, xs))"

fun fifo :: "nat \<Rightarrow> 'a queue_call list \<Rightarrow> 'a list \<Rightarrow> 'a option list \<times> 'a list" where
  "fifo n [] xs = ([], xs)"
| "fifo n (op # ops) xs = (case fifo_op n op xs of (r, xs) \<Rightarrow> (case fifo n ops xs of (rs, xs) \<Rightarrow> (r # rs, xs)))"

definition within_limit :: "'a blocking_queue \<Rightarrow> bool" where
  "within_limit q \<longleftrightarrow> max_size q = 0 \<or> length (bq_queue q) \<le> max_size q"

lemma newest_snoc:
  "n = 0 \<or> length xs < n \<Longrightarrow> newest n (xs @ [t]) = xs @ [t]"
  "0 < n \<Longrightarrow> length xs = n \<Longrightarrow> newest n (xs @ [t]) = tl xs @ [t]"
  by (auto simp: newest_def drop_Suc)

text \<open>One operation refines its specification.\<close>

lemma queue_op_fifo:
  assumes "within_limit q"
  shows "fst (queue_op op q) = fst (fifo_op (max_size q) op (bq_queue q)) \<and>
    bq_queue (snd (queue_op op q)) = snd (fifo_op (max_size q) op (bq_queue q)) \<and>
    max_size (snd (queue_op op q)) = max_size q \<and> within_limit (snd (queue_op op q))"
proof (cases op)
  case (DoPut t)
  show ?thesis
  proof (cases "0 < max_size q \<and> length (bq_queue q) = max_size q")
    case True
    then have "bq_queue q \<noteq> []" by auto
    then show ?thesis
      using True DoPut newest_snoc(2) [of "max_size q" "bq_queue q" t] by (simp add: Put_def FixMaxSize_def within_limit_def)
  next
    case False
    then have "max_size q = 0 \<or> length (bq_queue q) < max_size q" using assms by (auto simp: within_limit_def)
    then show ?thesis
      using DoPut newest_snoc(1) [of "max_size q" "bq_queue q" t] by (auto simp: Put_def FixMaxSize_def within_limit_def)
  qed
next
  case DoTake
  then show ?thesis using assms by (cases "bq_queue q") (auto simp: TryTake_def within_limit_def)
qed

lemma run_queue_fifo:
  "within_limit q \<Longrightarrow> fst (run_queue ops q) = fst (fifo (max_size q) ops (bq_queue q)) \<and>
     bq_queue (snd (run_queue ops q)) = snd (fifo (max_size q) ops (bq_queue q)) \<and> within_limit (snd (run_queue ops q)) \<and>
     max_size (snd (run_queue ops q)) = max_size q"
proof (induction ops arbitrary: q)
  case (Cons op ops)
  note one = queue_op_fifo [OF Cons.prems, of op]
  show ?case
    using Cons.IH [of "snd (queue_op op q)"] one by (simp add: split_beta)
qed simp

text \<open>C33.  A blocking queue refines a bounded first-in first-out queue.  Whatever order the producer's \<open>Put\<close>s and the
  consumer's \<open>TryTake\<close>s run in, every \<open>TryTake\<close> returns the oldest item held, or nothing if there is none; every
  \<open>Put\<close> keeps the \<open>n\<close> newest items, so that it drops the oldest exactly if \<open>n\<close> are held already, says so, and leaves the
  dropped item to be read; a queue without limit (\<open>n = 0\<close>) drops nothing.\<close>

theorem queue_hands_over_in_order:
  "fst (run_queue ops (BlockingQueue n)) = fst (fifo n ops []) \<and>
   bq_queue (snd (run_queue ops (BlockingQueue n))) = snd (fifo n ops [])"
  using run_queue_fifo [of "BlockingQueue n" ops] by (simp add: BlockingQueue_def within_limit_def)

text \<open>What the specification means for a queue without limit: what was taken and what is left is what was put.\<close>

fun put_items :: "'a queue_call list \<Rightarrow> 'a list" where
  "put_items [] = []"
| "put_items (DoPut t # ops) = t # put_items ops"
| "put_items (DoTake # ops) = put_items ops"

lemma fifo_unlimited: "List.map_filter id (fst (fifo 0 ops xs)) @ snd (fifo 0 ops xs) = xs @ put_items ops"
  by (induction ops arbitrary: xs rule: put_items.induct)
    (auto simp: newest_def split_beta List.map_filter_simps split: list.split)

section \<open>Durations\<close>

text \<open>\<open>duration_cast\<close> of nanoseconds, the clock's ticks, to a coarser unit: truncation towards zero.\<close>

definition duration_cast :: "int \<Rightarrow> int \<Rightarrow> int" where
  "duration_cast ns d = sgn d * (\<bar>d\<bar> div ns)"

abbreviation to_milliseconds :: "int \<Rightarrow> int" where
  "to_milliseconds d \<equiv> duration_cast 1000000 d"

abbreviation to_seconds :: "int \<Rightarrow> int" where
  "to_seconds d \<equiv> duration_cast 1000000000 d"

abbreviation to_microseconds :: "int \<Rightarrow> int" where
  "to_microseconds d \<equiv> duration_cast 1000 d"

lemma duration_cast_nonpos: "d \<le> 0 \<Longrightarrow> 0 < ns \<Longrightarrow> duration_cast ns d \<le> 0"
  by (cases "d = 0") (simp_all add: duration_cast_def pos_imp_zdiv_nonneg_iff)

lemma duration_cast_nonneg: "0 \<le> d \<Longrightarrow> 0 < ns \<Longrightarrow> duration_cast ns d = d div ns"
  by (cases "d = 0") (simp_all add: duration_cast_def)

section \<open>TimeRecord\<close>

record time_slice =
  slice_label :: string
  time_beg :: int
  time_end :: int

record time_record =
  is_beg :: bool
  record_label :: string
  record_beg :: int
  record_end :: int                       \<comment> \<open>0, the epoch, until \<open>Log\<close>\<close>
  slices :: "time_slice list"

definition Reset :: "string \<Rightarrow> int \<Rightarrow> time_record \<Rightarrow> time_record" where
  "Reset label now r = \<lparr>is_beg = False, record_label = label, record_beg = now, record_end = 0, slices = []\<rparr>"

definition record_End :: "int \<Rightarrow> time_record \<Rightarrow> time_record" where
  "record_End now r =
     (if \<not> is_beg r then r
      else r\<lparr>is_beg := False, slices := butlast (slices r) @ [(last (slices r))\<lparr>time_end := now\<rparr>]\<rparr>)"

definition record_Beg :: "string \<Rightarrow> int \<Rightarrow> int \<Rightarrow> time_record \<Rightarrow> time_record" where
  "record_Beg label end_now now r =
     (let r = (if is_beg r then record_End end_now r else r) in
      r\<lparr>is_beg := True, slices := slices r @ [\<lparr>slice_label = label, time_beg = now, time_end = 0\<rparr>]\<rparr>)"

text \<open>\<open>Log\<close> ends the step that is under way; \<open>show_int\<close> is how a stream prints a number.\<close>

definition log_slice :: "(int \<Rightarrow> string) \<Rightarrow> time_slice \<Rightarrow> string" where
  "log_slice show_int s = slice_label s @ '' '' @ show_int (to_milliseconds (time_end s - time_beg s))"

fun log_slices :: "(int \<Rightarrow> string) \<Rightarrow> time_slice list \<Rightarrow> string" where
  "log_slices show_int [] = []"
| "log_slices show_int [s] = log_slice show_int s"
| "log_slices show_int (s # ss) = log_slice show_int s @ '', '' @ log_slices show_int ss"

definition record_Log :: "(int \<Rightarrow> string) \<Rightarrow> int \<Rightarrow> int \<Rightarrow> time_record \<Rightarrow> string \<times> time_record" where
  "record_Log show_int end_now now r =
     (let r = (if is_beg r then record_End end_now r else r)\<lparr>record_end := now\<rparr> in
      (record_label r @ '' cost '' @ show_int (to_milliseconds (record_end r - record_beg r)) @ '' ms'' @
       (if slices r \<noteq> [] then '', slices=['' @ log_slices show_int (slices r) @ ''] ms'' else []), r))"

text \<open>The steps of a task: each is begun when the one before it ends.\<close>

fun run_steps :: "(string \<times> int) list \<Rightarrow> time_record \<Rightarrow> time_record" where
  "run_steps [] r = r"
| "run_steps ((label, now) # steps) r = run_steps steps (record_Beg label now now r)"

fun step_slices :: "(string \<times> int) list \<Rightarrow> int \<Rightarrow> time_slice list" where
  "step_slices [] stop = []"
| "step_slices ((label, now) # steps) stop =
     \<lparr>slice_label = label, time_beg = now, time_end = (case steps of [] \<Rightarrow> stop | (_, next) # _ \<Rightarrow> next)\<rparr> #
     step_slices steps stop"

lemma steps_are_logged_begun:
  "slices r = done_slices @ [\<lparr>slice_label = l, time_beg = b, time_end = 0\<rparr>] \<Longrightarrow> is_beg r \<Longrightarrow>
   slices (record_End stop (run_steps steps r)) = done_slices @ step_slices ((l, b) # steps) stop"
proof (induction steps arbitrary: r done_slices l b)
  case (Cons step steps)
  obtain label now where step: "step = (label, now)" by (cases step)
  have "slices (record_Beg label now now r) = (done_slices @ [\<lparr>slice_label = l, time_beg = b, time_end = now\<rparr>]) @
      [\<lparr>slice_label = label, time_beg = now, time_end = 0\<rparr>]" "is_beg (record_Beg label now now r)"
    using Cons.prems by (simp_all add: record_Beg_def record_End_def)
  from Cons.IH [OF this] show ?case by (simp add: step)
qed (simp add: record_End_def)

text \<open>Steps that follow each other cover the time of the task without gaps: each ends where the next begins, and the last
  when the log is written, which also leaves no step under way.\<close>

lemma steps_are_logged:
  assumes "steps \<noteq> []"
  shows "slices (snd (record_Log show_int stop now (run_steps steps (Reset label start r)))) = step_slices steps stop \<and>
    \<not> is_beg (snd (record_Log show_int stop now (run_steps steps (Reset label start r))))"
proof -
  obtain l b rest where steps: "steps = (l, b) # rest" using assms by (cases steps) auto
  have begun: "is_beg (run_steps ss q)" if "is_beg q" for ss q
    using that by (induction ss q rule: run_steps.induct) (simp_all add: record_Beg_def Let_def)
  have "slices (record_End stop (run_steps rest (record_Beg l b b (Reset label start r)))) = [] @ step_slices steps stop"
    unfolding steps by (rule steps_are_logged_begun) (simp_all add: Reset_def record_Beg_def)
  moreover have "is_beg (run_steps steps (Reset label start r))"
    unfolding steps using begun by (simp add: record_Beg_def Let_def)
  ultimately show ?thesis by (simp add: record_Log_def Let_def steps) (simp add: record_End_def)
qed

section \<open>TimeStat\<close>

record time_stat =
  period_secs :: int
  began :: bool
  intervals :: "(int \<times> int) list"         \<comment> \<open>begin and end; the end is 0, the epoch, until \<open>End\<close>\<close>

definition TimeStat :: "int \<Rightarrow> time_stat" where
  "TimeStat p = \<lparr>period_secs = p, began = False, intervals = []\<rparr>"

text \<open>The eviction loop of \<open>Beg\<close>: \<open>it = erase(it)\<close> and the loop's own \<open>it++\<close> skip the element after
  an erased one; erasing the last one leaves \<open>it\<close> at the end, which must not be incremented.\<close>

fun evict :: "int \<Rightarrow> int \<Rightarrow> (int \<times> int) list \<Rightarrow> (int \<times> int) list outcome" where
  "evict p now [] = Return []"
| "evict p now [t] = (if to_seconds (snd t - now) > p then OutOfBounds else Return [t])"
| "evict p now (t # u # ts) =
     (if to_seconds (snd t - now) > p then bind_outcome (evict p now ts) (\<lambda>ts. Return (u # ts)) else Return (t # u # ts))"

definition stat_Beg :: "int \<Rightarrow> int \<Rightarrow> time_stat \<Rightarrow> time_stat outcome" where
  "stat_Beg now now' s =
     bind_outcome (evict (period_secs s) now (intervals s)) (\<lambda>ts.
       if began s \<and> ts \<noteq> [] then Return (s\<lparr>intervals := butlast ts @ [(now', snd (last ts))]\<rparr>)
       else Return (s\<lparr>began := True, intervals := ts @ [(now, 0)]\<rparr>))"

definition stat_End :: "int \<Rightarrow> time_stat \<Rightarrow> time_stat outcome" where
  "stat_End now s =
     (if \<not> began s then Fatal
      else Return (s\<lparr>began := False, intervals := butlast (intervals s) @ [(fst (last (intervals s)), now)]\<rparr>))"

definition Elapsed :: "time_stat \<Rightarrow> int outcome" where
  "Elapsed s = (if began s then Fatal else if intervals s = [] then Fatal
     else Return (to_microseconds (snd (last (intervals s)) - fst (last (intervals s)))))"

text \<open>The \<open>int64_t\<close> sum is divided by a \<open>size_t\<close>: an unsigned division.\<close>

definition Average :: "time_stat \<Rightarrow> int" where
  "Average s = (if intervals s = [] then 0
     else sint ((word_of_int (sum_list (map (\<lambda>t. to_microseconds (snd t - fst t)) (intervals s))) :: cint64)
                div of_nat (length (intervals s))))"

text \<open>With a clock that does not go back nothing is ever evicted: an end in the past is never later
  than now by more than the period.\<close>

lemma evict_nothing: "0 \<le> p \<Longrightarrow> list_all (\<lambda>t. snd t \<le> now) ts \<Longrightarrow> evict p now ts = Return ts"
proof (induction p now ts rule: evict.induct)
  case (2 p now t)
  then show ?case using duration_cast_nonpos [of "snd t - now" 1000000000] by simp
next
  case (3 p now t u ts)
  then show ?case using duration_cast_nonpos [of "snd t - now" 1000000000] by simp
qed simp

fun measure_all :: "(int \<times> int) list \<Rightarrow> time_stat \<Rightarrow> time_stat outcome" where
  "measure_all [] s = Return s"
| "measure_all ((b, e) # ts) s =
     bind_outcome (stat_Beg b b s) (\<lambda>s. bind_outcome (stat_End e s) (measure_all ts))"

fun ordered_from :: "int \<Rightarrow> (int \<times> int) list \<Rightarrow> bool" where
  "ordered_from t [] = True"
| "ordered_from t ((b, e) # ts) = (t \<le> b \<and> b \<le> e \<and> ordered_from e ts)"

lemma measure_all_keeps:
  assumes "0 \<le> period_secs s" "\<not> began s" "list_all (\<lambda>t. snd t \<le> now) (intervals s)" "ordered_from now ts"
  shows "measure_all ts s = Return (s\<lparr>intervals := intervals s @ ts\<rparr>)"
  using assms
proof (induction ts arbitrary: s now)
  case (Cons t ts)
  obtain b e where t: "t = (b, e)" by (cases t)
  then have le: "now \<le> b" "b \<le> e" "ordered_from e ts" using Cons.prems(4) by auto
  have "list_all (\<lambda>t. snd t \<le> b) (intervals s)"
    using Cons.prems(3) le(1) by (auto simp: list_all_iff)
  then have "evict (period_secs s) b (intervals s) = Return (intervals s)"
    using Cons.prems(1) by (intro evict_nothing)
  then have "measure_all (t # ts) s = measure_all ts (s\<lparr>began := False, intervals := intervals s @ [(b, e)]\<rparr>)"
    using Cons.prems(2) t by (simp add: stat_Beg_def stat_End_def)
  also have "\<dots> = Return (s\<lparr>began := False, intervals := intervals s @ t # ts\<rparr>)"
    using Cons.IH [of "s\<lparr>began := False, intervals := intervals s @ [(b, e)]\<rparr>" e] Cons.prems(1,3) le t
    by (simp add: list_all_iff) (meson dual_order.trans)
  also have "s\<lparr>began := False, intervals := intervals s @ t # ts\<rparr> = s\<lparr>intervals := intervals s @ t # ts\<rparr>"
    using Cons.prems(2) by (cases s) simp
  finally show ?case .
qed simp

text \<open>The documented period of the statistics has no effect: as long as the clock does not go back,
  \<open>TimeStat\<close> keeps every interval it has ever measured (and its list grows without limit), since \<open>Beg\<close>
  compares the age of an interval with the wrong sign.\<close>

lemma time_stat_never_evicts:
  assumes "0 \<le> p" and "ordered_from 0 ts"
  shows "measure_all ts (TimeStat p) = Return (\<lparr>period_secs = p, began = False, intervals = ts\<rparr>)"
  using measure_all_keeps [of "TimeStat p" 0 ts] assms by (simp add: TimeStat_def)

lemma Average_eq:
  assumes "intervals s \<noteq> []" and "length (intervals s) < 2 ^ 63"
    and "0 \<le> S" and "S < 2 ^ 63" and "S = sum_list (map (\<lambda>t. to_microseconds (snd t - fst t)) (intervals s))"
  shows "Average s = S div int (length (intervals s))"
proof -
  let ?n = "length (intervals s)"
  have "uint ((word_of_int S :: cint64) div of_nat ?n) = S div int ?n"
    using assms(2-4) by (simp add: uint_div uint_word_of_int unsigned_of_nat take_bit_int_eq_self take_bit_nat_eq_self)
  moreover have "S div int ?n < 2 ^ 63"
    using zdiv_mono2 [of S 1 "int ?n"] assms(1,3,4) by (cases "intervals s") auto
  moreover have "0 \<le> S div int ?n" using assms(1,3) by (simp add: pos_imp_zdiv_nonneg_iff)
  ultimately have "sint ((word_of_int S :: cint64) div of_nat ?n) = S div int ?n"
    by (simp add: sint_uint signed_take_bit_int_eq_self)
  then show ?thesis using assms(1,5) by (simp add: Average_def)
qed

section \<open>Rate\<close>

record rate =
  rate_beg :: int
  expected_cycle :: int
  actual_cycle :: int

text \<open>\<open>den / num / frequency\<close> clock units a cycle.\<close>

definition Rate :: "int \<Rightarrow> int \<Rightarrow> int \<Rightarrow> rate" where
  "Rate units_per_second now frequency =
     \<lparr>rate_beg = now, expected_cycle = units_per_second div frequency, actual_cycle = 0\<rparr>"

text \<open>The time slept and the new state.\<close>

definition Sleep :: "int \<Rightarrow> rate \<Rightarrow> int \<times> rate" where
  "Sleep actual_end r =
     (let expected_end = rate_beg r + expected_cycle r;
          expected_end = (if actual_end < rate_beg r then actual_end + expected_cycle r else expected_end);
          sleep_time = expected_end - actual_end;
          r = r\<lparr>actual_cycle := actual_end - rate_beg r, rate_beg := expected_end\<rparr> in
      if sleep_time \<le> 0 then
        (0, if actual_end > expected_end + expected_cycle r then r\<lparr>rate_beg := actual_end\<rparr> else r)
      else (sleep_time, r))"

definition rate_Reset :: "int \<Rightarrow> rate \<Rightarrow> rate" where
  "rate_Reset now r = r\<lparr>rate_beg := now\<rparr>"

definition CycleTime :: "rate \<Rightarrow> int" where
  "CycleTime r = actual_cycle r"

definition ExpectedCycleTime :: "rate \<Rightarrow> int" where
  "ExpectedCycleTime r = expected_cycle r"

text \<open>A cycle that is reset when it begins and takes less than its time sleeps for what is left of it, and reports what
  it took; the next one begins at its end.\<close>

lemma reset_cycle:
  assumes "0 \<le> took" and "took < ExpectedCycleTime r" and "Sleep (now + took) (rate_Reset now r) = (slept, r')"
  shows "slept = ExpectedCycleTime r - took \<and> CycleTime r' = took \<and> rate_beg r' = now + ExpectedCycleTime r"
  using assms by (auto simp: Sleep_def rate_Reset_def CycleTime_def ExpectedCycleTime_def Let_def)

text \<open>Never longer than a cycle, and no drift: while no cycle is late by more than another cycle, the
  \<open>k\<close>-th cycle begins \<open>k\<close> cycles after the start.\<close>

lemma Sleep_bounds:
  assumes "0 \<le> expected_cycle r"
  shows "0 \<le> fst (Sleep now r)" "fst (Sleep now r) \<le> expected_cycle r"
  using assms by (auto simp: Sleep_def Let_def)

lemma Sleep_no_drift:
  assumes "rate_beg r \<le> now" "now \<le> rate_beg r + 2 * expected_cycle r"
  shows "rate_beg (snd (Sleep now r)) = rate_beg r + expected_cycle r"
  using assms by (auto simp: Sleep_def Let_def)

fun run_rate :: "int list \<Rightarrow> rate \<Rightarrow> rate" where
  "run_rate [] r = r"
| "run_rate (now # nows) r = run_rate nows (snd (Sleep now r))"

fun on_time :: "int list \<Rightarrow> rate \<Rightarrow> bool" where
  "on_time [] r = True"
| "on_time (now # nows) r =
     (rate_beg r \<le> now \<and> now \<le> rate_beg r + 2 * expected_cycle r \<and> on_time nows (snd (Sleep now r)))"

lemma Sleep_cycle: "expected_cycle (snd (Sleep now r)) = expected_cycle r"
  by (simp add: Sleep_def Let_def)

lemma run_rate_no_drift:
  "on_time nows r \<Longrightarrow> rate_beg (run_rate nows r) = rate_beg r + int (length nows) * expected_cycle r"
  by (induction nows arbitrary: r) (simp_all add: Sleep_no_drift Sleep_cycle algebra_simps)

end
