(* ===== verification/StreamThread.thy ===== *)
theory StreamThread imports MediaStream Util begin

text \<open>
  \<open>common/media/stream_thread.cc\<close>: the thread that opens a stream, reads it at a given frequency and
  reports events.  The thread's own steps (opening, one turn of its loop, closing) and the calls of
  its owner (\<open>Start\<close>, the two halves of \<open>Stop\<close>) interleave in the step relation \<open>tstep\<close>.  The running
  callback is a parameter with a state of its own, \<open>'u\<close>.
\<close>

section \<open>State\<close>

datatype 'p stream_event =
    EvOpen | EvOpened | EvPacket av_packet | EvFrame cint "'p av_frame"
  | EvClose | EvClosed | EvLoop | EvError stream_error

datatype 'c thread_pc =
    NotStarted                             \<comment> \<open>no thread, or joined\<close>
  | AtOpen                                 \<comment> \<open>at the beginning of \<open>Run\<close>\<close>
  | InLoop "'c stream" rate                \<comment> \<open>about to test \<open>is_running_\<close>\<close>
  | Finished                               \<comment> \<open>returned from \<open>Run\<close>, not joined\<close>
  | Crashed                                \<comment> \<open>undefined behaviour or \<open>std::terminate\<close>\<close>

record ('c, 'u, 'p) thread_env =
  libformat :: av_format
  libcodec :: "('c, 'p) av_codec"
  get_types :: "cint list"
  loop_on_eof :: bool
  event_cb :: bool
  running_cb :: "('u \<Rightarrow> 'c stream \<Rightarrow> unit call \<times> 'u \<times> 'c stream) option"

record ('c, 'u, 'p) thread =
  is_running :: bool
  th_options :: stream_options
  frequency :: int
  pc :: "'c thread_pc"
  opens :: nat                             \<comment> \<open>inputs opened so far\<close>
  events :: "'p stream_event list"         \<comment> \<open>given to the event callback, in order\<close>
  user :: 'u
  leaked :: nat                            \<comment> \<open>references lost by streams that are gone\<close>

definition StreamThread :: "stream_options \<Rightarrow> 'u \<Rightarrow> ('c, 'u, 'p) thread" where
  "StreamThread opts u = \<lparr>is_running = False, th_options = opts, frequency = 20, pc = NotStarted, opens = 0,
     events = [], user = u, leaked = 0\<rparr>"

definition dispatch :: "('c, 'u, 'p) thread_env \<Rightarrow> 'p stream_event list \<Rightarrow> ('c, 'u, 'p) thread \<Rightarrow> ('c, 'u, 'p) thread" where
  "dispatch env es t = (if event_cb env then t\<lparr>events := events t @ es\<rparr> else t)"

section \<open>Start and Stop\<close>

text \<open>Assigning to a \<open>std::thread\<close> that is still joinable terminates the program.\<close>

definition thread_Start :: "stream_options \<Rightarrow> int \<Rightarrow> ('c, 'u, 'p) thread \<Rightarrow> unit call \<times> ('c, 'u, 'p) thread" where
  "thread_Start opts freq t =
     (if freq \<le> 0 then (Throw (StreamMsg ''Process frequency must > 0''), t)
      else if is_running t then (Ok (), t)
      else (Ok (), t\<lparr>is_running := True, th_options := opts, frequency := freq,
                     pc := if pc t = NotStarted then AtOpen else Crashed\<rparr>))"

definition thread_Stop_flag :: "('c, 'u, 'p) thread \<Rightarrow> ('c, 'u, 'p) thread" where
  "thread_Stop_flag t = (if \<not> is_running t then t else t\<lparr>is_running := False\<rparr>)"

text \<open>\<open>join\<close> returns once the thread has finished.\<close>

definition thread_Stop_join :: "('c, 'u, 'p) thread \<Rightarrow> ('c, 'u, 'p) thread option" where
  "thread_Stop_join t = (if pc t = Finished then Some (t\<lparr>pc := NotStarted\<rparr>) else None)"

section \<open>Run\<close>

text \<open>The \<open>catch\<close> clause; leaving the \<open>try\<close> block has destroyed the stream.\<close>

definition fail :: "('c, 'u, 'p) thread_env \<Rightarrow> stream_error \<Rightarrow> 'c stream \<Rightarrow> ('c, 'u, 'p) thread \<Rightarrow> ('c, 'u, 'p) thread" where
  "fail env e s t =
     (let t = t\<lparr>leaked := leaked t + lost s\<rparr> in
      if loop_on_eof env \<and> error_code_of e = AVERROR_EOF (libformat env)
      then (dispatch env [EvLoop] t)\<lparr>pc := AtOpen\<rparr>
      else (dispatch env [EvError e] t)\<lparr>pc := Finished\<rparr>)"

definition run_open :: "('c, 'u, 'p) thread_env \<Rightarrow> int \<Rightarrow> ('c, 'u, 'p) thread \<Rightarrow> ('c, 'u, 'p) thread" where
  "run_open env now t =
     (let t' = (dispatch env [EvOpen] t)\<lparr>opens := Suc (opens t)\<rparr> in
      case stream_Open (libformat env) (opens t) (th_options t) new_stream of
        (Ok _, s) \<Rightarrow> (dispatch env [EvOpened] t')\<lparr>pc := InLoop s (Rate 1000000000 now (frequency t))\<rparr>
      | (Throw e, s) \<Rightarrow> fail env e s t'
      | (Undefined, s) \<Rightarrow> t'\<lparr>pc := Crashed\<rparr>)"

text \<open>The frames of a packet, for each wanted type.\<close>

fun get_frames :: "('c, 'p) av_codec \<Rightarrow> av_packet \<Rightarrow> cint list \<Rightarrow> 'c stream \<Rightarrow> 'p stream_event list \<times> unit call \<times> 'c stream" where
  "get_frames ff pkt [] s = ([], Ok (), s)"
| "get_frames ff pkt (ty # tys) s =
     (case stream_GetFrame ff ty (Some pkt) False s of
        (Ok None, s) \<Rightarrow> get_frames ff pkt tys s
      | (Ok (Some f), s) \<Rightarrow> (case get_frames ff pkt tys s of (es, r, s) \<Rightarrow> (EvFrame ty f # es, r, s))
      | (Throw e, s) \<Rightarrow> ([], Throw e, s)
      | (Undefined, s) \<Rightarrow> ([], Undefined, s))"

definition poll :: "('c, 'u, 'p) thread_env \<Rightarrow> 'c stream \<Rightarrow> 'p stream_event list \<times> unit call \<times> 'c stream" where
  "poll env s =
     (case GetPacket False s of
        (Ok pkt, s) \<Rightarrow>
          (case get_frames (libcodec env) pkt (get_types env) s of
             (es, Ok u, s) \<Rightarrow> (EvPacket pkt # es, Ok u, UnrefPacket s)
           | (es, r, s) \<Rightarrow> (EvPacket pkt # es, r, s))
      | (Throw e, s) \<Rightarrow> ([], Throw e, s)
      | (Undefined, s) \<Rightarrow> ([], Undefined, s))"

text \<open>The body of the loop: the running callback if there is one, else polling; then the events, the
  callback's new state and the end of the turn.\<close>

definition turn :: "('c, 'u, 'p) thread_env \<Rightarrow> 'c stream \<Rightarrow> 'u \<Rightarrow> 'p stream_event list \<times> 'u \<times> unit call \<times> 'c stream" where
  "turn env s u =
     (case running_cb env of
        Some cb \<Rightarrow> (case cb u s of (r, u, s) \<Rightarrow> ([], u, r, s))
      | None \<Rightarrow> (case poll env s of (es, r, s) \<Rightarrow> (es, u, r, s)))"

definition run_turn :: "('c, 'u, 'p) thread_env \<Rightarrow> int \<Rightarrow> 'c stream \<Rightarrow> rate \<Rightarrow> ('c, 'u, 'p) thread \<Rightarrow> ('c, 'u, 'p) thread" where
  "run_turn env now s rate t =
     (case turn env s (user t) of
        (es, u, r, s) \<Rightarrow>
          let t = (dispatch env es t)\<lparr>user := u\<rparr> in
          case r of
            Ok _ \<Rightarrow> t\<lparr>pc := InLoop s (snd (Sleep now rate))\<rparr>
          | Throw e \<Rightarrow> fail env e s t
          | Undefined \<Rightarrow> t\<lparr>pc := Crashed\<rparr>)"

definition run_close :: "('c, 'u, 'p) thread_env \<Rightarrow> 'c stream \<Rightarrow> ('c, 'u, 'p) thread \<Rightarrow> ('c, 'u, 'p) thread" where
  "run_close env s t = (dispatch env [EvClose, EvClosed] t)\<lparr>pc := Finished, leaked := leaked t + lost (stream_Close s)\<rparr>"

definition Run_step :: "('c, 'u, 'p) thread_env \<Rightarrow> int \<Rightarrow> ('c, 'u, 'p) thread \<Rightarrow> ('c, 'u, 'p) thread" where
  "Run_step env now t =
     (case pc t of
        AtOpen \<Rightarrow> run_open env now t
      | InLoop s rate \<Rightarrow> if is_running t then run_turn env now s rate t else run_close env s t
      | _ \<Rightarrow> t)"

fun Run_steps :: "('c, 'u, 'p) thread_env \<Rightarrow> int list \<Rightarrow> ('c, 'u, 'p) thread \<Rightarrow> ('c, 'u, 'p) thread" where
  "Run_steps env [] t = t"
| "Run_steps env (now # nows) t = Run_steps env nows (Run_step env now t)"

section \<open>The owner and the thread\<close>

inductive tstep :: "('c, 'u, 'p) thread_env \<Rightarrow> ('c, 'u, 'p) thread \<Rightarrow> ('c, 'u, 'p) thread \<Rightarrow> bool" for env where
  start: "tstep env t (snd (thread_Start opts freq t))"
| stop_flag: "tstep env t (thread_Stop_flag t)"
| stop_join: "\<not> is_running t \<Longrightarrow> thread_Stop_join t = Some t' \<Longrightarrow> tstep env t t'"
| run: "tstep env t (Run_step env now t)"

inductive treach :: "('c, 'u, 'p) thread_env \<Rightarrow> ('c, 'u, 'p) thread \<Rightarrow> bool" for env where
  start: "treach env (StreamThread opts u)"
| step: "treach env t \<Longrightarrow> tstep env t t' \<Longrightarrow> treach env t'"

section \<open>The protocol of events\<close>

text \<open>The abstract specification: what a client may rely on.  \<open>Reading b\<close>: an open stream, \<open>b\<close> after its
  first packet.\<close>

datatype protocol = Idle | Opening | Reading bool | Closing

fun protocol_step :: "protocol \<Rightarrow> 'p stream_event \<Rightarrow> protocol option" where
  "protocol_step Idle EvOpen = Some Opening"
| "protocol_step Opening EvOpened = Some (Reading False)"
| "protocol_step Opening EvLoop = Some Idle"
| "protocol_step Opening (EvError e) = Some Idle"
| "protocol_step (Reading b) (EvPacket pkt) = Some (Reading True)"
| "protocol_step (Reading True) (EvFrame ty f) = Some (Reading True)"
| "protocol_step (Reading b) EvLoop = Some Idle"
| "protocol_step (Reading b) (EvError e) = Some Idle"
| "protocol_step (Reading b) EvClose = Some Closing"
| "protocol_step Closing EvClosed = Some Idle"
| "protocol_step _ _ = None"

fun protocol_run :: "protocol \<Rightarrow> 'p stream_event list \<Rightarrow> protocol option" where
  "protocol_run p [] = Some p"
| "protocol_run p (e # es) = Option.bind (protocol_step p e) (\<lambda>p. protocol_run p es)"

lemma protocol_run_append:
  "protocol_run p (es @ fs) = Option.bind (protocol_run p es) (\<lambda>p. protocol_run p fs)"
  by (induction es arbitrary: p) (auto split: Option.bind_splits)

definition at_phase :: "protocol \<Rightarrow> 'c thread_pc \<Rightarrow> bool" where
  "at_phase p c \<longleftrightarrow> (case c of InLoop s r \<Rightarrow> p \<in> {Reading False, Reading True} | Crashed \<Rightarrow> True | _ \<Rightarrow> p = Idle)"

lemma at_phase_simps [simp]:
  "at_phase p (InLoop s r) \<longleftrightarrow> (\<exists>b. p = Reading b)"
  "at_phase p Crashed" "at_phase p AtOpen \<longleftrightarrow> p = Idle" "at_phase p Finished \<longleftrightarrow> p = Idle" "at_phase p NotStarted \<longleftrightarrow> p = Idle"
  by (auto simp: at_phase_def intro: bool.exhaust)

text \<open>The simulation relation between the thread and the protocol.\<close>

definition simulates :: "protocol \<Rightarrow> ('c, 'u, 'p) thread \<Rightarrow> bool" where
  "simulates p t \<longleftrightarrow> protocol_run Idle (events t) = Some p \<and> at_phase p (pc t)"

lemma get_frames_protocol:
  "get_frames ff pkt tys s = (es, r, s') \<Longrightarrow> protocol_run (Reading True) es = Some (Reading True)"
  by (induction ff pkt tys s arbitrary: es r s' rule: get_frames.induct)
    (auto split: prod.splits call.splits option.splits)

lemma turn_protocol: "turn env s u = (es, u', r, s') \<Longrightarrow> \<exists>b'. protocol_run (Reading b) es = Some (Reading b')"
  by (auto simp: turn_def poll_def split: option.splits prod.splits call.splits dest!: get_frames_protocol)

lemma fail_simulates:
  assumes "event_cb env" and "protocol_run Idle (events t) = Some p" and "p = Opening \<or> (\<exists>b. p = Reading b)"
  shows "simulates Idle (fail env e s t)"
  using assms by (auto simp: simulates_def fail_def dispatch_def Let_def protocol_run_append)

lemma Run_step_simulates:
  assumes "event_cb env" and "simulates p t"
  shows "\<exists>p'. simulates p' (Run_step env now t)"
proof (cases "pc t")
  case AtOpen
  then have run: "protocol_run Idle (events t) = Some Idle" using assms(2) by (simp add: simulates_def)
  obtain r s where r: "stream_Open (libformat env) (opens t) (th_options t) new_stream = (r, s :: 'a stream)"
    by (cases "stream_Open (libformat env) (opens t) (th_options t) (new_stream :: 'a stream)")
  show ?thesis
  proof (cases r)
    case (Ok x)
    then show ?thesis using AtOpen r run assms(1)
      by (auto simp: Run_step_def run_open_def simulates_def dispatch_def Let_def protocol_run_append)
  next
    case (Throw e)
    then show ?thesis using AtOpen r run assms(1)
      by (auto simp: Run_step_def run_open_def Let_def protocol_run_append dispatch_def intro!: exI [of _ Idle] fail_simulates)
  next
    case Undefined
    then show ?thesis using AtOpen r run assms(1)
      by (auto simp: Run_step_def run_open_def simulates_def dispatch_def Let_def protocol_run_append)
  qed
next
  case (InLoop s rate)
  then obtain b where run: "protocol_run Idle (events t) = Some (Reading b)" using assms(2) by (auto simp: simulates_def)
  show ?thesis
  proof (cases "is_running t")
    case True
    obtain es u r s' where tn: "turn env s (user t) = (es, u, r, s')" by (cases "turn env s (user t)")
    obtain b' where b': "protocol_run (Reading b) es = Some (Reading b')" using turn_protocol [OF tn, of b] by auto
    then have all: "protocol_run Idle (events t @ es) = Some (Reading b')" using run by (simp add: protocol_run_append)
    have failed: "simulates Idle (fail env e s' ((dispatch env es t)\<lparr>user := u\<rparr>))" for e
      using all assms(1)
      by (intro fail_simulates) (auto simp: dispatch_def)
    show ?thesis
    proof (cases r)
      case (Throw e)
      then show ?thesis using True InLoop tn failed [of e] by (auto simp: Run_step_def run_turn_def Let_def)
    qed (use True InLoop tn assms(1) all in
        \<open>auto simp: Run_step_def run_turn_def simulates_def dispatch_def Let_def\<close>)
  next
    case False
    then show ?thesis using InLoop run assms(1)
      by (auto simp: Run_step_def run_close_def simulates_def dispatch_def protocol_run_append)
  qed
qed (use assms in \<open>auto simp: Run_step_def\<close>)

lemma tstep_simulates:
  assumes "tstep env t t'" and "event_cb env" and "simulates p t"
  shows "\<exists>p'. simulates p' t'"
  using assms(1)
proof cases
  case (start opts freq)
  then show ?thesis using assms(3) by (auto simp: thread_Start_def simulates_def)
next
  case stop_flag
  then show ?thesis using assms(3) by (auto simp: thread_Stop_flag_def simulates_def)
next
  case stop_join
  then show ?thesis using assms(3) by (auto simp: thread_Stop_join_def simulates_def split: if_splits)
next
  case (run now)
  then show ?thesis using Run_step_simulates [OF assms(2,3)] by simp
qed

lemma treach_simulates:
  assumes "treach env t" and "event_cb env"
  shows "\<exists>p. simulates p t"
  using assms(1)
proof induction
  case (start opts u)
  then show ?case by (simp add: StreamThread_def simulates_def)
next
  case (step t t')
  then show ?case using tstep_simulates assms(2) by blast
qed

section \<open>How a thread ends\<close>

text \<open>A finished thread has reported either its close, after \<open>Stop\<close>, or an error.\<close>

definition ended :: "('c, 'u, 'p) thread \<Rightarrow> bool" where
  "ended t \<longleftrightarrow> pc t = Finished \<longrightarrow> is_running t \<longrightarrow> (\<exists>es e. events t = es @ [EvError e])"

lemma Run_step_ended:
  assumes "event_cb env" and "ended t"
  shows "ended (Run_step env now t)"
proof (cases "pc t")
  case AtOpen
  then show ?thesis using assms(1)
    by (auto simp: ended_def Run_step_def run_open_def fail_def dispatch_def Let_def split: call.splits prod.splits)
next
  case (InLoop s rate)
  then show ?thesis using assms(1)
    by (auto simp: ended_def Run_step_def run_turn_def run_close_def fail_def dispatch_def Let_def
        split: call.splits prod.splits)
qed (use assms in \<open>auto simp: Run_step_def\<close>)

lemma treach_ended:
  assumes "treach env t" and "event_cb env"
  shows "ended t"
  using assms(1)
proof induction
  case (start opts u)
  then show ?case by (simp add: StreamThread_def ended_def)
next
  case (step t t')
  from step(2) show ?case
  proof cases
    case (start opts freq)
    then show ?thesis using step(3) by (auto simp: ended_def thread_Start_def)
  next
    case stop_flag
    then show ?thesis using step(3) by (auto simp: ended_def thread_Stop_flag_def)
  next
    case stop_join
    then show ?thesis using step(3) by (auto simp: ended_def thread_Stop_join_def split: if_splits)
  next
    case (run now)
    then show ?thesis using Run_step_ended [OF assms(2) step(3)] by simp
  qed
qed

section \<open>Properties\<close>

text \<open>C10.  The thread refines the protocol of events: in every interleaving of the thread with \<open>Start\<close> and
  \<open>Stop\<close>, the events given to the callback follow open, opened, packets each before the frames decoded
  from it, then close and closed, or a loop or error event instead, before the next open; and the
  thread is between two runs exactly when the protocol is.\<close>

theorem thread_follows_the_protocol:
  assumes "treach env t" and "event_cb env"
  shows "\<exists>p. protocol_run Idle (events t) = Some p \<and> at_phase p (pc t)"
  using treach_simulates [OF assms] by (simp add: simulates_def)

text \<open>A thread that an error has ended keeps saying that it is running: its last event was the
  error, and \<open>Start\<close> with a valid frequency returns without starting anything until \<open>Stop\<close> is called.\<close>

lemma failed_thread_reports_running:
  assumes "treach env t" and "event_cb env" and "is_running t" and "pc t = Finished" and "0 < freq"
  shows "(\<exists>es e. events t = es @ [EvError e]) \<and> thread_Start opts freq t = (Ok (), t)"
  using treach_ended [OF assms(1,2)] assms(3-5) by (simp add: ended_def thread_Start_def)

text \<open>\<open>Stop\<close> returns: once the flag is cleared, a thread at the beginning of \<open>Run\<close> or at the test of
  its loop finishes within two of its steps, so the join ends, provided that opening the stream does
  not itself end with an end-of-file (which loops without looking at the flag).\<close>

lemma stopped_thread_finishes:
  fixes t :: "('c, 'u, 'p) thread"
  assumes "\<not> is_running t" and "pc t = AtOpen \<or> (\<exists>s rate. pc t = InLoop s rate)"
    and "case fst (stream_Open (libformat env) (opens t) (th_options t) (new_stream :: 'c stream)) of
           Ok _ \<Rightarrow> True
         | Throw e \<Rightarrow> \<not> (loop_on_eof env \<and> error_code_of e = AVERROR_EOF (libformat env))
         | Undefined \<Rightarrow> False"
  shows "pc (Run_steps env [now, now'] t) = Finished \<and> thread_Stop_join (Run_steps env [now, now'] t) \<noteq> None"
  using assms
  by (cases "stream_Open (libformat env) (opens t) (th_options t) (new_stream :: 'c stream)")
    (auto simp: Run_step_def run_open_def run_close_def fail_def dispatch_def Let_def thread_Stop_join_def
      split: call.splits)

lemma treach_Run_steps: "treach env t \<Longrightarrow> treach env (Run_steps env nows t)"
  by (induction nows arbitrary: t) (auto intro: treach.step tstep.run)

definition sample_thread_env :: "(int list, unit, int \<times> int) thread_env" where
  "sample_thread_env = \<lparr>libformat = sample_format, libcodec = sample_codec, get_types = [0], loop_on_eof = True,
     event_cb = True, running_cb = None\<rparr>"

definition failing_env :: "(int list, unit, int \<times> int) thread_env" where
  "failing_env = sample_thread_env\<lparr>libformat := sample_format\<lparr>open_input := \<lambda>_ _ _ _. (-5, sample_input)\<rparr>\<rparr>"

definition sample_thread :: "(int list, unit, int \<times> int) thread" where
  "sample_thread = snd (thread_Start sample_stream_options 20 (StreamThread sample_stream_options ()))"

lemma sample_thread_reach: "treach env (Run_steps env nows sample_thread)"
  unfolding sample_thread_def by (rule treach_Run_steps, rule treach.step, rule treach.start, rule tstep.start)

theorem thread_follows_the_protocol_witness:
  "\<exists>p. protocol_run Idle (events (Run_steps sample_thread_env [0, 1, 2] sample_thread)) = Some p \<and>
    at_phase p (pc (Run_steps sample_thread_env [0, 1, 2] sample_thread))"
  by (rule thread_follows_the_protocol [OF sample_thread_reach]) (simp add: sample_thread_env_def)

lemma sample_failed:
  "pc (Run_steps failing_env [0] sample_thread) = Finished" "is_running (Run_steps failing_env [0] sample_thread)"
  by (simp_all add: failing_env_def sample_thread_env_def sample_thread_def sample_stream_defs thread_Start_def StreamThread_def
      Run_step_def run_open_def fail_def dispatch_def stream_Open_def open_dict_def rtbufsize_dict_def rtsp_dict_def Let_def throw_if_def)

end
