(* ===== verification/StreamFilter.thy ===== *)
theory StreamFilter imports MediaStream Util begin

text \<open>
  \<open>rtsp-ws-proxy/stream_filter.cc\<close> and \<open>stream_video_encoder.cc\<close>: the two filters a stream's packets
  may pass, a bitstream filter and a transcoder.  FFmpeg's bitstream filters and encoders are the
  parameters \<open>bsf_api\<close> and \<open>enc_api\<close>, over types of filter contexts \<open>'b\<close> and of encoders \<open>'e\<close>.
\<close>

datatype filter_type = FILTER_NONE | FILTER_VIDEO_BSF | FILTER_VIDEO_ENC | OtherFilter int

datatype filter_status = STATUS_OK | STATUS_AGAIN | STATUS_BREAK

fun StreamFilterTypeToString :: "filter_type \<Rightarrow> string call" where
  "StreamFilterTypeToString FILTER_NONE = Ok ''none''"
| "StreamFilterTypeToString FILTER_VIDEO_BSF = Ok ''video_bsf''"
| "StreamFilterTypeToString FILTER_VIDEO_ENC = Ok ''video_enc''"
| "StreamFilterTypeToString (OtherFilter n) = Throw (StreamMsg ''StreamFilterType unknown'')"

definition StreamFilterTypeFromString :: "string \<Rightarrow> filter_type call" where
  "StreamFilterTypeFromString s =
     (if s = ''none'' then Ok FILTER_NONE
      else if s = ''video_bsf'' then Ok FILTER_VIDEO_BSF
      else if s = ''video_enc'' then Ok FILTER_VIDEO_ENC
      else Throw (StreamMsg (''StreamFilterType unknown: '' @ s)))"

lemma StreamFilterType_roundtrip: "StreamFilterTypeToString t = Ok s \<longleftrightarrow> StreamFilterTypeFromString s = Ok t"
  by (cases t) (auto simp: StreamFilterTypeFromString_def)

record filter_options =
  filter_kind :: filter_type
  bsf_name :: string
  enc_name :: string
  enc_bit_rate :: int
  enc_framerate :: int
  enc_gop_size :: int
  enc_max_b_frames :: int
  enc_qmin :: int
  enc_qmax :: int
  enc_thread_count :: int
  enc_open_options :: "(string \<times> string) list"
  flt_dec_name :: string
  flt_dec_thread_count :: int
  flt_dec_thread_type :: int

section \<open>The bitstream filter\<close>

datatype codec_id = H264 | HEVC | RAWVIDEO | OtherCodec int

record 'b bsf_api =
  BSF_EAGAIN :: int
  bsf_known :: "string \<Rightarrow> bool"
  bsf_alloc :: "string \<Rightarrow> int \<times> 'b"
  bsf_copy_par :: "'b \<Rightarrow> int \<times> 'b"
  bsf_init :: "'b \<Rightarrow> int \<times> 'b"
  bsf_send :: "'b \<Rightarrow> av_packet \<Rightarrow> int \<times> 'b"
  bsf_receive :: "'b \<Rightarrow> int \<times> av_packet \<times> 'b"

record 'b bsf_filter =
  bsf_options :: filter_options
  bsf_codec :: codec_id                    \<comment> \<open>of the stream\<close>
  bsf_ctx :: "'b option"

definition bsf_default :: "codec_id \<Rightarrow> string option" where
  "bsf_default i = (case i of H264 \<Rightarrow> Some ''h264_mp4toannexb'' | HEVC \<Rightarrow> Some ''hevc_mp4toannexb''
     | RAWVIDEO \<Rightarrow> Some ''null'' | OtherCodec n \<Rightarrow> None)"

text \<open>The first call creates the context, which stays set when a later call on it fails.\<close>

definition bsf_open :: "'b bsf_api \<Rightarrow> 'b bsf_filter \<Rightarrow> unit call \<times> 'b bsf_filter" where
  "bsf_open api f =
     (if bsf_ctx f \<noteq> None then (Ok (), f)
      else case (if bsf_name (bsf_options f) \<noteq> [] then Some (bsf_name (bsf_options f)) else bsf_default (bsf_codec f)) of
        None \<Rightarrow> (Throw (StreamMsg ''BSF name not accept, id=''), f)
      | Some name \<Rightarrow>
          if \<not> bsf_known api name then (Throw (StreamMsg (''BSF not found, name='' @ name)), f)
          else
            let (ret, b) = bsf_alloc api name in
            if ret < 0 then (Throw (AvError ret), f)
            else
              let (ret, b) = bsf_copy_par api b in
              if ret < 0 then (Throw (AvError ret), f\<lparr>bsf_ctx := Some b\<rparr>)
              else
                let (ret, b) = bsf_init api b; f = f\<lparr>bsf_ctx := Some b\<rparr> in
                if ret \<noteq> 0 then (Throw (AvError ret), f) else (Ok (), f))"

definition bsf_SendPacket :: "'b bsf_api \<Rightarrow> 'b bsf_filter \<Rightarrow> av_packet \<Rightarrow> filter_status call \<times> 'b bsf_filter" where
  "bsf_SendPacket api f pkt =
     bind_call (bsf_open api f) (\<lambda>_ f.
     case bsf_ctx f of
       None \<Rightarrow> (Undefined, f)
     | Some b \<Rightarrow>
         let (ret, b) = bsf_send api b pkt; f = f\<lparr>bsf_ctx := Some b\<rparr> in
         (if ret = 0 then Ok STATUS_OK else if ret = BSF_EAGAIN api then Ok STATUS_BREAK else Throw (AvError ret), f))"

text \<open>\<open>LOG_IF(FATAL, \<dots>)\<close> before the context exists aborts the program.\<close>

definition bsf_RecvPacket :: "'b bsf_api \<Rightarrow> 'b bsf_filter \<Rightarrow> (filter_status \<times> av_packet) call \<times> 'b bsf_filter" where
  "bsf_RecvPacket api f =
     (case bsf_ctx f of
        None \<Rightarrow> (Undefined, f)
      | Some b \<Rightarrow>
          let (ret, pkt, b) = bsf_receive api b; f = f\<lparr>bsf_ctx := Some b\<rparr> in
          (if ret = 0 then Ok (STATUS_OK, pkt)
           else if ret = BSF_EAGAIN api then Ok (STATUS_BREAK, av_packet_alloc)
           else Throw (AvError ret), f))"

section \<open>The encoder\<close>

record encode_options =
  codec_name :: string
  codec_bit_rate :: int
  codec_width :: int
  codec_height :: int
  codec_framerate :: int
  codec_pix_fmt :: pix_fmt
  codec_gop_size :: int
  codec_max_b_frames :: int
  codec_qmin :: int
  codec_qmax :: int
  codec_thread_count :: int
  open_options :: "(string \<times> string) list"

record ('e, 'p) enc_api =
  ENC_EAGAIN :: int
  ENC_EOF :: int
  encoder_by_name :: "string \<Rightarrow> bool"
  encoder_by_id :: bool                    \<comment> \<open>of \<open>AV_CODEC_ID_H264\<close>\<close>
  encoder_alloc :: "'e option"
  encoder_set :: "(string \<times> int) list \<Rightarrow> pix_fmt \<Rightarrow> 'e \<Rightarrow> 'e"
  encoder_open :: "(string \<times> string) list \<Rightarrow> 'e \<Rightarrow> int \<times> 'e"
  encoder_send :: "'e \<Rightarrow> 'p av_frame \<Rightarrow> int \<times> 'e"
  encoder_receive :: "'e \<Rightarrow> int \<times> av_packet \<times> 'e"
  frame_get_buffer :: "int \<Rightarrow> int \<Rightarrow> int"
  image_copy :: "'p \<Rightarrow> 'p"
  clock :: "nat \<Rightarrow> int"                    \<comment> \<open>successive readings, in nanoseconds\<close>

text \<open>The fields of the codec context that the options set.\<close>

definition encoder_settings :: "encode_options \<Rightarrow> (string \<times> int) list" where
  "encoder_settings opts =
     filter (\<lambda>(name, v). v > -1)
       [(''bit_rate'', codec_bit_rate opts), (''width'', codec_width opts), (''height'', codec_height opts),
        (''framerate'', codec_framerate opts), (''gop_size'', codec_gop_size opts),
        (''max_b_frames'', codec_max_b_frames opts), (''qmin'', codec_qmin opts), (''qmax'', codec_qmax opts),
        (''thread_count'', codec_thread_count opts)]"

definition StreamVideoEncoder :: "('e, 'p) enc_api \<Rightarrow> encode_options \<Rightarrow> 'e call" where
  "StreamVideoEncoder api opts =
     (if \<not> ((codec_name opts \<noteq> [] \<and> encoder_by_name api (codec_name opts)) \<or> encoder_by_id api)
      then Throw (StreamMsg ''Encoder not found, id='')
      else case encoder_alloc api of
        None \<Rightarrow> Throw (StreamMsg ''Codec alloc context fail'')
      | Some e \<Rightarrow>
          let (ret, e) = encoder_open api (open_options opts)
                (encoder_set api (encoder_settings opts) (codec_pix_fmt opts) e) in
          if ret \<noteq> 0 then Throw (AvError ret) else Ok e)"

section \<open>The transcoding filter\<close>

record ('c, 'e) enc_filter =
  enc_options :: filter_options
  decoder_op :: "'c video_op option"
  encoder :: "'e option"
  encode_frame :: "(int \<times> int) option"     \<comment> \<open>its size, once it has a buffer\<close>
  encode_frame_pts :: cint64
  encode_frame_timestamp :: int
  clock_reads :: nat

definition transcode_options :: "filter_options \<Rightarrow> stream_video_options" where
  "transcode_options opts =
     \<lparr>dec_name = flt_dec_name opts,
      dec_thread_count = (if -1 < flt_dec_thread_count opts then flt_dec_thread_count opts else 0),
      dec_thread_type = (if -1 < flt_dec_thread_type opts then flt_dec_thread_type opts else 0),
      sws_enable = True, sws_dst_pix_fmt = AV_PIX_FMT_YUV420P, sws_dst_width = 0, sws_dst_height = 0, sws_flags = 0\<rparr>"

definition enc_decode :: "('c, 'p) av_codec \<Rightarrow> av_packet \<Rightarrow> ('c, 'e) enc_filter \<Rightarrow> 'p av_frame option call \<times> ('c, 'e) enc_filter" where
  "enc_decode ff pkt f =
     (let op = (case decoder_op f of Some op \<Rightarrow> op | None \<Rightarrow> StreamVideoOp (transcode_options (enc_options f)));
          (r, op) = GetFrame ff pkt op in
      (r, f\<lparr>decoder_op := Some op\<rparr>))"

definition encoder_options :: "filter_options \<Rightarrow> 'p av_frame \<Rightarrow> encode_options" where
  "encoder_options opts frame =
     \<lparr>codec_name = enc_name opts, codec_bit_rate = enc_bit_rate opts, codec_width = frame_width frame,
      codec_height = frame_height frame, codec_framerate = enc_framerate opts, codec_pix_fmt = AV_PIX_FMT_YUV420P,
      codec_gop_size = enc_gop_size opts, codec_max_b_frames = enc_max_b_frames opts, codec_qmin = enc_qmin opts,
      codec_qmax = enc_qmax opts, codec_thread_count = enc_thread_count opts, open_options = enc_open_options opts\<rparr>"

definition enc_open :: "('e, 'p) enc_api \<Rightarrow> 'p av_frame \<Rightarrow> ('c, 'e) enc_filter \<Rightarrow> unit call \<times> ('c, 'e) enc_filter" where
  "enc_open api frame f =
     (if encoder f \<noteq> None then (Ok (), f)
      else case StreamVideoEncoder api (encoder_options (enc_options f) frame) of
        Throw x \<Rightarrow> (Throw x, f)
      | Undefined \<Rightarrow> (Undefined, f)
      | Ok e \<Rightarrow>
          let f = f\<lparr>encoder := Some e\<rparr>;
              ret = frame_get_buffer api (frame_width frame) (frame_height frame) in
          if ret < 0 then (Throw (AvError ret), f)
          else (Ok (), f\<lparr>encode_frame := Some (frame_width frame, frame_height frame)\<rparr>))"

text \<open>Frames that come sooner than the wanted frame rate are dropped.\<close>

definition enc_too_soon :: "('e, 'p) enc_api \<Rightarrow> ('c, 'e) enc_filter \<Rightarrow> bool \<times> ('c, 'e) enc_filter" where
  "enc_too_soon api f =
     (let rate = enc_framerate (enc_options f) in
      if rate \<le> 0 then (False, f)
      else
        let now = clock api (clock_reads f); f = f\<lparr>clock_reads := Suc (clock_reads f)\<rparr> in
        if duration_cast 1000000 (now - encode_frame_timestamp f) < 1000 div rate then (True, f)
        else (False, f\<lparr>encode_frame_timestamp := now\<rparr>))"

text \<open>\<open>av_image_copy\<close> of a picture larger than the encoder's frame writes out of bounds.\<close>

definition enc_encode :: "('e, 'p) enc_api \<Rightarrow> 'p av_frame \<Rightarrow> ('c, 'e) enc_filter \<Rightarrow> filter_status call \<times> ('c, 'e) enc_filter" where
  "enc_encode api frame f =
     (case (encoder f, encode_frame f) of
        (Some e, Some (w, h)) \<Rightarrow>
          if w < frame_width frame \<or> h < frame_height frame then (Undefined, f)
          else
            let (ret, e) = encoder_send api e
                  \<lparr>frame_fmt = AV_PIX_FMT_YUV420P, frame_width = w, frame_height = h,
                   frame_pts = encode_frame_pts f, picture = image_copy api (picture frame)\<rparr>;
                f = f\<lparr>encoder := Some e, encode_frame_pts := encode_frame_pts f + 1\<rparr> in
            (if ret < 0 then Throw (AvError ret) else Ok STATUS_OK, f)
      | _ \<Rightarrow> (Undefined, f))"

definition enc_SendPacket ::
  "('c, 'p) av_codec \<Rightarrow> ('e, 'p) enc_api \<Rightarrow> ('c, 'e) enc_filter \<Rightarrow> av_packet \<Rightarrow> filter_status call \<times> ('c, 'e) enc_filter" where
  "enc_SendPacket ff api f pkt =
     bind_call (enc_decode ff pkt f) (\<lambda>frame f.
       case frame of
         None \<Rightarrow> (Ok STATUS_BREAK, f)
       | Some frame \<Rightarrow>
           bind_call (enc_open api frame f) (\<lambda>_ f.
             case enc_too_soon api f of
               (True, f) \<Rightarrow> (Ok STATUS_BREAK, f)
             | (False, f) \<Rightarrow> enc_encode api frame f))"

definition enc_RecvPacket :: "('e, 'p) enc_api \<Rightarrow> ('c, 'e) enc_filter \<Rightarrow> (filter_status \<times> av_packet) call \<times> ('c, 'e) enc_filter" where
  "enc_RecvPacket api f =
     (case encoder f of
        None \<Rightarrow> (Undefined, f)
      | Some e \<Rightarrow>
          let (ret, pkt, e) = encoder_receive api e; f = f\<lparr>encoder := Some e\<rparr> in
          (if ret = ENC_EAGAIN api \<or> ret = ENC_EOF api then Ok (STATUS_BREAK, av_packet_alloc)
           else if ret < 0 then Throw (AvError ret)
           else Ok (STATUS_AGAIN, pkt), f))"

section \<open>Sending\<close>

text \<open>The status of \<open>SendPacket\<close> is never \<open>AGAIN\<close>, and that of the bitstream filter's \<open>RecvPacket\<close>
  neither: it hands over one packet at a time.\<close>

lemma bsf_send_status: "bsf_SendPacket api f pkt = (Ok st, f') \<Longrightarrow> st \<noteq> STATUS_AGAIN"
  by (cases "bsf_open api f"; cases "fst (bsf_open api f)")
    (auto simp: bsf_SendPacket_def Let_def split_beta split: option.splits if_splits)

lemma bsf_recv_status: "bsf_RecvPacket api f = (Ok (st, pkt), f') \<Longrightarrow> st \<noteq> STATUS_AGAIN"
  by (auto simp: bsf_RecvPacket_def Let_def split_beta split: option.splits if_splits)

lemma enc_encode_status: "enc_encode api frame f = (Ok st, f') \<Longrightarrow> st = STATUS_OK"
  by (auto simp: enc_encode_def Let_def split_beta split: option.splits if_splits)

lemma enc_send_status: "enc_SendPacket ff api f pkt = (Ok st, f') \<Longrightarrow> st \<noteq> STATUS_AGAIN"
  unfolding enc_SendPacket_def bind_call_Ok_iff
  by (fastforce simp: bind_call_Ok_iff split_beta split: option.splits bool.splits if_splits dest: enc_encode_status)

section \<open>The transcoder's frame\<close>

text \<open>The encoder's frame has the size of the decoder's scaler, which makes all frames alike.\<close>

definition enc_inv :: "('c, 'e) enc_filter \<Rightarrow> bool" where
  "enc_inv f \<longleftrightarrow>
     (case decoder_op f of None \<Rightarrow> encode_frame f = None | Some op \<Rightarrow>
        sws_enable (vo_options op) \<and>
        (case encode_frame f of None \<Rightarrow> True | Some sz \<Rightarrow> \<exists>s. sws_ctx op = Some s \<and> dst_size s = sz))"

lemma enc_decode_inv:
  assumes "enc_inv f"
  shows "enc_inv (snd (enc_decode ff pkt f))" "encoder (snd (enc_decode ff pkt f)) = encoder f"
    "encode_frame (snd (enc_decode ff pkt f)) = encode_frame f"
proof -
  define op where "op = (case decoder_op f of Some op \<Rightarrow> op | None \<Rightarrow> StreamVideoOp (transcode_options (enc_options f)))"
  have eq: "snd (enc_decode ff pkt f) = f\<lparr>decoder_op := Some (snd (GetFrame ff pkt op))\<rparr>"
    by (simp add: enc_decode_def Let_def op_def split_beta)
  have "extends_scaler op (snd (GetFrame ff pkt op))" by (rule GetFrame_extends)
  moreover have "sws_enable (vo_options op)" "\<forall>sz. encode_frame f = Some sz \<longrightarrow> (\<exists>s. sws_ctx op = Some s \<and> dst_size s = sz)"
    using assms by (auto simp: enc_inv_def op_def StreamVideoOp_def transcode_options_def split: option.splits)
  ultimately show "enc_inv (snd (enc_decode ff pkt f))"
    by (auto simp: eq enc_inv_def extends_scaler_def split: option.splits)
  show "encoder (snd (enc_decode ff pkt f)) = encoder f" "encode_frame (snd (enc_decode ff pkt f)) = encode_frame f"
    by (simp_all add: eq)
qed

text \<open>A decoded frame has the size of the encoder's frame, if there is one.\<close>

definition fits :: "'p av_frame \<Rightarrow> ('c, 'e) enc_filter \<Rightarrow> bool" where
  "fits frame f \<longleftrightarrow> enc_inv f \<and>
     (\<exists>op s. decoder_op f = Some op \<and> sws_ctx op = Some s \<and> dst_size s = (frame_width frame, frame_height frame))"

lemma enc_decode_fits:
  assumes "enc_inv f" and "enc_decode ff pkt f = (Ok (Some frame), f')"
  shows "fits frame f'"
proof -
  define op where "op = (case decoder_op f of Some op \<Rightarrow> op | None \<Rightarrow> StreamVideoOp (transcode_options (enc_options f)))"
  then obtain op' where "GetFrame ff pkt op = (Ok (Some frame), op')" and f': "f' = f\<lparr>decoder_op := Some op'\<rparr>"
    using assms(2) by (auto simp: enc_decode_def Let_def split: prod.splits)
  moreover have "sws_enable (vo_options op)"
    using assms(1) by (auto simp: enc_inv_def op_def StreamVideoOp_def transcode_options_def split: option.splits)
  ultimately obtain s where "sws_ctx op' = Some s" "scaled_by ff s frame" using GetFrame_scaler by blast
  moreover have "enc_inv f'" using enc_decode_inv(1) [OF assms(1), of ff pkt] assms(2) by simp
  ultimately show ?thesis by (auto simp: fits_def f' scaled_by_def)
qed

lemma enc_open_fits: "fits frame f \<Longrightarrow> fits frame (snd (enc_open api frame f))"
  by (auto simp: enc_open_def fits_def enc_inv_def Let_def split: call.splits option.splits)

lemma enc_too_soon_fits: "fits frame f \<Longrightarrow> fits frame (snd (enc_too_soon api f))"
  by (auto simp: enc_too_soon_def fits_def enc_inv_def Let_def)

lemma enc_encode_fits:
  assumes "fits frame f"
  shows "enc_inv (snd (enc_encode api frame f))"
    and "fst (enc_encode api frame f) = Undefined \<Longrightarrow> encoder f = None \<or> encode_frame f = None"
  using assms by (auto simp: enc_encode_def fits_def enc_inv_def Let_def split_beta split: option.splits if_splits)

lemma fits_inv: "fits frame f \<Longrightarrow> enc_inv f"
  by (simp add: fits_def)

lemma enc_SendPacket_inv:
  assumes "enc_inv f"
  shows "enc_inv (snd (enc_SendPacket ff api f pkt))"
proof -
  obtain r g where d: "enc_decode ff pkt f = (r, g)" by (cases "enc_decode ff pkt f")
  have inv: "enc_inv g" using enc_decode_inv(1) [OF assms, of ff pkt] d by simp
  show ?thesis
  proof (cases "\<exists>frame. r = Ok (Some frame)")
    case True
    then obtain frame where r: "r = Ok (Some frame)" by blast
    then have fit: "fits frame g" using enc_decode_fits [OF assms] d by simp
    have "enc_inv (snd (bind_call (enc_open api frame g) (\<lambda>_ f. case enc_too_soon api f of
        (True, f) \<Rightarrow> (Ok STATUS_BREAK, f) | (False, f) \<Rightarrow> enc_encode api frame f)))"
    proof (cases "enc_open api frame g")
      case (Pair u h)
      then have "fits frame h" "fits frame (snd (enc_too_soon api h))"
        using enc_open_fits [OF fit, of api] enc_too_soon_fits [of frame h api] by simp_all
      then show ?thesis using Pair
        by (cases u; cases "enc_too_soon api h") (auto intro: fits_inv enc_encode_fits(1) split: bool.splits)
    qed
    then show ?thesis using d r by (simp add: enc_SendPacket_def)
  next
    case False
    then have "r = Ok None \<or> (\<exists>e. r = Throw e) \<or> r = Undefined" by (cases r) auto
    then show ?thesis using d inv by (auto simp: enc_SendPacket_def)
  qed
qed

text \<open>The filter as it is made, and what it can become.\<close>

definition StreamFilterVideoEnc :: "filter_options \<Rightarrow> ('c, 'e) enc_filter" where
  "StreamFilterVideoEnc opts = \<lparr>enc_options = opts, decoder_op = None, encoder = None, encode_frame = None,
     encode_frame_pts = 0, encode_frame_timestamp = 0, clock_reads = 0\<rparr>"

inductive enc_reach :: "('c, 'p) av_codec \<Rightarrow> ('e, 'p) enc_api \<Rightarrow> ('c, 'e) enc_filter \<Rightarrow> bool" for ff api where
  new: "enc_reach ff api (StreamFilterVideoEnc opts)"
| send: "enc_reach ff api f \<Longrightarrow> enc_reach ff api (snd (enc_SendPacket ff api f pkt))"
| recv: "enc_reach ff api f \<Longrightarrow> enc_reach ff api (snd (enc_RecvPacket api f))"

lemma enc_RecvPacket_inv: "enc_inv f \<Longrightarrow> enc_inv (snd (enc_RecvPacket api f))"
  by (auto simp: enc_RecvPacket_def enc_inv_def Let_def split_beta split: option.splits)

lemma StreamFilterVideoEnc_inv: "enc_inv (StreamFilterVideoEnc opts)"
  by (simp add: StreamFilterVideoEnc_def enc_inv_def)

lemma enc_reach_inv: "enc_reach ff api f \<Longrightarrow> enc_inv f"
  by (induction rule: enc_reach.induct) (simp_all add: StreamFilterVideoEnc_inv enc_SendPacket_inv enc_RecvPacket_inv)

lemma StreamVideoEncoder_defined: "StreamVideoEncoder api opts \<noteq> Undefined"
  by (auto simp: StreamVideoEncoder_def Let_def split: option.splits prod.splits)

lemma enc_open_defined: "fst (enc_open api frame f) \<noteq> Undefined"
  using StreamVideoEncoder_defined [of api "encoder_options (enc_options f) frame"]
  by (auto simp: enc_open_def Let_def split: call.splits)

lemma enc_open_Ok:
  "enc_open api frame f = (Ok u, f') \<Longrightarrow> encode_frame f \<noteq> None \<or> encoder f = None \<Longrightarrow>
     encoder f' \<noteq> None \<and> encode_frame f' \<noteq> None"
  by (auto simp: enc_open_def Let_def split: call.splits if_splits)

lemma enc_too_soon_frame: "encoder (snd (enc_too_soon api f)) = encoder f \<and> encode_frame (snd (enc_too_soon api f)) = encode_frame f"
  by (simp add: enc_too_soon_def Let_def)

text \<open>C23.  The transcoder never copies a picture beyond the encoder's frame: that frame is allocated once,
  for the size of the first decoded picture, and the decoder's scaler gives every later picture the
  same size, whatever the source does.  So, unless its decoder has no result or allocating the frame
  has failed before, sending a packet is defined behaviour.\<close>

theorem transcoder_copies_within_its_frame:
  assumes "enc_reach ff api f" and "fst (enc_decode ff pkt f) \<noteq> Undefined"
    and "encode_frame f \<noteq> None \<or> encoder f = None"
  shows "fst (enc_SendPacket ff api f pkt) \<noteq> Undefined"
proof -
  have inv: "enc_inv f" by (rule enc_reach_inv [OF assms(1)])
  obtain r g where d: "enc_decode ff pkt f = (r, g)" by (cases "enc_decode ff pkt f")
  have same: "encoder g = encoder f" "encode_frame g = encode_frame f"
    using enc_decode_inv(2,3) [OF inv, of ff pkt] d by simp_all
  show ?thesis
  proof (cases "\<exists>frame. r = Ok (Some frame)")
    case True
    then obtain frame where r: "r = Ok (Some frame)" by blast
    then have fit: "fits frame g" using enc_decode_fits [OF inv] d by simp
    obtain u h where o: "enc_open api frame g = (u, h)" by (cases "enc_open api frame g")
    show ?thesis
    proof (cases u)
      case (Ok x)
      define k where "k = snd (enc_too_soon api h)"
      have "encoder k \<noteq> None" "encode_frame k \<noteq> None"
        using enc_open_Ok [of api frame g x h] o Ok assms(3) same enc_too_soon_frame [of api h] by (simp_all add: k_def)
      moreover have "fits frame k"
        using enc_too_soon_fits [of frame h api] enc_open_fits [OF fit, of api] o by (simp add: k_def)
      ultimately have "fst (enc_encode api frame k) \<noteq> Undefined" using enc_encode_fits(2) [of frame k api] by auto
      then show ?thesis using d r o Ok
        by (cases "enc_too_soon api h") (auto simp: enc_SendPacket_def k_def split: bool.splits)
    next
      case (Throw e)
      then show ?thesis using d r o by (simp add: enc_SendPacket_def)
    next
      case Undefined
      then show ?thesis using enc_open_defined [of api frame g] o by simp
    qed
  next
    case False
    then have "r = Ok None \<or> (\<exists>e. r = Throw e)" using assms(2) d by (cases r) auto
    then show ?thesis using d by (auto simp: enc_SendPacket_def)
  qed
qed

definition sample_filter_options :: "filter_type \<Rightarrow> filter_options" where
  "sample_filter_options kind = \<lparr>filter_kind = kind, bsf_name = ''split'', enc_name = ''h264_nvenc'', enc_bit_rate = -1,
     enc_framerate = 0, enc_gop_size = 10, enc_max_b_frames = 0, enc_qmin = -1, enc_qmax = -1, enc_thread_count = -1,
     enc_open_options = [], flt_dec_name = [], flt_dec_thread_count = -1, flt_dec_thread_type = -1\<rparr>"

text \<open>An encoder that holds the packets it has made, one for each frame.\<close>

definition sample_encoder :: "(av_packet list, int \<times> int) enc_api" where
  "sample_encoder = \<lparr>ENC_EAGAIN = -11, ENC_EOF = -541478725, encoder_by_name = (\<lambda>_. True), encoder_by_id = True,
     encoder_alloc = Some [], encoder_set = (\<lambda>_ _ e. e), encoder_open = (\<lambda>_ e. (0, e)),
     encoder_send = (\<lambda>e f. (0, e @ [av_packet_alloc\<lparr>pts := frame_pts f, flags := 1\<rparr>])),
     encoder_receive = (\<lambda>e. case e of [] \<Rightarrow> (-11, av_packet_alloc, []) | p # ps \<Rightarrow> (0, p, ps)),
     frame_get_buffer = (\<lambda>_ _. 0), image_copy = (\<lambda>p. p), clock = int\<rparr>"

definition sample_transcoder :: "(int list, av_packet list) enc_filter" where
  "sample_transcoder = snd (enc_SendPacket sample_codec sample_encoder
     (StreamFilterVideoEnc (sample_filter_options FILTER_VIDEO_ENC)) av_packet_alloc)"

lemmas sample_transcoder_defs = sample_transcoder_def sample_codec_def sample_encoder_def StreamFilterVideoEnc_def
  sample_filter_options_def enc_SendPacket_def enc_decode_def transcode_options_def StreamVideoOp_def GetFrame_def
  open_codec_def decode_packet_def scale_frame_def sws_wanted_def enc_open_def StreamVideoEncoder_def encoder_options_def
  encoder_settings_def enc_too_soon_def enc_encode_def

theorem transcoder_copies_within_its_frame_witness:
  "fst (enc_SendPacket sample_codec sample_encoder sample_transcoder av_packet_alloc) \<noteq> Undefined"
proof (rule transcoder_copies_within_its_frame)
  show "enc_reach sample_codec sample_encoder sample_transcoder"
    unfolding sample_transcoder_def by (intro enc_reach.intros)
qed (simp_all add: sample_transcoder_defs)

end
