(* ===== verification/StreamHandler.thy ===== *)
theory StreamHandler imports StreamThread StreamFilter begin

text \<open>
  \<open>rtsp-ws-proxy/stream_handler.cc\<close>: the running callback of a proxied stream.  It reads a packet,
  passes video packets through the chain of filters and gives what comes out to the packet callback.
  The loops of \<open>DoFilter\<close> may run for ever, so a call gives no result unless it returns; the locale
  \<open>packet_filter\<close> states what the handler relies on in a filter, and shows that it then returns.
\<close>

section \<open>DoFilter\<close>

text \<open>Sending to filter \<open>i\<close>; the packet is blank after the first attempt.  \<open>False\<close>: stop here.\<close>

partial_function (option) send_loop ::
  "('f \<Rightarrow> av_packet \<Rightarrow> filter_status call \<times> 'f) \<Rightarrow> nat \<Rightarrow> av_packet \<Rightarrow> 'f list \<Rightarrow> (bool call \<times> 'f list) option" where
  "send_loop send i pkt fs =
     (case send (fs ! i) pkt of (r, f) \<Rightarrow>
       (case r of
          Ok st \<Rightarrow>
            if st = STATUS_BREAK then Some (Ok False, fs[i := f])
            else if st = STATUS_AGAIN then send_loop send i av_packet_alloc (fs[i := f])
            else Some (Ok True, fs[i := f])
        | Throw e \<Rightarrow> Some (Throw e, fs[i := f])
        | Undefined \<Rightarrow> Some (Undefined, fs[i := f])))"

text \<open>The result of filtering: how it ended, the filters, and the packets that came out of the chain.\<close>

type_synonym 'f filtered = "unit call \<times> 'f list \<times> av_packet list"

partial_function (option) recv_loop ::
  "('f \<Rightarrow> (filter_status \<times> av_packet) call \<times> 'f) \<Rightarrow> nat \<Rightarrow> (av_packet \<Rightarrow> 'f list \<Rightarrow> 'f filtered option) \<Rightarrow>
     'f list \<Rightarrow> 'f filtered option" where
  "recv_loop recv i next fs =
     (case recv (fs ! i) of (r, f) \<Rightarrow>
       (case r of
          Ok (st, pkt) \<Rightarrow>
            if st = STATUS_BREAK then Some (Ok (), fs[i := f], [])
            else Option.bind (next pkt (fs[i := f])) (\<lambda>(r, fs, out).
              if r = Ok () \<and> st = STATUS_AGAIN
              then Option.bind (recv_loop recv i next fs) (\<lambda>(r, fs, out'). Some (r, fs, out @ out'))
              else Some (r, fs, out))
        | Throw e \<Rightarrow> Some (Throw e, fs[i := f], [])
        | Undefined \<Rightarrow> Some (Undefined, fs[i := f], [])))"

text \<open>\<open>k\<close> filters are left: \<open>filters.end() - filter\<close>.\<close>

fun DoFilter ::
  "('f \<Rightarrow> av_packet \<Rightarrow> filter_status call \<times> 'f) \<Rightarrow> ('f \<Rightarrow> (filter_status \<times> av_packet) call \<times> 'f) \<Rightarrow>
     nat \<Rightarrow> av_packet \<Rightarrow> 'f list \<Rightarrow> 'f filtered option" where
  "DoFilter send recv 0 pkt fs = Some (Ok (), fs, [pkt])"
| "DoFilter send recv (Suc k) pkt fs =
     Option.bind (send_loop send (length fs - Suc k) pkt fs) (\<lambda>(r, fs).
       case r of
         Ok go \<Rightarrow> if go then recv_loop recv (length fs - Suc k) (DoFilter send recv k) fs else Some (Ok (), fs, [])
       | Throw e \<Rightarrow> Some (Throw e, fs, [])
       | Undefined \<Rightarrow> Some (Undefined, fs, []))"

section \<open>What the handler relies on\<close>

text \<open>A call for the last \<open>k\<close> filters leaves the others alone.\<close>

definition same_before :: "nat \<Rightarrow> 'f list \<Rightarrow> 'f list \<Rightarrow> bool" where
  "same_before n fs fs' \<longleftrightarrow> length fs' = length fs \<and> take n fs' = take n fs"

lemma same_before_trans: "same_before n fs gs \<Longrightarrow> same_before n gs hs \<Longrightarrow> same_before n fs hs"
  by (simp add: same_before_def)

lemma same_before_update: "n \<le> i \<Longrightarrow> same_before n fs (fs[i := f])"
  by (simp add: same_before_def)

lemma same_before_less:
  assumes "same_before (Suc n) fs gs"
  shows "same_before n fs gs"
proof -
  have "take n (take (Suc n) gs) = take n (take (Suc n) fs)" using assms by (simp add: same_before_def)
  then show ?thesis using assms by (simp add: same_before_def take_take)
qed

lemma same_before_nth: "same_before (Suc i) fs gs \<Longrightarrow> gs ! i = fs ! i"
  by (metis same_before_def lessI nth_take)

text \<open>\<open>pending\<close> bounds the packets a filter still has to give.\<close>

locale packet_filter =
  fixes send :: "'f \<Rightarrow> av_packet \<Rightarrow> filter_status call \<times> 'f"
    and recv :: "'f \<Rightarrow> (filter_status \<times> av_packet) call \<times> 'f"
    and pending :: "'f \<Rightarrow> nat"
  assumes send_status: "send f pkt = (Ok st, f') \<Longrightarrow> st \<noteq> STATUS_AGAIN"
    and recv_again: "recv f = (Ok (STATUS_AGAIN, pkt), f') \<Longrightarrow> pending f' < pending f"
begin

lemma send_loop_once:
  "send_loop send i pkt fs =
     (case send (fs ! i) pkt of (r, f) \<Rightarrow>
       Some (case r of Ok st \<Rightarrow> Ok (st \<noteq> STATUS_BREAK) | Throw e \<Rightarrow> Throw e | Undefined \<Rightarrow> Undefined, fs[i := f]))"
  using send_status [of "fs ! i" pkt]
  by (subst send_loop.simps) (auto split: prod.splits call.splits)

text \<open>The loop returns, and keeps the filters before, when the rest of the chain does.\<close>

lemma recv_loop_returns:
  assumes "i < length fs"
    and nxt: "\<And>pkt gs. length gs = length fs \<Longrightarrow> \<exists>r gs' out. next pkt gs = Some (r, gs', out) \<and> same_before (Suc i) gs gs'"
  shows "\<exists>r fs' out. recv_loop recv i next fs = Some (r, fs', out) \<and> same_before i fs fs'"
  using assms
proof (induction "pending (fs ! i)" arbitrary: fs rule: less_induct)
  case less
  obtain r f where r: "recv (fs ! i) = (r, f)" by (cases "recv (fs ! i)")
  have upd: "same_before i fs (fs[i := f])" by (rule same_before_update) simp
  show ?case
  proof (cases "\<exists>st pkt. r = Ok (st, pkt) \<and> st \<noteq> STATUS_BREAK")
    case True
    then obtain st pkt where st: "r = Ok (st, pkt)" "st \<noteq> STATUS_BREAK" by blast
    obtain r' gs out where n: "next pkt (fs[i := f]) = Some (r', gs, out)" "same_before (Suc i) (fs[i := f]) gs"
      using less.prems(2) [where pkt = pkt and gs = "fs[i := f]"] by auto
    have same: "same_before i fs gs" by (rule same_before_trans [OF upd same_before_less [OF n(2)]])
    have len: "length gs = length fs" using n(2) by (simp add: same_before_def)
    show ?thesis
    proof (cases "r' = Ok () \<and> st = STATUS_AGAIN")
      case True
      have "gs ! i = f" using same_before_nth [OF n(2)] less.prems(1) by simp
      then have "pending (gs ! i) < pending (fs ! i)" using recv_again [of "fs ! i" pkt f] r st True by simp
      then obtain r'' hs out' where "recv_loop recv i next gs = Some (r'', hs, out')" "same_before i gs hs"
        using less.hyps [of gs] less.prems len by auto
      then show ?thesis using r st n(1) True same_before_trans [OF same]
        by (subst recv_loop.simps) (auto split: prod.splits)
    next
      case False
      then show ?thesis using r st n(1) same by (subst recv_loop.simps) auto
    qed
  next
    case False
    then show ?thesis using r upd by (subst recv_loop.simps) (auto split: call.splits prod.splits)
  qed
qed

lemma DoFilter_returns:
  "k \<le> length fs \<Longrightarrow>
     \<exists>r fs' out. DoFilter send recv k pkt fs = Some (r, fs', out) \<and> same_before (length fs - k) fs fs'"
proof (induction k arbitrary: pkt fs)
  case 0
  then show ?case by (simp add: same_before_def)
next
  case (Suc k)
  let ?i = "length fs - Suc k"
  obtain r f where s: "send (fs ! ?i) pkt = (r, f)" by (cases "send (fs ! ?i) pkt")
  have upd: "same_before ?i fs (fs[?i := f])" by (rule same_before_update) simp
  have "\<exists>r fs' out. recv_loop recv ?i (DoFilter send recv k) (fs[?i := f]) = Some (r, fs', out) \<and>
      same_before ?i (fs[?i := f]) fs'"
  proof (rule recv_loop_returns)
    show "?i < length (fs[?i := f])" using Suc.prems by simp
    show "\<exists>r gs' out. DoFilter send recv k pkt gs = Some (r, gs', out) \<and> same_before (Suc ?i) gs gs'"
      if "length gs = length (fs[?i := f])" for pkt gs
      using Suc.IH [of gs pkt] that Suc.prems by (simp add: Suc_diff_Suc)
  qed
  then show ?case using s upd same_before_trans [OF upd]
    by (cases r) (auto simp: send_loop_once)
qed

end

text \<open>A filter that gives at most one packet for each it is sent.\<close>

locale single_filter = packet_filter +
  assumes recv_single: "recv f = (Ok (st, pkt), f') \<Longrightarrow> st \<noteq> STATUS_AGAIN"
begin

lemma recv_loop_single:
  assumes "\<And>pkt gs r gs' out. next pkt gs = Some (r, gs', out) \<Longrightarrow> length out \<le> 1"
    and "recv_loop recv i next fs = Some (r, fs', out)"
  shows "length out \<le> 1"
proof -
  obtain r0 f where r0: "recv (fs ! i) = (r0, f)" by (cases "recv (fs ! i)")
  then show ?thesis using assms recv_single [of "fs ! i"]
    by (subst (asm) recv_loop.simps) (auto split: call.splits if_splits Option.bind_splits)
qed

lemma DoFilter_single: "DoFilter send recv k pkt fs = Some (r, fs', out) \<Longrightarrow> length out \<le> 1"
proof (induction k arbitrary: pkt fs r fs' out)
  case (Suc k)
  show ?case
  proof (cases "fst (send (fs ! (length fs - Suc k)) pkt)")
    case (Ok st)
    then show ?thesis using Suc.prems recv_loop_single [of "DoFilter send recv k", OF Suc.IH]
      by (auto simp: send_loop_once split_beta split: if_splits)
  qed (use Suc.prems in \<open>auto simp: send_loop_once split_beta\<close>)
qed simp

end

section \<open>The filters of the program\<close>

text \<open>Alone, bitstream filters are single filters, whatever FFmpeg does.\<close>

interpretation bsf: single_filter "bsf_SendPacket api" "bsf_RecvPacket api" "\<lambda>_. 0" for api :: "'b bsf_api"
  by unfold_locales (auto dest: bsf_send_status bsf_recv_status)

datatype ('b, 'c, 'e) stream_filter = FilterBSF "'b bsf_filter" | FilterEnc "('c, 'e) enc_filter"

record ('b, 'c, 'e, 'p) handler_env =
  h_codec :: "('c, 'p) av_codec"
  h_bsf :: "'b bsf_api"
  h_enc :: "('e, 'p) enc_api"
  h_codec_id :: codec_id                   \<comment> \<open>of the video stream\<close>

text \<open>The virtual methods.\<close>

fun SendPacket ::
  "('b, 'c, 'e, 'p) handler_env \<Rightarrow> ('b, 'c, 'e) stream_filter \<Rightarrow> av_packet \<Rightarrow> filter_status call \<times> ('b, 'c, 'e) stream_filter" where
  "SendPacket env (FilterBSF f) pkt = (case bsf_SendPacket (h_bsf env) f pkt of (r, f) \<Rightarrow> (r, FilterBSF f))"
| "SendPacket env (FilterEnc f) pkt = (case enc_SendPacket (h_codec env) (h_enc env) f pkt of (r, f) \<Rightarrow> (r, FilterEnc f))"

fun RecvPacket ::
  "('b, 'c, 'e, 'p) handler_env \<Rightarrow> ('b, 'c, 'e) stream_filter \<Rightarrow> (filter_status \<times> av_packet) call \<times> ('b, 'c, 'e) stream_filter" where
  "RecvPacket env (FilterBSF f) = (case bsf_RecvPacket (h_bsf env) f of (r, f) \<Rightarrow> (r, FilterBSF f))"
| "RecvPacket env (FilterEnc f) = (case enc_RecvPacket (h_enc env) f of (r, f) \<Rightarrow> (r, FilterEnc f))"

text \<open>An encoder drains: it has finitely many packets to give between two frames.\<close>

definition drains :: "('e, 'p) enc_api \<Rightarrow> ('e \<Rightarrow> nat) \<Rightarrow> bool" where
  "drains api left \<longleftrightarrow> (\<forall>e ret pkt e'. encoder_receive api e = (ret, pkt, e') \<longrightarrow> 0 \<le> ret \<longrightarrow>
     ret \<noteq> ENC_EAGAIN api \<longrightarrow> ret \<noteq> ENC_EOF api \<longrightarrow> left e' < left e)"

fun filter_pending :: "('e \<Rightarrow> nat) \<Rightarrow> ('b, 'c, 'e) stream_filter \<Rightarrow> nat" where
  "filter_pending left (FilterBSF f) = 0"
| "filter_pending left (FilterEnc f) = (case encoder f of None \<Rightarrow> 0 | Some e \<Rightarrow> left e)"

lemma SendPacket_status: "SendPacket env f pkt = (Ok st, f') \<Longrightarrow> st \<noteq> STATUS_AGAIN"
  by (cases f) (auto split: prod.splits dest: bsf_send_status enc_send_status)

lemma enc_recv_again:
  assumes "drains api left" and "enc_RecvPacket api f = (Ok (STATUS_AGAIN, pkt), f')"
  shows "\<exists>e e'. encoder f = Some e \<and> encoder f' = Some e' \<and> left e' < left e"
proof -
  obtain e where e: "encoder f = Some e" using assms(2) by (auto simp: enc_RecvPacket_def split: option.splits)
  obtain ret p e' where r: "encoder_receive api e = (ret, p, e')" by (cases "encoder_receive api e")
  have "0 \<le> ret" "ret \<noteq> ENC_EAGAIN api" "ret \<noteq> ENC_EOF api" "f' = f\<lparr>encoder := Some e'\<rparr>"
    using assms(2) e r by (auto simp: enc_RecvPacket_def Let_def split: if_splits)
  then show ?thesis using assms(1) e r by (auto simp: drains_def)
qed

lemma packet_filters:
  assumes "drains (h_enc env) left"
  shows "packet_filter (SendPacket env) (RecvPacket env) (filter_pending left)"
proof
  fix f pkt f'
  assume r: "RecvPacket env f = (Ok (STATUS_AGAIN, pkt), f')"
  show "filter_pending left f' < filter_pending left f"
  proof (cases f)
    case (FilterBSF b)
    then show ?thesis using r by (auto split: prod.splits dest: bsf_recv_status)
  next
    case (FilterEnc g)
    then obtain g' where "f' = FilterEnc g'" "enc_RecvPacket (h_enc env) g = (Ok (STATUS_AGAIN, pkt), g')"
      using r by (auto split: prod.splits)
    then show ?thesis using enc_recv_again [OF assms] FilterEnc by fastforce
  qed
qed (auto dest: SendPacket_status)

text \<open>C22.  Filtering a packet returns: whatever the chain of filters, if the encoders drain, the nested
  loops of \<open>DoFilter\<close> end and the chain keeps its length.\<close>

theorem filtering_returns:
  assumes "drains (h_enc env) left"
  shows "\<exists>r fs' out. DoFilter (SendPacket env) (RecvPacket env) (length fs) pkt fs = Some (r, fs', out) \<and>
    length fs' = length fs"
  using packet_filter.DoFilter_returns [OF packet_filters [OF assms], of "length fs" fs pkt]
  by (auto simp: same_before_def)

section \<open>The handler\<close>

record ('b, 'c, 'e) handler =
  filters_options :: "filter_options list"
  video_filters_inited :: bool
  video_filters :: "('b, 'c, 'e) stream_filter list"
  has_packet_cb :: bool
  packets_out :: "(cint \<times> av_packet) list"  \<comment> \<open>given to the packet callback, in order\<close>

definition StreamHandler :: "filter_options list \<Rightarrow> bool \<Rightarrow> ('b, 'c, 'e) handler" where
  "StreamHandler opts cb = \<lparr>filters_options = opts, video_filters_inited = False, video_filters = [],
     has_packet_cb = cb, packets_out = []\<rparr>"

fun make_filters :: "codec_id \<Rightarrow> filter_options list \<Rightarrow> ('b, 'c, 'e) stream_filter list" where
  "make_filters i [] = []"
| "make_filters i (opts # rest) =
     (case filter_kind opts of
        FILTER_VIDEO_BSF \<Rightarrow> FilterBSF \<lparr>bsf_options = opts, bsf_codec = i, bsf_ctx = None\<rparr> # make_filters i rest
      | FILTER_VIDEO_ENC \<Rightarrow> FilterEnc (StreamFilterVideoEnc opts) # make_filters i rest
      | _ \<Rightarrow> make_filters i rest)"

definition InitVideoFilters :: "codec_id \<Rightarrow> ('b, 'c, 'e) handler \<Rightarrow> ('b, 'c, 'e) handler" where
  "InitVideoFilters i h =
     (if video_filters_inited h then h
      else h\<lparr>video_filters := video_filters h @ make_filters i (filters_options h), video_filters_inited := True\<rparr>)"

definition packet_cb :: "av_packet list \<Rightarrow> ('b, 'c, 'e) handler \<Rightarrow> ('b, 'c, 'e) handler" where
  "packet_cb pkts h =
     (if has_packet_cb h then h\<lparr>packets_out := packets_out h @ map (Pair AVMEDIA_TYPE_VIDEO) pkts\<rparr> else h)"

text \<open>An exception ends the stream, so what becomes of its packet then is left to its destructor.\<close>

definition OnRunning ::
  "('b, 'c, 'e, 'p) handler_env \<Rightarrow> ('b, 'c, 'e) handler \<Rightarrow> 'c stream \<Rightarrow> (unit call \<times> ('b, 'c, 'e) handler \<times> 'c stream) option" where
  "OnRunning env h s =
     (case GetPacket False s of
        (Throw e, s) \<Rightarrow> Some (Throw e, h, s)
      | (Undefined, s) \<Rightarrow> Some (Undefined, h, s)
      | (Ok pkt, s) \<Rightarrow>
          (case GetStreamSub AVMEDIA_TYPE_VIDEO s of
             Throw e \<Rightarrow> Some (Throw e, h, s)
           | Undefined \<Rightarrow> Some (Undefined, h, s)
           | Ok sub \<Rightarrow>
               if of_nat (sub_index sub) \<noteq> stream_index pkt then Some (Ok (), h, s)
               else
                 let h = InitVideoFilters (h_codec_id env) h in
                 if video_filters h = [] then Some (Ok (), packet_cb [pkt] h, UnrefPacket s)
                 else Option.bind
                   (DoFilter (SendPacket env) (RecvPacket env) (length (video_filters h)) pkt (video_filters h))
                   (\<lambda>(r, fs, out). Some (r, packet_cb out (h\<lparr>video_filters := fs\<rparr>), if r = Ok () then UnrefPacket s else s))))"

text \<open>\<open>Start\<close>: the thread of the stream, for video, looping at the end of the file, with \<open>OnRunning\<close> as its
  running callback.  A turn that does not return (excluded by \<open>filtering_returns\<close>) has no next step.\<close>

definition handler_thread ::
  "av_format \<Rightarrow> ('b, 'c, 'e, 'p) handler_env \<Rightarrow> ('c, ('b, 'c, 'e) handler, 'p) thread_env" where
  "handler_thread fmt env =
     \<lparr>libformat = fmt, libcodec = h_codec env, get_types = [AVMEDIA_TYPE_VIDEO], loop_on_eof = True, event_cb = True,
      running_cb = Some (\<lambda>h s. case OnRunning env h s of Some r \<Rightarrow> r | None \<Rightarrow> (Undefined, h, s))\<rparr>"

definition handler_Start ::
  "stream_options \<Rightarrow> int \<Rightarrow> ('b, 'c, 'e) handler \<Rightarrow> unit call \<times> ('c, ('b, 'c, 'e) handler, 'p) thread" where
  "handler_Start opts freq h = thread_Start opts freq (StreamThread opts h)"

text \<open>A turn returns if the encoders drain.\<close>

lemma OnRunning_returns:
  assumes "drains (h_enc env) left"
  shows "OnRunning env h s \<noteq> None"
proof -
  let ?fs = "video_filters (InitVideoFilters (h_codec_id env) h)"
  obtain r s1 where g: "GetPacket False s = (r, s1)" by (cases "GetPacket False s")
  show ?thesis
  proof (cases r)
    case (Ok pkt)
    obtain x fs' out where "DoFilter (SendPacket env) (RecvPacket env) (length ?fs) pkt ?fs = Some (x, fs', out)"
      using packet_filter.DoFilter_returns [OF packet_filters [OF assms], of "length ?fs" ?fs pkt] by auto
    then show ?thesis using g Ok by (auto simp: OnRunning_def Let_def split: call.split)
  qed (use g in \<open>simp_all add: OnRunning_def\<close>)
qed

text \<open>\<open>n\<close> turns of the thread's loop that return normally.\<close>

fun turns :: "('b, 'c, 'e, 'p) handler_env \<Rightarrow> nat \<Rightarrow> ('b, 'c, 'e) handler \<Rightarrow> 'c stream \<Rightarrow> (('b, 'c, 'e) handler \<times> 'c stream) option" where
  "turns env 0 h s = Some (h, s)"
| "turns env (Suc n) h s =
     (case OnRunning env h s of
        Some (Ok u, h, s) \<Rightarrow> turns env n h s
      | _ \<Rightarrow> None)"

section \<open>What a turn does\<close>

fun read_packets :: "av_input \<Rightarrow> nat \<Rightarrow> nat \<Rightarrow> av_packet list" where
  "read_packets input m 0 = []"
| "read_packets input m (Suc n) = snd (reads input m) # read_packets input (Suc m) n"

definition is_video :: "'c sub \<Rightarrow> av_packet \<Rightarrow> bool" where
  "is_video sub pkt \<longleftrightarrow> stream_index pkt = of_nat (sub_index sub)"

text \<open>The references a stream has lost or still holds.\<close>

definition references :: "'c stream \<Rightarrow> nat" where
  "references s = lost s + (if holds_packet s then 1 else 0)"

lemma OnRunning_stream:
  assumes "OnRunning env h s = Some (Ok u, h', s')"
    and "format_ctx s = OpenedInput input" and "stream_subs s AVMEDIA_TYPE_VIDEO = Some sub"
  shows "format_ctx s' = OpenedInput input" "stream_subs s' = stream_subs s" "read_count s' = Suc (read_count s)"
    and "references s' = references s + (if is_video sub (snd (reads input (read_count s))) then 0 else 1)"
  using assms
  by (auto simp: OnRunning_def GetPacket_def GetStreamSub_def UnrefPacket_def references_def holds_packet_def is_video_def
      Let_def split_beta split: if_splits Option.bind_splits option.splits)

lemma OnRunning_unfiltered:
  assumes "OnRunning env h s = Some (Ok u, h', s')" and "filters_options h = []" and "video_filters h = []"
    and "format_ctx s = OpenedInput input" and "stream_subs s AVMEDIA_TYPE_VIDEO = Some sub"
  shows "filters_options h' = []" "video_filters h' = []" "has_packet_cb h' = has_packet_cb h"
    and "packets_out h' = packets_out h @
      map (Pair AVMEDIA_TYPE_VIDEO) (filter (\<lambda>p. has_packet_cb h \<and> is_video sub p) [snd (reads input (read_count s))])"
  using assms
  by (auto simp: OnRunning_def GetPacket_def GetStreamSub_def InitVideoFilters_def packet_cb_def is_video_def
      Let_def split_beta split: if_splits)

lemma turns_Suc:
  "turns env (Suc n) h s = Some r \<longleftrightarrow> (\<exists>u h1 s1. OnRunning env h s = Some (Ok u, h1, s1) \<and> turns env n h1 s1 = Some r)"
  by (auto split: option.splits call.splits)

declare turns.simps(2) [simp del]

lemma turns_references:
  "turns env n h s = Some (h', s') \<Longrightarrow> format_ctx s = OpenedInput input \<Longrightarrow> stream_subs s AVMEDIA_TYPE_VIDEO = Some sub \<Longrightarrow>
     references s' = references s + length (filter (\<lambda>p. \<not> is_video sub p) (read_packets input (read_count s) n))"
proof (induction n arbitrary: h s)
  case (Suc n)
  then obtain u h1 s1 where 1: "OnRunning env h s = Some (Ok u, h1, s1)" "turns env n h1 s1 = Some (h', s')"
    by (auto simp: turns_Suc)
  then show ?case using Suc.IH [of h1 s1] OnRunning_stream [OF 1(1) Suc.prems(2,3)] Suc.prems(3) by simp
qed simp

lemma turns_unfiltered:
  "turns env n h s = Some (h', s') \<Longrightarrow> filters_options h = [] \<Longrightarrow> video_filters h = [] \<Longrightarrow>
     format_ctx s = OpenedInput input \<Longrightarrow> stream_subs s AVMEDIA_TYPE_VIDEO = Some sub \<Longrightarrow>
     packets_out h' = packets_out h @
       map (Pair AVMEDIA_TYPE_VIDEO) (filter (\<lambda>p. has_packet_cb h \<and> is_video sub p) (read_packets input (read_count s) n))"
proof (induction n arbitrary: h s)
  case (Suc n)
  then obtain u h1 s1 where 1: "OnRunning env h s = Some (Ok u, h1, s1)" "turns env n h1 s1 = Some (h', s')"
    by (auto simp: turns_Suc)
  then show ?case
    using Suc.IH [of h1 s1] OnRunning_stream [OF 1(1) Suc.prems(4,5)] OnRunning_unfiltered [OF 1(1) Suc.prems(2-5)] Suc.prems(5)
    by simp
qed simp

section \<open>Properties\<close>

text \<open>Without filters the packet callback is given exactly the packets of the video stream, in the
  order they are read.\<close>

lemma unfiltered_stream_forwards_its_video:
  assumes "turns env n h s = Some (h', s')" and "filters_options h = []" and "video_filters h = []" and "has_packet_cb h"
    and "format_ctx s = OpenedInput input" and "stream_subs s AVMEDIA_TYPE_VIDEO = Some sub"
  shows "packets_out h' = packets_out h @
    map (Pair AVMEDIA_TYPE_VIDEO) (filter (is_video sub) (read_packets input (read_count s) n))"
  using turns_unfiltered [OF assms(1-3,5,6)] assms(4) by simp

text \<open>The packets of all other streams leak: a turn that reads one returns without giving its
  reference back, and the next read overwrites it.  Whatever the filters, the references lost or still
  held grow by one with each such packet.\<close>

lemma other_packets_leak:
  assumes "turns env n h s = Some (h', s')"
    and "format_ctx s = OpenedInput input" and "stream_subs s AVMEDIA_TYPE_VIDEO = Some sub"
  shows "references s' = references s + length (filter (\<lambda>p. \<not> is_video sub p) (read_packets input (read_count s) n))"
  by (rule turns_references [OF assms])

text \<open>Packets through a chain of filters, one after the other.\<close>

fun feed ::
  "('b, 'c, 'e, 'p) handler_env \<Rightarrow> av_packet list \<Rightarrow> ('b, 'c, 'e) stream_filter list \<Rightarrow>
     (('b, 'c, 'e) stream_filter list \<times> av_packet list) option" where
  "feed env [] fs = Some (fs, [])"
| "feed env (pkt # pkts) fs =
     Option.bind (DoFilter (SendPacket env) (RecvPacket env) (length fs) pkt fs) (\<lambda>(r, fs, out).
       if r = Ok () then Option.bind (feed env pkts fs) (\<lambda>(fs, out'). Some (fs, out @ out')) else None)"

lemma full_filter_breaks:
  assumes "bsf_ctx f = Some b" and "\<And>pkt. bsf_send (h_bsf env) b pkt = (BSF_EAGAIN (h_bsf env), b)" and "BSF_EAGAIN (h_bsf env) \<noteq> 0"
  shows "bsf_SendPacket (h_bsf env) f pkt = (Ok STATUS_BREAK, f)"
  using assms(1) assms(2) [of pkt] assms(3)
  by (cases f) (simp add: bsf_SendPacket_def bsf_open_def)

text \<open>C32.  A full bitstream filter blocks its stream for ever.  FFmpeg refuses a packet (\<open>EAGAIN\<close>) while
  the filter still has output to give; the handler then drops the packet without receiving anything,
  so the filter stays full: no later packet ever reaches the callback, whatever filters follow.\<close>

theorem full_filter_blocks_for_ever:
  assumes "bsf_ctx f = Some b" and "\<And>pkt. bsf_send (h_bsf env) b pkt = (BSF_EAGAIN (h_bsf env), b)" and "BSF_EAGAIN (h_bsf env) \<noteq> 0"
  shows "feed env pkts (FilterBSF f # fs) = Some (FilterBSF f # fs, [])"
proof (induction pkts)
  case (Cons pkt pkts)
  have "send_loop (SendPacket env) 0 pkt (FilterBSF f # fs) = Some (Ok False, FilterBSF f # fs)"
    by (subst send_loop.simps) (simp add: full_filter_breaks [OF assms])
  then show ?case using Cons by simp
qed simp

section \<open>Samples\<close>

text \<open>A bitstream filter that gives every packet twice: what is still to be given, and the packet it has
  been sent but not yet looked at.\<close>

definition splitter :: "(av_packet list \<times> av_packet option) bsf_api" where
  "splitter = \<lparr>BSF_EAGAIN = -11, bsf_known = (\<lambda>_. True), bsf_alloc = (\<lambda>_. (0, [], None)),
     bsf_copy_par = (\<lambda>b. (0, b)), bsf_init = (\<lambda>b. (0, b)),
     bsf_send = (\<lambda>b p. if snd b = None then (0, fst b, Some p) else (-11, b)),
     bsf_receive = (\<lambda>(q, slot). case q of p # q \<Rightarrow> (0, p, q, slot)
       | [] \<Rightarrow> (case slot of Some p \<Rightarrow> (0, p, [p], None) | None \<Rightarrow> (-11, av_packet_alloc, [], None)))\<rparr>"

definition sample_handler_env :: "(av_packet list \<times> av_packet option, int list, av_packet list, int \<times> int) handler_env" where
  "sample_handler_env = \<lparr>h_codec = sample_codec, h_bsf = splitter, h_enc = sample_encoder, h_codec_id = H264\<rparr>"

lemma sample_drains: "drains (h_enc sample_handler_env) length"
  by (auto simp: drains_def sample_handler_env_def sample_encoder_def split: list.splits)

definition sample_filters :: "(av_packet list \<times> av_packet option, int list, av_packet list) stream_filter list" where
  "sample_filters = make_filters H264 [sample_filter_options FILTER_VIDEO_BSF, sample_filter_options FILTER_VIDEO_ENC]"

theorem filtering_returns_witness:
  "\<exists>r fs' out. DoFilter (SendPacket sample_handler_env) (RecvPacket sample_handler_env) (length sample_filters)
      av_packet_alloc sample_filters = Some (r, fs', out) \<and> length fs' = length sample_filters"
  by (rule filtering_returns [OF sample_drains])

theorem full_filter_blocks_for_ever_witness:
  "\<exists>f. feed sample_handler_env [av_packet_alloc, av_packet_alloc] (make_filters H264 [sample_filter_options FILTER_VIDEO_BSF]) =
      Some ([FilterBSF f], [av_packet_alloc, av_packet_alloc]) \<and>
    feed sample_handler_env [av_packet_alloc, av_packet_alloc, av_packet_alloc] (FilterBSF f # []) = Some (FilterBSF f # [], [])"
proof (intro exI conjI)
  let ?f = "\<lparr>bsf_options = sample_filter_options FILTER_VIDEO_BSF, bsf_codec = H264, bsf_ctx = Some ([], Some av_packet_alloc)\<rparr>"
  show "feed sample_handler_env [av_packet_alloc, av_packet_alloc] (make_filters H264 [sample_filter_options FILTER_VIDEO_BSF]) =
      Some ([FilterBSF ?f], [av_packet_alloc, av_packet_alloc])"
    by (simp add: sample_handler_env_def splitter_def sample_filter_options_def send_loop.simps recv_loop.simps
        bsf_SendPacket_def bsf_open_def bsf_RecvPacket_def)
  show "feed sample_handler_env [av_packet_alloc, av_packet_alloc, av_packet_alloc] (FilterBSF ?f # []) = Some (FilterBSF ?f # [], [])"
    by (rule full_filter_blocks_for_ever [where b = "([], Some av_packet_alloc)"]) (simp_all add: sample_handler_env_def splitter_def)
qed

lemma sample_turns:
  "\<exists>h' s'. turns sample_handler_env 4 (StreamHandler [] True) sample_stream = Some (h', s')"
  by (simp add: turns.simps(2) numeral_eq_Suc OnRunning_def GetPacket_def GetStreamSub_def InitVideoFilters_def packet_cb_def
      StreamHandler_def UnrefPacket_def sample_stream_defs stream_Open_def open_dict_def rtbufsize_dict_def rtsp_dict_def
      throw_if_def Let_def new_stream_def AVMEDIA_TYPE_VIDEO_def av_packet_alloc_def)

lemma sample_stream_state:
  "format_ctx sample_stream = OpenedInput sample_input" "read_count sample_stream = 0"
  "stream_subs sample_stream AVMEDIA_TYPE_VIDEO = Some \<lparr>sub_index = 1, sub_op = StreamVideoOp sample_video_options\<rparr>"
  by (simp_all add: sample_stream_defs stream_Open_def open_dict_def rtbufsize_dict_def rtsp_dict_def throw_if_def Let_def
      new_stream_def AVMEDIA_TYPE_VIDEO_def)

end
