(* ===== verification/OrderedMap.thy ===== *)
theory OrderedMap imports Main "HOL-Library.Char_ord" "HOL-Library.List_Lexorder" begin

text \<open>
  \<open>std::map\<close> from strings, the type of the objects of JSON and of the options of an encoder: an association
  list whose keys are in strict order.
\<close>

fun set_key :: "string \<Rightarrow> 'v \<Rightarrow> (string \<times> 'v) list \<Rightarrow> (string \<times> 'v) list" where
  "set_key k v [] = [(k, v)]"
| "set_key k v ((k', v') # kvs) =
     (if k = k' then (k, v) # kvs else if k < k' then (k, v) # (k', v') # kvs else (k', v') # set_key k v kvs)"

lemma map_of_set_key [simp]: "map_of (set_key k v kvs) = (map_of kvs)(k \<mapsto> v)"
  by (induction k v kvs rule: set_key.induct) auto

lemma keys_set_key [simp]: "fst ` set (set_key k v kvs) = insert k (fst ` set kvs)"
  by (induction k v kvs rule: set_key.induct) auto

lemma sorted_set_key: "sorted_wrt (<) (map fst kvs) \<Longrightarrow> sorted_wrt (<) (map fst (set_key k v kvs))"
proof (induction k v kvs rule: set_key.induct)
  case (2 k v k' v' kvs)
  have "fst ` set (set_key k v kvs) = insert k (fst ` set kvs)" by simp
  then show ?case using 2 by (auto simp: image_iff)
qed simp

lemma set_key_values: "kv \<in> set (set_key k v kvs) \<Longrightarrow> kv = (k, v) \<or> kv \<in> set kvs"
  by (induction k v kvs rule: set_key.induct) (auto split: if_splits)

end
