(* ===== verification/Config.thy ===== *)
theory Config imports Server StreamHandler OrderedMap begin

text \<open>
  \<open>rtsp-ws-proxy/main.cc\<close> and \<open>common/util/config.h\<close>: the configuration of the proxy.  \<open>yaml-cpp\<close> is the
  parameter \<open>yaml\<close> over a type \<open>'n\<close> of nodes, FFmpeg's names of the pixel formats are the parameter
  \<open>pix_names\<close>.  \<open>None\<close> stands for a thrown exception, which \<open>LoadConfig\<close> catches as a failed load.
\<close>

section \<open>Reading nodes\<close>

text \<open>\<open>child y n k\<close> is \<open>n[k]\<close>, \<open>Some None\<close> when it is not defined.\<close>

record 'n yaml =
  child :: "'n \<Rightarrow> string \<Rightarrow> 'n option option"
  as_string :: "'n \<Rightarrow> string option"
  as_int :: "'n \<Rightarrow> int option"
  as_bool :: "'n \<Rightarrow> bool option"
  is_map :: "'n \<Rightarrow> bool"
  is_sequence :: "'n \<Rightarrow> bool"
  is_scalar :: "'n \<Rightarrow> bool"
  items :: "'n \<Rightarrow> 'n list"
  entries :: "'n \<Rightarrow> ('n \<times> 'n) list"
  fresh_cors :: cors_options               \<comment> \<open>what \<open>as<CorsOptions>()\<close> decodes into\<close>

record pix_names =
  pix_desc :: "pix_fmt \<Rightarrow> string option"   \<comment> \<open>\<open>None\<close>: the descriptor is a null pointer\<close>
  pix_of_name :: "string \<Rightarrow> pix_fmt"

text \<open>\<open>if (n[k]) field = n[k].as<T>();\<close>\<close>

definition if_child :: "'n yaml \<Rightarrow> 'n \<Rightarrow> string \<Rightarrow> ('n \<Rightarrow> 's \<Rightarrow> 's option) \<Rightarrow> 's \<Rightarrow> 's option" where
  "if_child y n k read s =
     Option.bind (child y n k) (\<lambda>m. case m of None \<Rightarrow> Some s | Some v \<Rightarrow> read v s)"

fun if_children :: "'n yaml \<Rightarrow> 'n \<Rightarrow> (string \<times> ('n \<Rightarrow> 's \<Rightarrow> 's option)) list \<Rightarrow> 's \<Rightarrow> 's option" where
  "if_children y n [] s = Some s"
| "if_children y n ((k, read) # fs) s = Option.bind (if_child y n k read s) (if_children y n fs)"

definition get_as :: "('n \<Rightarrow> 'v option) \<Rightarrow> ('v \<Rightarrow> 's \<Rightarrow> 's) \<Rightarrow> 'n \<Rightarrow> 's \<Rightarrow> 's option" where
  "get_as as f v s = map_option (\<lambda>x. f x s) (as v)"

text \<open>\<open>n[k].as<std::string>()\<close> without a test; reading an undefined node throws.\<close>

definition child_string :: "'n yaml \<Rightarrow> 'n \<Rightarrow> string \<Rightarrow> string option" where
  "child_string y n k =
     Option.bind (child y n k) (\<lambda>m. case m of None \<Rightarrow> None | Some v \<Rightarrow> as_string y v)"

fun of_call :: "'a call \<Rightarrow> 'a option" where
  "of_call (Ok x) = Some x"
| "of_call _ = None"

lemma if_child_simps:
  "child y n k = None \<Longrightarrow> if_child y n k read s = None"
  "child y n k = Some None \<Longrightarrow> if_child y n k read s = Some s"
  "child y n k = Some (Some v) \<Longrightarrow> if_child y n k read s = read v s"
  by (simp_all add: if_child_def)

section \<open>Options of a stream\<close>

definition default_video :: stream_video_options where
  "default_video = \<lparr>dec_name = [], dec_thread_count = 0, dec_thread_type = 0, sws_enable = False,
     sws_dst_pix_fmt = AV_PIX_FMT_NONE, sws_dst_width = 0, sws_dst_height = 0, sws_flags = 0\<rparr>"

definition default_stream :: stream_options where
  "default_stream = \<lparr>opt_method = STREAM_METHOD_NONE, input_url = [], input_format = [], cam_width = 0, cam_height = 0,
     framerate = 0, pixel_format = AV_PIX_FMT_NONE, rtbufsize = 0, max_delay = 0, rtsp_transport = [], stimeout = 0,
     dump_format = True, video = default_video\<rparr>"

text \<open>\<open>PixelFormatToString\<close> dereferences the descriptor.\<close>

definition PixelFormatToString :: "pix_names \<Rightarrow> pix_fmt \<Rightarrow> string call" where
  "PixelFormatToString ff p = (case pix_desc ff p of None \<Rightarrow> Undefined | Some name \<Rightarrow> Ok name)"

definition PixelFormatFromString :: "pix_names \<Rightarrow> string \<Rightarrow> pix_fmt" where
  "PixelFormatFromString ff s = pix_of_name ff s"

definition decode_video :: "'n yaml \<Rightarrow> pix_names \<Rightarrow> 'n \<Rightarrow> stream_video_options \<Rightarrow> stream_video_options option" where
  "decode_video y ff n s =
     (if \<not> is_map y n then None
      else if_children y n
        [(''dec_name'', get_as (as_string y) (\<lambda>x s. s\<lparr>dec_name := x\<rparr>)),
         (''dec_thread_count'', get_as (as_int y) (\<lambda>x s. s\<lparr>dec_thread_count := x\<rparr>)),
         (''dec_thread_type'', get_as (as_int y) (\<lambda>x s. s\<lparr>dec_thread_type := x\<rparr>)),
         (''sws_enable'', get_as (as_bool y) (\<lambda>x s. s\<lparr>sws_enable := x\<rparr>)),
         (''sws_dst_width'', get_as (as_int y) (\<lambda>x s. s\<lparr>sws_dst_width := x\<rparr>)),
         (''sws_dst_height'', get_as (as_int y) (\<lambda>x s. s\<lparr>sws_dst_height := x\<rparr>)),
         (''sws_dst_pix_fmt'', get_as (as_string y) (\<lambda>x s. s\<lparr>sws_dst_pix_fmt := PixelFormatFromString ff x\<rparr>)),
         (''sws_flags'', get_as (as_int y) (\<lambda>x s. s\<lparr>sws_flags := x\<rparr>))] s)"

text \<open>\<open>as<StreamVideoOptions>()\<close> decodes into default options.\<close>

definition decode_stream :: "'n yaml \<Rightarrow> pix_names \<Rightarrow> 'n \<Rightarrow> stream_options \<Rightarrow> stream_options option" where
  "decode_stream y ff n s =
     (if \<not> is_map y n then None
      else
        Option.bind (Option.bind (child_string y n ''method'') (of_call \<circ> StreamMethodFromString)) (\<lambda>m.
        Option.bind (child_string y n ''input_url'') (\<lambda>url.
          if_children y n
            [(''input_format'', get_as (as_string y) (\<lambda>x s. s\<lparr>input_format := x\<rparr>)),
             (''width'', get_as (as_int y) (\<lambda>x s. s\<lparr>cam_width := x\<rparr>)),
             (''height'', get_as (as_int y) (\<lambda>x s. s\<lparr>cam_height := x\<rparr>)),
             (''framerate'', get_as (as_int y) (\<lambda>x s. s\<lparr>framerate := x\<rparr>)),
             (''pixel_format'', get_as (as_string y) (\<lambda>x s. s\<lparr>pixel_format := PixelFormatFromString ff x\<rparr>)),
             (''rtbufsize'', get_as (as_int y) (\<lambda>x s. s\<lparr>rtbufsize := x\<rparr>)),
             (''max_delay'', get_as (as_int y) (\<lambda>x s. s\<lparr>max_delay := x\<rparr>)),
             (''rtsp_transport'', get_as (as_string y) (\<lambda>x s. s\<lparr>rtsp_transport := x\<rparr>)),
             (''stimeout'', get_as (as_int y) (\<lambda>x s. s\<lparr>stimeout := x\<rparr>)),
             (''dump_format'', get_as (as_bool y) (\<lambda>x s. s\<lparr>dump_format := x\<rparr>)),
             (''video'', get_as (\<lambda>v. decode_video y ff v default_video) (\<lambda>x s. s\<lparr>video := x\<rparr>))]
            (s\<lparr>opt_method := m, input_url := url\<rparr>))))"

section \<open>Options of a filter\<close>

definition default_filter :: filter_options where
  "default_filter = \<lparr>filter_kind = FILTER_NONE, bsf_name = [], enc_name = [], enc_bit_rate = - 1, enc_framerate = - 1,
     enc_gop_size = - 1, enc_max_b_frames = - 1, enc_qmin = - 1, enc_qmax = - 1, enc_thread_count = - 1,
     enc_open_options = [], flt_dec_name = [], flt_dec_thread_count = - 1, flt_dec_thread_type = - 1\<rparr>"

fun load_open_options :: "'n yaml \<Rightarrow> ('n \<times> 'n) list \<Rightarrow> filter_options \<Rightarrow> filter_options option" where
  "load_open_options y [] opt = Some opt"
| "load_open_options y ((k, v) # es) opt =
     Option.bind (as_string y k) (\<lambda>k.
     Option.bind (as_string y v) (\<lambda>v.
       load_open_options y es (opt\<lparr>enc_open_options := set_key k v (enc_open_options opt)\<rparr>)))"

definition filter_readers :: "'n yaml \<Rightarrow> (string \<times> ('n \<Rightarrow> filter_options \<Rightarrow> filter_options option)) list" where
  "filter_readers y =
     [(''bsf_name'', get_as (as_string y) (\<lambda>x s. s\<lparr>bsf_name := x\<rparr>)),
      (''enc_name'', get_as (as_string y) (\<lambda>x s. s\<lparr>enc_name := x\<rparr>)),
      (''enc_bit_rate'', get_as (as_int y) (\<lambda>x s. s\<lparr>enc_bit_rate := x\<rparr>)),
      (''enc_framerate'', get_as (as_int y) (\<lambda>x s. s\<lparr>enc_framerate := x\<rparr>)),
      (''enc_gop_size'', get_as (as_int y) (\<lambda>x s. s\<lparr>enc_gop_size := x\<rparr>)),
      (''enc_max_b_frames'', get_as (as_int y) (\<lambda>x s. s\<lparr>enc_max_b_frames := x\<rparr>)),
      (''enc_qmin'', get_as (as_int y) (\<lambda>x s. s\<lparr>enc_qmin := x\<rparr>)),
      (''enc_qmax'', get_as (as_int y) (\<lambda>x s. s\<lparr>enc_qmax := x\<rparr>)),
      (''enc_thread_count'', get_as (as_int y) (\<lambda>x s. s\<lparr>enc_thread_count := x\<rparr>)),
      (''fr_open_options'', \<lambda>v s. if is_map y v then load_open_options y (entries y v) s else Some s),
      (''dec_name'', get_as (as_string y) (\<lambda>x s. s\<lparr>flt_dec_name := x\<rparr>)),
      (''dec_thread_count'', get_as (as_int y) (\<lambda>x s. s\<lparr>flt_dec_thread_count := x\<rparr>)),
      (''dec_thread_type'', get_as (as_int y) (\<lambda>x s. s\<lparr>flt_dec_thread_type := x\<rparr>))]"

definition LoadFilterOptions :: "'n yaml \<Rightarrow> 'n \<Rightarrow> filter_options option" where
  "LoadFilterOptions y n =
     Option.bind (Option.bind (child_string y n ''type'') (of_call \<circ> StreamFilterTypeFromString)) (\<lambda>k.
       if_children y n (filter_readers y) (default_filter\<lparr>filter_kind := k\<rparr>))"

fun load_all :: "('n \<Rightarrow> 'v option) \<Rightarrow> 'n list \<Rightarrow> 'v list \<Rightarrow> 'v list option" where
  "load_all load [] vs = Some vs"
| "load_all load (n # ns) vs = Option.bind (load n) (\<lambda>v. load_all load ns (vs @ [v]))"

definition LoadFiltersOptions :: "'n yaml \<Rightarrow> 'n option \<Rightarrow> filter_options list option" where
  "LoadFiltersOptions y n =
     (case n of
        None \<Rightarrow> Some []
      | Some n \<Rightarrow> if \<not> is_sequence y n then Some [] else load_all (LoadFilterOptions y) (items y n) [])"

section \<open>Options of the server\<close>

definition parse_strings :: "'n yaml \<Rightarrow> (string list \<Rightarrow> cors_options \<Rightarrow> cors_options) \<Rightarrow> 'n \<Rightarrow> cors_options \<Rightarrow> cors_options option" where
  "parse_strings y append_to n s =
     (if is_scalar y n then map_option (\<lambda>x. append_to [x] s) (as_string y n)
      else if is_sequence y n then map_option (\<lambda>xs. append_to xs s) (load_all (as_string y) (items y n) [])
      else None)"

text \<open>\<open>debug\<close> only switches log lines; it is read and dropped.\<close>

definition decode_cors :: "'n yaml \<Rightarrow> 'n \<Rightarrow> cors_options \<Rightarrow> cors_options option" where
  "decode_cors y n s =
     if_children y n
       [(''enabled'', get_as (as_bool y) (\<lambda>x s. s\<lparr>enabled := x\<rparr>)),
        (''allowed_origins'', parse_strings y (\<lambda>xs s. s\<lparr>allowed_origins := allowed_origins s @ xs\<rparr>)),
        (''allowed_methods'', parse_strings y (\<lambda>xs s. s\<lparr>allowed_methods := allowed_methods s @ xs\<rparr>)),
        (''allowed_headers'', parse_strings y (\<lambda>xs s. s\<lparr>allowed_headers := allowed_headers s @ xs\<rparr>)),
        (''exposed_headers'', parse_strings y (\<lambda>xs s. s\<lparr>exposed_headers := exposed_headers s @ xs\<rparr>)),
        (''allowed_credentials'', get_as (as_bool y) (\<lambda>x s. s\<lparr>allowed_credentials := x\<rparr>)),
        (''max_age'', get_as (as_int y) (\<lambda>x s. s\<lparr>max_age := x\<rparr>)),
        (''debug'', get_as (as_bool y) (\<lambda>x s. s))] s"

record http_options =
  http_enable :: bool
  http_doc_root :: string
  ssl_crt :: string
  ssl_key :: string
  ssl_dh :: string

record ws_options =
  ws_addr :: string
  ws_port :: int
  ws_threads :: int
  ws_http :: http_options
  ws_cors :: cors_options
  ws_http_target :: string
  ws_prefix :: string
  queue_limit :: int

definition default_cors :: cors_options where
  "default_cors = \<lparr>enabled = False, allowed_origins = [], allowed_methods = [], allowed_headers = [],
     exposed_headers = [], allowed_credentials = False, max_age = 0\<rparr>"

definition default_ws :: ws_options where
  "default_ws = \<lparr>ws_addr = ''0.0.0.0'', ws_port = 8080, ws_threads = 3,
     ws_http = \<lparr>http_enable = True, http_doc_root = ''.'', ssl_crt = [], ssl_key = [], ssl_dh = []\<rparr>,
     ws_cors = default_cors, ws_http_target = ''/streams'', ws_prefix = ''/stream/'', queue_limit = 1\<rparr>"

text \<open>The queue's limit is a \<open>size_t\<close>: a negative number becomes a huge one.\<close>

definition to_server_options :: "ws_options \<Rightarrow> server_options" where
  "to_server_options w = \<lparr>doc_root = http_doc_root (ws_http w), cors = ws_cors w, http_target = ws_http_target w,
     ws_target_prefix = ws_prefix w, max_queue = size_t_of_int (word_of_int (queue_limit w))\<rparr>"

section \<open>The configuration\<close>

text \<open>The flags of the logging library are set as they are read.\<close>

definition InitLoggingFlags :: "'n yaml \<Rightarrow> 'n option \<Rightarrow> unit option" where
  "InitLoggingFlags y n =
     (case n of
        None \<Rightarrow> Some ()
      | Some n \<Rightarrow> if_children y n
          [(''logtostderr'', get_as (as_bool y) (\<lambda>x s. s)), (''alsologtostderr'', get_as (as_bool y) (\<lambda>x s. s)),
           (''colorlogtostderr'', get_as (as_bool y) (\<lambda>x s. s)), (''minloglevel'', get_as (as_int y) (\<lambda>x s. s)),
           (''v'', get_as (as_int y) (\<lambda>x s. s)), (''log_prefix'', get_as (as_bool y) (\<lambda>x s. s)),
           (''log_dir'', get_as (as_string y) (\<lambda>x s. s)), (''max_log_size'', get_as (as_int y) (\<lambda>x s. s)),
           (''stop_logging_if_full_disk'', get_as (as_bool y) (\<lambda>x s. s))] ())"

definition load_http :: "'n yaml \<Rightarrow> 'n \<Rightarrow> http_options \<Rightarrow> http_options option" where
  "load_http y n =
     if_children y n
       [(''enable'', get_as (as_bool y) (\<lambda>x s. s\<lparr>http_enable := x\<rparr>)),
        (''doc_root'', get_as (as_string y) (\<lambda>x s. s\<lparr>http_doc_root := x\<rparr>)),
        (''ssl_crt'', get_as (as_string y) (\<lambda>x s. s\<lparr>ssl_crt := x\<rparr>)),
        (''ssl_key'', get_as (as_string y) (\<lambda>x s. s\<lparr>ssl_key := x\<rparr>)),
        (''ssl_dh'', get_as (as_string y) (\<lambda>x s. s\<lparr>ssl_dh := x\<rparr>))]"

definition load_server :: "'n yaml \<Rightarrow> 'n \<Rightarrow> ws_options \<Rightarrow> ws_options option" where
  "load_server y n =
     if_children y n
       [(''addr'', get_as (as_string y) (\<lambda>x s. s\<lparr>ws_addr := x\<rparr>)),
        (''port'', get_as (as_int y) (\<lambda>x s. s\<lparr>ws_port := x\<rparr>)),
        (''threads'', get_as (as_int y) (\<lambda>x s. s\<lparr>ws_threads := x\<rparr>)),
        (''http'', \<lambda>v s. map_option (\<lambda>h. s\<lparr>ws_http := h\<rparr>) (load_http y v (ws_http s))),
        (''cors'', get_as (\<lambda>v. decode_cors y v (fresh_cors y)) (\<lambda>x s. s\<lparr>ws_cors := x\<rparr>)),
        (''stream'', \<lambda>v. if_children y v
           [(''http_target'', get_as (as_string y) (\<lambda>x s. s\<lparr>ws_http_target := x\<rparr>)),
            (''ws_target_prefix'', get_as (as_string y) (\<lambda>x s. s\<lparr>ws_prefix := x\<rparr>)),
            (''send_queue_max_size'', get_as (as_int y) (\<lambda>x s. s\<lparr>queue_limit := x\<rparr>))])]"

record proxy_config =
  cfg_server :: ws_options
  cfg_streams :: "string \<rightharpoonup> stream_options"
  cfg_filters :: "string \<rightharpoonup> filter_options list"
  get_frequency :: int
  ui_enable :: bool

definition default_config :: proxy_config where
  "default_config = \<lparr>cfg_server = default_ws, cfg_streams = Map.empty, cfg_filters = Map.empty, get_frequency = 20,
     ui_enable = False\<rparr>"

definition load_stream :: "'n yaml \<Rightarrow> pix_names \<Rightarrow> 'n \<Rightarrow> (string \<times> stream_options \<times> filter_options list) option" where
  "load_stream y ff n =
     Option.bind (child_string y n ''id'') (\<lambda>i.
     Option.bind (decode_stream y ff n default_stream) (\<lambda>opts.
     Option.bind (child y n ''filters'') (\<lambda>f.
       map_option (\<lambda>fs. (i, opts, fs)) (LoadFiltersOptions y f))))"

fun load_streams :: "'n yaml \<Rightarrow> pix_names \<Rightarrow> 'n list \<Rightarrow> proxy_config \<Rightarrow> proxy_config option" where
  "load_streams y ff [] c = Some c"
| "load_streams y ff (n # ns) c =
     Option.bind (load_stream y ff n) (\<lambda>(i, opts, fs).
       load_streams y ff ns
         (c\<lparr>cfg_streams := (cfg_streams c)(i \<mapsto> opts), cfg_filters := (cfg_filters c)(i \<mapsto> fs)\<rparr>))"

text \<open>The body of the \<open>try\<close> block, after \<open>YAML::LoadFile\<close>.\<close>

definition load_node :: "'n yaml \<Rightarrow> pix_names \<Rightarrow> 'n \<Rightarrow> proxy_config \<Rightarrow> proxy_config option" where
  "load_node y ff n c =
     Option.bind (child y n ''log'') (\<lambda>log.
     Option.bind (InitLoggingFlags y log) (\<lambda>_.
       if_children y n
         [(''server'', \<lambda>v c. map_option (\<lambda>s. c\<lparr>cfg_server := s\<rparr>) (load_server y v (cfg_server c))),
          (''streams'', \<lambda>v. load_streams y ff (items y v)),
          (''stream_get_frequency'', get_as (as_int y) (\<lambda>x c. c\<lparr>get_frequency := x\<rparr>)),
          (''stream_ui_enable'', get_as (as_bool y) (\<lambda>x c. c\<lparr>ui_enable := x\<rparr>))] c))"

text \<open>\<open>None\<close> is \<open>EXIT_FAILURE\<close>, with which \<open>main\<close> returns at once.\<close>

definition LoadConfig :: "'n yaml \<Rightarrow> pix_names \<Rightarrow> 'n option \<Rightarrow> proxy_config option" where
  "LoadConfig y ff file =
     Option.bind file (\<lambda>n.
     Option.bind (load_node y ff n default_config) (\<lambda>c.
       if cfg_streams c = Map.empty then None else Some c))"

section \<open>Writing options\<close>

datatype yval = YStr string | YInt int | YBool bool | YMap "(string \<times> yval) list"

fun and_then :: "'a call \<Rightarrow> ('a \<Rightarrow> 'b call) \<Rightarrow> 'b call" where
  "and_then (Ok x) k = k x"
| "and_then (Throw e) k = Throw e"
| "and_then Undefined k = Undefined"

lemma and_then_Ok: "and_then c k = Ok v \<longleftrightarrow> (\<exists>x. c = Ok x \<and> k x = Ok v)"
  by (cases c) simp_all

definition encode_video :: "pix_names \<Rightarrow> stream_video_options \<Rightarrow> yval call" where
  "encode_video ff opts =
     and_then (PixelFormatToString ff (sws_dst_pix_fmt opts)) (\<lambda>fmt.
       Ok (YMap [(''dec_name'', YStr (dec_name opts)), (''dec_thread_count'', YInt (dec_thread_count opts)),
         (''dec_thread_type'', YInt (dec_thread_type opts)), (''sws_enable'', YBool (sws_enable opts)),
         (''sws_dst_width'', YInt (sws_dst_width opts)), (''sws_dst_height'', YInt (sws_dst_height opts)),
         (''sws_dst_pix_fmt'', YStr fmt), (''sws_flags'', YInt (sws_flags opts))]))"

definition encode_stream :: "pix_names \<Rightarrow> stream_options \<Rightarrow> yval call" where
  "encode_stream ff opts =
     and_then (StreamMethodToString (opt_method opts)) (\<lambda>m.
     and_then (PixelFormatToString ff (pixel_format opts)) (\<lambda>fmt.
     and_then (encode_video ff (video opts)) (\<lambda>v.
       Ok (YMap [(''method'', YStr m), (''input_url'', YStr (input_url opts)),
         (''input_format'', YStr (input_format opts)), (''width'', YInt (cam_width opts)),
         (''height'', YInt (cam_height opts)), (''framerate'', YInt (framerate opts)), (''pixel_format'', YStr fmt),
         (''rtbufsize'', YInt (rtbufsize opts)), (''max_delay'', YInt (max_delay opts)),
         (''rtsp_transport'', YStr (rtsp_transport opts)), (''stimeout'', YInt (stimeout opts)),
         (''dump_format'', YBool (dump_format opts)), (''video'', v)]))))"

section \<open>Properties\<close>

text \<open>Reading gives back what was written into a node: what \<open>yaml-cpp\<close> promises of the nodes it builds.\<close>

definition reads_written :: "'n yaml \<Rightarrow> (yval \<Rightarrow> 'n) \<Rightarrow> bool" where
  "reads_written y node \<longleftrightarrow>
     (\<forall>kvs k. child y (node (YMap kvs)) k = Some (map_option node (map_of kvs k)) \<and> is_map y (node (YMap kvs))) \<and>
     (\<forall>s. as_string y (node (YStr s)) = Some s) \<and> (\<forall>n. as_int y (node (YInt n)) = Some n) \<and>
     (\<forall>b. as_bool y (node (YBool b)) = Some b)"

lemma decode_encoded_video:
  assumes "reads_written y node" and "\<And>p s. pix_desc ff p = Some s \<Longrightarrow> pix_of_name ff s = p"
    and "encode_video ff opts = Ok v"
  shows "decode_video y ff (node v) opts' = Some opts"
proof -
  obtain fmt where fmt: "pix_desc ff (sws_dst_pix_fmt opts) = Some fmt"
    using assms(3) by (auto simp: encode_video_def PixelFormatToString_def split: option.splits)
  then have "pix_of_name ff fmt = sws_dst_pix_fmt opts" by (rule assms(2))
  then show ?thesis
    using assms(1,3) fmt
    by (auto simp: encode_video_def PixelFormatToString_def decode_video_def reads_written_def if_child_def get_as_def
        PixelFormatFromString_def)
qed

text \<open>C26.  Stream options that are written as YAML are read back unchanged, whatever options they are read into.
  Writing fails exactly when the method is none of the four or a pixel format has no descriptor.\<close>

theorem stream_options_roundtrip:
  assumes "reads_written y node" and "\<And>p s. pix_desc ff p = Some s \<Longrightarrow> pix_of_name ff s = p"
  shows "case encode_stream ff opts of
      Ok v \<Rightarrow> decode_stream y ff (node v) opts' = Some opts
    | _ \<Rightarrow> (\<exists>n. opt_method opts = OtherMethod n) \<or> pix_desc ff (pixel_format opts) = None \<or>
           pix_desc ff (sws_dst_pix_fmt (video opts)) = None"
proof (cases "encode_stream ff opts")
  case (Ok v)
  obtain m fmt w where m: "StreamMethodToString (opt_method opts) = call.Ok m" and fmt: "pix_desc ff (pixel_format opts) = Some fmt"
      and w: "encode_video ff (video opts) = call.Ok w"
    using Ok by (auto simp: encode_stream_def PixelFormatToString_def and_then_Ok split: option.splits)
  have "StreamMethodFromString m = call.Ok (opt_method opts)" using m by (simp add: StreamMethod_roundtrip)
  moreover have "pix_of_name ff fmt = pixel_format opts" using fmt by (rule assms(2))
  moreover have "decode_video y ff (node w) default_video = Some (video opts)"
    using assms w by (rule decode_encoded_video)
  ultimately show ?thesis
    using Ok m fmt w assms(1)
    by (auto simp: encode_stream_def PixelFormatToString_def decode_stream_def reads_written_def if_child_def get_as_def
        child_string_def PixelFormatFromString_def)
qed (cases "opt_method opts"; auto simp: encode_stream_def encode_video_def PixelFormatToString_def split: option.splits)+

text \<open>Nodes of \<open>yaml-cpp\<close> that behave as documented.\<close>

definition sample_yaml :: "yval yaml" where
  "sample_yaml =
     \<lparr>child = (\<lambda>n k. case n of YMap kvs \<Rightarrow> Some (map_of kvs k) | YStr s \<Rightarrow> None | _ \<Rightarrow> Some None),
      as_string = (\<lambda>n. case n of YStr s \<Rightarrow> Some s | _ \<Rightarrow> None),
      as_int = (\<lambda>n. case n of YInt i \<Rightarrow> Some i | _ \<Rightarrow> None),
      as_bool = (\<lambda>n. case n of YBool b \<Rightarrow> Some b | _ \<Rightarrow> None),
      is_map = (\<lambda>n. case n of YMap kvs \<Rightarrow> True | _ \<Rightarrow> False), is_sequence = (\<lambda>n. False),
      is_scalar = (\<lambda>n. case n of YMap kvs \<Rightarrow> False | _ \<Rightarrow> True),
      items = (\<lambda>n. case n of YMap kvs \<Rightarrow> map snd kvs | _ \<Rightarrow> []),
      entries = (\<lambda>n. case n of YMap kvs \<Rightarrow> map (\<lambda>(k, v). (YStr k, v)) kvs | _ \<Rightarrow> []), fresh_cors = default_cors\<rparr>"

definition sample_names :: pix_names where
  "sample_names =
     \<lparr>pix_desc = (\<lambda>p. if p = AV_PIX_FMT_YUV420P then Some ''yuv420p'' else None),
      pix_of_name = (\<lambda>s. if s = ''yuv420p'' then AV_PIX_FMT_YUV420P else AV_PIX_FMT_NONE)\<rparr>"

lemma sample_reads_written: "reads_written sample_yaml id"
  by (simp add: reads_written_def sample_yaml_def option.map_id)

definition written_options :: stream_options where
  "written_options = default_stream\<lparr>opt_method := STREAM_METHOD_FILE, input_url := ''a'',
     pixel_format := AV_PIX_FMT_YUV420P, video := default_video\<lparr>sws_dst_pix_fmt := AV_PIX_FMT_YUV420P\<rparr>\<rparr>"

theorem stream_options_roundtrip_witness:
  "case encode_stream sample_names written_options of
      Ok v \<Rightarrow> decode_stream sample_yaml sample_names (id v) default_stream = Some written_options
    | _ \<Rightarrow> False"
proof -
  have "pix_of_name sample_names s = p" if "pix_desc sample_names p = Some s" for p s
    using that by (simp add: sample_names_def split: if_splits)
  note read = stream_options_roundtrip [OF sample_reads_written this, where opts = written_options and opts' = default_stream]
  have "\<exists>v. encode_stream sample_names written_options = call.Ok v"
    by (simp add: encode_stream_def encode_video_def PixelFormatToString_def sample_names_def written_options_def
        default_stream_def default_video_def)
  then obtain v where "encode_stream sample_names written_options = call.Ok v" by blast
  then show ?thesis using read by simp
qed

text \<open>Default options have no pixel format; FFmpeg has no descriptor for none, so they cannot be written.\<close>

lemma default_options_are_not_written:
  "pix_desc ff AV_PIX_FMT_NONE = None \<Longrightarrow> encode_stream ff default_stream = Undefined"
  by (simp add: encode_stream_def default_stream_def PixelFormatToString_def)

text \<open>A negative \<open>send_queue_max_size\<close> is no limit at all.\<close>

lemma negative_queue_size:
  assumes "- (2 ^ 31) \<le> queue_limit w" and "queue_limit w < 0"
  shows "2 ^ 63 \<le> max_queue (to_server_options w)"
proof -
  have "sint (word_of_int (queue_limit w) :: cint) = queue_limit w"
    using assms by (simp add: signed_of_int signed_take_bit_int_eq_self)
  then have "scast (word_of_int (queue_limit w) :: cint) = (word_of_int (queue_limit w) :: 64 word)"
    by (simp add: scast_eq)
  moreover have "take_bit 64 (queue_limit w) = queue_limit w + 2 ^ 64"
  proof -
    have "queue_limit w mod 2 ^ 64 = (queue_limit w + 2 ^ 64) mod 2 ^ 64" by (rule mod_add_self2 [symmetric])
    also have "\<dots> = queue_limit w + 2 ^ 64" using assms by (intro mod_pos_pos_trivial) simp_all
    finally show ?thesis by (simp add: take_bit_eq_mod)
  qed
  ultimately show ?thesis
    using assms by (simp add: to_server_options_def size_t_of_int_def unsigned_of_int)
qed

lemma load_streams_maps:
  "load_streams y ff ns c = Some c' \<Longrightarrow>
   \<exists>es. map (load_stream y ff) ns = map Some es \<and>
     cfg_streams c' = cfg_streams c ++ map_of (rev (map (\<lambda>(i, opts, fs). (i, opts)) es)) \<and>
     cfg_filters c' = cfg_filters c ++ map_of (rev (map (\<lambda>(i, opts, fs). (i, fs)) es))"
proof (induction ns arbitrary: c)
  case (Cons n ns)
  obtain i opts fs where e: "load_stream y ff n = Some (i, opts, fs)"
    using Cons.prems by (auto split: Option.bind_splits)
  obtain es where "map (load_stream y ff) ns = map Some es"
      "cfg_streams c' = (cfg_streams c)(i \<mapsto> opts) ++ map_of (rev (map (\<lambda>(i, opts, fs). (i, opts)) es))"
      "cfg_filters c' = (cfg_filters c)(i \<mapsto> fs) ++ map_of (rev (map (\<lambda>(i, opts, fs). (i, fs)) es))"
    using Cons.IH Cons.prems e by fastforce
  then show ?case using e by (intro exI [of _ "(i, opts, fs) # es"]) (simp add: map_add_def fun_eq_iff split: option.split)
qed simp

lemma if_children_keeps:
  assumes "\<And>k read v s s'. (k, read) \<in> set fs \<Longrightarrow> child y n k \<noteq> Some None \<Longrightarrow> read v s = Some s' \<Longrightarrow> g s' = g s"
    and "if_children y n fs s = Some s'"
  shows "g s' = g s"
  using assms
proof (induction fs arbitrary: s)
  case (Cons f fs)
  obtain k read where f: "f = (k, read)" by (cases f)
  obtain t where t: "if_child y n k read s = Some t" "if_children y n fs t = Some s'"
    using Cons.prems(2) by (auto simp: f split: Option.bind_splits)
  have "g t = g s" using t(1) Cons.prems(1) [of k read] by (auto simp: f if_child_def split: Option.bind_splits option.splits)
  moreover have "g s' = g t" by (rule Cons.IH [OF Cons.prems(1) [OF list.set_intros(2)] t(2)])
  ultimately show ?case by simp
qed simp

text \<open>A configuration that loads has at least one stream; its streams are those of the list under
  \<open>streams\<close>, the last of those with the same identifier, each with the filters of the same entry.\<close>

lemma loaded_streams:
  assumes "LoadConfig y ff (Some n) = Some c"
  shows "\<exists>list es. child y n ''streams'' = Some (Some list) \<and> map (load_stream y ff) (items y list) = map Some es \<and> es \<noteq> [] \<and>
    cfg_streams c = map_of (rev (map (\<lambda>(i, opts, fs). (i, opts)) es)) \<and>
    cfg_filters c = map_of (rev (map (\<lambda>(i, opts, fs). (i, fs)) es))"
proof -
  have some: "cfg_streams c \<noteq> Map.empty"
    and c: "load_node y ff n default_config = Some c"
    using assms by (auto simp: LoadConfig_def split: Option.bind_splits if_splits)
  obtain c1 c2 where c1: "if_child y n ''server'' (\<lambda>v c. map_option (\<lambda>s. c\<lparr>cfg_server := s\<rparr>) (load_server y v (cfg_server c)))
        default_config = Some c1"
      and c2: "if_child y n ''streams'' (\<lambda>v. load_streams y ff (items y v)) c1 = Some c2"
      and rest: "if_children y n
         [(''stream_get_frequency'', get_as (as_int y) (\<lambda>x c. c\<lparr>get_frequency := x\<rparr>)),
          (''stream_ui_enable'', get_as (as_bool y) (\<lambda>x c. c\<lparr>ui_enable := x\<rparr>))] c2 = Some c"
    using c by (auto simp: load_node_def split: Option.bind_splits)
  have empty: "cfg_streams c1 = Map.empty" "cfg_filters c1 = Map.empty"
    using c1 by (auto simp: if_child_def default_config_def split: Option.bind_splits option.splits)
  have kept: "cfg_streams c = cfg_streams c2" "cfg_filters c = cfg_filters c2"
    by (rule if_children_keeps [OF _ rest]; auto simp: get_as_def)+
  obtain list where list: "child y n ''streams'' = Some (Some list)" "load_streams y ff (items y list) c1 = Some c2"
    using c2 some kept empty by (auto simp: if_child_def split: Option.bind_splits option.splits)
  show ?thesis
    using load_streams_maps [OF list(2)] list(1) empty kept some by fastforce
qed

definition sample_config :: yval where
  "sample_config = YMap [(''streams'', YMap
     [(''0'', YMap [(''id'', YStr ''a''), (''method'', YStr ''file''), (''input_url'', YStr ''x'')]),
      (''1'', YMap [(''id'', YStr ''a''), (''method'', YStr ''file''), (''input_url'', YStr ''y'')])])]"

lemma sample_loaded:
  "LoadConfig sample_yaml sample_names (Some sample_config) = Some (default_config
     \<lparr>cfg_streams := [''a'' \<mapsto> default_stream\<lparr>opt_method := STREAM_METHOD_FILE, input_url := ''y''\<rparr>],
      cfg_filters := [''a'' \<mapsto> []]\<rparr>)"
  by (simp add: LoadConfig_def load_node_def sample_config_def sample_yaml_def InitLoggingFlags_def if_child_def
      load_stream_def child_string_def decode_stream_def StreamMethodFromString_def LoadFiltersOptions_def
      default_config_def)

text \<open>The open options of an encoder are read under the key \<open>fr_open_options\<close> only: whatever a filter has under
  \<open>enc_open_options\<close>, as the sample configuration of the proxy has it, the encoder is opened without options.\<close>

lemma enc_open_options_are_ignored:
  assumes "LoadFilterOptions y n = Some opt" and "child y n ''fr_open_options'' = Some None"
  shows "enc_open_options opt = []"
proof -
  obtain k where read: "if_children y n (filter_readers y) (default_filter\<lparr>filter_kind := k\<rparr>) = Some opt"
    using assms(1) by (auto simp: LoadFilterOptions_def split: Option.bind_splits)
  have "enc_open_options opt = enc_open_options (default_filter\<lparr>filter_kind := k\<rparr>)"
  proof (rule if_children_keeps [OF _ read])
    fix k read v s s' assume "(k, read) \<in> set (filter_readers y)" "child y n k \<noteq> Some None" "read v s = Some s'"
    then show "enc_open_options s' = enc_open_options s" using assms(2) by (auto simp: filter_readers_def get_as_def)
  qed
  then show ?thesis by (simp add: default_filter_def)
qed

definition sample_filter :: yval where
  "sample_filter = YMap [(''type'', YStr ''video_enc''), (''enc_name'', YStr ''libx264''),
     (''enc_open_options'', YMap [(''preset'', YStr ''medium'')])]"

end
