(* ===== verification/StreamJson.thy ===== *)
theory StreamJson imports Decoder OrderedMap begin

text \<open>
  \<open>common/net/json.h\<close>: the list of streams as JSON text, from the server's codec parameters to those of a
  client.  JSON values are those of \<open>nlohmann::json\<close>, whose objects are ordered by key; its \<open>dump\<close> and
  \<open>parse\<close> are parameters, and so are FFmpeg's allocation, its default codec parameters and its names of the
  media types.  An exception is the result \<open>None\<close>.
\<close>

section \<open>JSON values\<close>

datatype json =
    JNull | JBool bool | JInt int
  | JFloat int                             \<comment> \<open>a number that is no integer, by its integral part\<close>
  | JStr string | JArr "json list" | JObj "(string \<times> json) list"

text \<open>\<open>j[key] = v\<close>, one after the other.\<close>

definition set_keys :: "(string \<times> json) list \<Rightarrow> (string \<times> json) list \<Rightarrow> (string \<times> json) list" where
  "set_keys new kvs = foldl (\<lambda>m (k, v). set_key k v m) kvs new"

text \<open>
  \<open>at\<close> throws when there is no such key.  \<open>get_to\<close> reads an enumeration or a 64-bit number from
  numbers, the other integers from booleans too.
\<close>

fun json_at :: "string \<Rightarrow> json \<Rightarrow> json option" where
  "json_at k (JObj kvs) = map_of kvs k"
| "json_at k _ = None"

fun get_num :: "json \<Rightarrow> int option" where
  "get_num (JInt n) = Some n"
| "get_num (JFloat n) = Some n"
| "get_num _ = None"

fun get_int :: "json \<Rightarrow> int option" where
  "get_int (JBool b) = Some (if b then 1 else 0)"
| "get_int j = get_num j"

fun get_str :: "json \<Rightarrow> string option" where
  "get_str (JStr s) = Some s"
| "get_str _ = None"

lemma map_of_set_keys [simp]: "map_of (set_keys new kvs) = map_of kvs ++ map_of (rev new)"
  unfolding set_keys_def by (induction new arbitrary: kvs) (auto simp: map_add_def fun_eq_iff split: option.splits)

section \<open>Codec parameters\<close>

record codec_parameters =
  cp_type :: cint
  cp_id :: cint
  cp_tag :: uint32
  cp_bit_rate :: cint64
  cp_bits_per_coded_sample :: cint
  cp_bits_per_raw_sample :: cint
  cp_profile :: cint
  cp_level :: cint
  cp_extradata :: "byte list option"       \<comment> \<open>null, or \<open>extradata_size\<close> bytes\<close>
  cp_format :: cint
  cp_width :: cint
  cp_height :: cint
  cp_field_order :: cint
  cp_color_range :: cint
  cp_color_primaries :: cint
  cp_color_trc :: cint
  cp_color_space :: cint
  cp_chroma_location :: cint
  cp_sample_aspect_ratio :: "cint \<times> cint"
  cp_video_delay :: cint
  cp_channel_layout :: "64 word"           \<comment> \<open>\<open>uint64_t\<close>\<close>
  cp_channels :: cint
  cp_sample_rate :: cint
  cp_block_align :: cint
  cp_frame_size :: cint
  cp_initial_padding :: cint
  cp_trailing_padding :: cint
  cp_seek_preroll :: cint

definition AVMEDIA_TYPE_AUDIO :: cint where "AVMEDIA_TYPE_AUDIO = 1"
definition AVMEDIA_TYPE_SUBTITLE :: cint where "AVMEDIA_TYPE_SUBTITLE = 3"

lemmas media_types = AVMEDIA_TYPE_VIDEO_def AVMEDIA_TYPE_AUDIO_def AVMEDIA_TYPE_SUBTITLE_def

section \<open>Extra data in hexadecimal\<close>

definition hex_digit :: "nat \<Rightarrow> char" where
  "hex_digit n = ''0123456789abcdef'' ! n"

definition hex_byte :: "byte \<Rightarrow> string" where
  "hex_byte b = [hex_digit (unat b div 16), hex_digit (unat b mod 16)]"

definition hex_value :: "char \<Rightarrow> int option" where
  "hex_value c =
     (let n = of_char c :: int in
      if 48 \<le> n \<and> n \<le> 57 then Some (n - 48)
      else if 97 \<le> n \<and> n \<le> 102 then Some (n - 87)
      else if 65 \<le> n \<and> n \<le> 70 then Some (n - 55)
      else None)"

definition is_space :: "char \<Rightarrow> bool" where
  "is_space c \<longleftrightarrow> (let n = of_char c :: nat in n = 32 \<or> 9 \<le> n \<and> n \<le> 13)"

text \<open>\<open>std::stoi(s, nullptr, 16)\<close> on at most two characters, where a prefix \<open>0x\<close> is the digit \<open>0\<close>.\<close>

definition stoi16 :: "string \<Rightarrow> int option" where
  "stoi16 s =
     (let s = dropWhile is_space s;
          (neg, s) = (case s of c # r \<Rightarrow> if c = CHR ''-'' then (True, r) else if c = CHR ''+'' then (False, r) else (False, s)
                      | [] \<Rightarrow> (False, []));
          ds = takeWhile (\<lambda>c. hex_value c \<noteq> None) s;
          n = foldl (\<lambda>n c. 16 * n + the (hex_value c)) 0 ds in
      if ds = [] then None else Some (if neg then - n else n))"

text \<open>Byte \<open>i\<close> and the ones after it; \<open>substr\<close> throws beyond the end of the string.\<close>

fun parse_extradata :: "nat \<Rightarrow> nat \<Rightarrow> string \<Rightarrow> byte list option" where
  "parse_extradata i 0 s = Some []"
| "parse_extradata i (Suc n) s =
     (if length s < i * 2 then None
      else Option.bind (stoi16 (take 2 (drop (i * 2) s))) (\<lambda>v.
        map_option ((#) (word_of_int v)) (parse_extradata (Suc i) n s)))"

section \<open>Writing codec parameters\<close>

definition jint :: "cint \<Rightarrow> json" where "jint w = JInt (sint w)"

definition ratio_to_json :: "cint \<times> cint \<Rightarrow> json" where
  "ratio_to_json r = JObj (set_keys [(''num'', jint (fst r)), (''den'', jint (snd r))] [])"

definition common_to_json :: "codec_parameters \<Rightarrow> (string \<times> json) list" where
  "common_to_json p =
     [(''codec_type'', jint (cp_type p)), (''codec_id'', jint (cp_id p)), (''codec_tag'', JInt (uint (cp_tag p))),
      (''bit_rate'', JInt (sint (cp_bit_rate p))), (''bits_per_coded_sample'', jint (cp_bits_per_coded_sample p)),
      (''bits_per_raw_sample'', jint (cp_bits_per_raw_sample p)), (''profile'', jint (cp_profile p)),
      (''level'', jint (cp_level p))]"

definition extradata_to_json :: "codec_parameters \<Rightarrow> (string \<times> json) list" where
  "extradata_to_json p =
     (case cp_extradata p of
        Some bs \<Rightarrow> [(''extradata'', JStr (concat (map hex_byte bs))), (''extradata_size'', JInt (int (length bs)))]
      | None \<Rightarrow> [(''extradata'', JNull), (''extradata_size'', JInt 0)])"

definition type_to_json :: "codec_parameters \<Rightarrow> (string \<times> json) list" where
  "type_to_json p =
     (if cp_type p = AVMEDIA_TYPE_VIDEO then
        [(''format'', jint (cp_format p)), (''width'', jint (cp_width p)), (''height'', jint (cp_height p)),
         (''field_order'', jint (cp_field_order p)), (''color_range'', jint (cp_color_range p)),
         (''color_primaries'', jint (cp_color_primaries p)), (''color_trc'', jint (cp_color_trc p)),
         (''color_space'', jint (cp_color_space p)), (''chroma_location'', jint (cp_chroma_location p)),
         (''sample_aspect_ratio'', ratio_to_json (cp_sample_aspect_ratio p)), (''video_delay'', jint (cp_video_delay p))]
      else if cp_type p = AVMEDIA_TYPE_AUDIO then
        [(''format'', jint (cp_format p)), (''channel_layout'', JInt (uint (cp_channel_layout p))),
         (''channels'', jint (cp_channels p)), (''sample_rate'', jint (cp_sample_rate p)),
         (''block_align'', jint (cp_block_align p)), (''frame_size'', jint (cp_frame_size p)),
         (''initial_padding'', jint (cp_initial_padding p)), (''trailing_padding'', jint (cp_trailing_padding p)),
         (''seek_preroll'', jint (cp_seek_preroll p))]
      else if cp_type p = AVMEDIA_TYPE_SUBTITLE then
        [(''width'', jint (cp_width p)), (''height'', jint (cp_height p))]
      else [])"

definition codecpar_to_json :: "codec_parameters \<Rightarrow> json" where
  "codecpar_to_json p = JObj (set_keys (type_to_json p) (set_keys (extradata_to_json p) (set_keys (common_to_json p) [])))"

section \<open>Reading codec parameters\<close>

type_synonym field_reader = "string \<times> (json \<Rightarrow> codec_parameters \<Rightarrow> codec_parameters option)"

text \<open>\<open>j.at(key).get_to(field)\<close>, one field after the other.\<close>

fun read_fields :: "json \<Rightarrow> field_reader list \<Rightarrow> codec_parameters \<Rightarrow> codec_parameters option" where
  "read_fields j [] p = Some p"
| "read_fields j ((k, read) # fs) p =
     Option.bind (json_at k j) (\<lambda>v. Option.bind (read v p) (read_fields j fs))"

type_synonym field_setter = "int \<Rightarrow> codec_parameters \<Rightarrow> codec_parameters"

definition int_to :: "field_setter \<Rightarrow> json \<Rightarrow> codec_parameters \<Rightarrow> codec_parameters option" where
  "int_to f v p = map_option (\<lambda>n. f n p) (get_int v)"

definition num_to :: "field_setter \<Rightarrow> json \<Rightarrow> codec_parameters \<Rightarrow> codec_parameters option" where
  "num_to f v p = map_option (\<lambda>n. f n p) (get_num v)"

definition ratio_to :: "json \<Rightarrow> codec_parameters \<Rightarrow> codec_parameters option" where
  "ratio_to v p =
     Option.bind (Option.bind (json_at ''num'' v) get_int) (\<lambda>num.
     Option.bind (Option.bind (json_at ''den'' v) get_int) (\<lambda>den.
       Some (p\<lparr>cp_sample_aspect_ratio := (word_of_int num, word_of_int den)\<rparr>)))"

definition common_readers :: "field_reader list" where
  "common_readers =
     [(''codec_type'', num_to (\<lambda>n p. p\<lparr>cp_type := word_of_int n\<rparr>)),
      (''codec_id'', num_to (\<lambda>n p. p\<lparr>cp_id := word_of_int n\<rparr>)),
      (''codec_tag'', int_to (\<lambda>n p. p\<lparr>cp_tag := word_of_int n\<rparr>)),
      (''bit_rate'', num_to (\<lambda>n p. p\<lparr>cp_bit_rate := word_of_int n\<rparr>)),
      (''bits_per_coded_sample'', int_to (\<lambda>n p. p\<lparr>cp_bits_per_coded_sample := word_of_int n\<rparr>)),
      (''bits_per_raw_sample'', int_to (\<lambda>n p. p\<lparr>cp_bits_per_raw_sample := word_of_int n\<rparr>)),
      (''profile'', int_to (\<lambda>n p. p\<lparr>cp_profile := word_of_int n\<rparr>)),
      (''level'', int_to (\<lambda>n p. p\<lparr>cp_level := word_of_int n\<rparr>))]"

definition video_readers :: "field_reader list" where
  "video_readers =
     [(''format'', int_to (\<lambda>n p. p\<lparr>cp_format := word_of_int n\<rparr>)),
      (''width'', int_to (\<lambda>n p. p\<lparr>cp_width := word_of_int n\<rparr>)),
      (''height'', int_to (\<lambda>n p. p\<lparr>cp_height := word_of_int n\<rparr>)),
      (''field_order'', num_to (\<lambda>n p. p\<lparr>cp_field_order := word_of_int n\<rparr>)),
      (''color_range'', num_to (\<lambda>n p. p\<lparr>cp_color_range := word_of_int n\<rparr>)),
      (''color_primaries'', num_to (\<lambda>n p. p\<lparr>cp_color_primaries := word_of_int n\<rparr>)),
      (''color_trc'', num_to (\<lambda>n p. p\<lparr>cp_color_trc := word_of_int n\<rparr>)),
      (''color_space'', num_to (\<lambda>n p. p\<lparr>cp_color_space := word_of_int n\<rparr>)),
      (''chroma_location'', num_to (\<lambda>n p. p\<lparr>cp_chroma_location := word_of_int n\<rparr>)),
      (''sample_aspect_ratio'', ratio_to),
      (''video_delay'', int_to (\<lambda>n p. p\<lparr>cp_video_delay := word_of_int n\<rparr>))]"

definition audio_readers :: "field_reader list" where
  "audio_readers =
     [(''format'', int_to (\<lambda>n p. p\<lparr>cp_format := word_of_int n\<rparr>)),
      (''channel_layout'', num_to (\<lambda>n p. p\<lparr>cp_channel_layout := word_of_int n\<rparr>)),
      (''channels'', int_to (\<lambda>n p. p\<lparr>cp_channels := word_of_int n\<rparr>)),
      (''sample_rate'', int_to (\<lambda>n p. p\<lparr>cp_sample_rate := word_of_int n\<rparr>)),
      (''block_align'', int_to (\<lambda>n p. p\<lparr>cp_block_align := word_of_int n\<rparr>)),
      (''frame_size'', int_to (\<lambda>n p. p\<lparr>cp_frame_size := word_of_int n\<rparr>)),
      (''initial_padding'', int_to (\<lambda>n p. p\<lparr>cp_initial_padding := word_of_int n\<rparr>)),
      (''trailing_padding'', int_to (\<lambda>n p. p\<lparr>cp_trailing_padding := word_of_int n\<rparr>)),
      (''seek_preroll'', int_to (\<lambda>n p. p\<lparr>cp_seek_preroll := word_of_int n\<rparr>))]"

definition subtitle_readers :: "field_reader list" where
  "subtitle_readers =
     [(''width'', int_to (\<lambda>n p. p\<lparr>cp_width := word_of_int n\<rparr>)),
      (''height'', int_to (\<lambda>n p. p\<lparr>cp_height := word_of_int n\<rparr>))]"

definition AV_INPUT_BUFFER_PADDING_SIZE :: nat where "AV_INPUT_BUFFER_PADDING_SIZE = 64"

text \<open>The size is stored in an \<open>int\<close>; extra data is allocated only for a positive size.\<close>

definition read_extradata :: "(nat \<Rightarrow> bool) \<Rightarrow> json \<Rightarrow> codec_parameters \<Rightarrow> codec_parameters option" where
  "read_extradata alloc j p =
     Option.bind (Option.bind (json_at ''extradata_size'' j) get_int) (\<lambda>n.
       let size = sint (word_of_int n :: cint) in
       if size \<le> 0 then Some p
       else
         Option.bind (Option.bind (json_at ''extradata'' j) get_str) (\<lambda>s.
         Option.bind (parse_extradata 0 (nat size) s) (\<lambda>bs.
           if alloc (nat size + AV_INPUT_BUFFER_PADDING_SIZE) then Some (p\<lparr>cp_extradata := Some bs\<rparr>) else None)))"

definition codecpar_from_json :: "(nat \<Rightarrow> bool) \<Rightarrow> json \<Rightarrow> codec_parameters \<Rightarrow> codec_parameters option" where
  "codecpar_from_json alloc j p =
     Option.bind (read_fields j common_readers p) (\<lambda>p.
     Option.bind (read_extradata alloc j p) (\<lambda>p.
       if cp_type p = AVMEDIA_TYPE_VIDEO then read_fields j video_readers p
       else if cp_type p = AVMEDIA_TYPE_AUDIO then read_fields j audio_readers p
       else if cp_type p = AVMEDIA_TYPE_SUBTITLE then read_fields j subtitle_readers p
       else Some p))"

section \<open>Writing and reading back\<close>

text \<open>What a client has of the server's parameters: the common fields, the extra data when there is any,
  and the fields of the media type; the rest is what its own allocation has.\<close>

definition received_params :: "codec_parameters \<Rightarrow> codec_parameters \<Rightarrow> codec_parameters" where
  "received_params p q =
     (let q = q\<lparr>cp_type := cp_type p, cp_id := cp_id p, cp_tag := cp_tag p, cp_bit_rate := cp_bit_rate p,
                cp_bits_per_coded_sample := cp_bits_per_coded_sample p,
                cp_bits_per_raw_sample := cp_bits_per_raw_sample p, cp_profile := cp_profile p, cp_level := cp_level p,
                cp_extradata := (case cp_extradata p of Some (b # bs) \<Rightarrow> Some (b # bs) | _ \<Rightarrow> cp_extradata q)\<rparr> in
      if cp_type p = AVMEDIA_TYPE_VIDEO then
        q\<lparr>cp_format := cp_format p, cp_width := cp_width p, cp_height := cp_height p,
          cp_field_order := cp_field_order p, cp_color_range := cp_color_range p,
          cp_color_primaries := cp_color_primaries p, cp_color_trc := cp_color_trc p,
          cp_color_space := cp_color_space p, cp_chroma_location := cp_chroma_location p,
          cp_sample_aspect_ratio := cp_sample_aspect_ratio p, cp_video_delay := cp_video_delay p\<rparr>
      else if cp_type p = AVMEDIA_TYPE_AUDIO then
        q\<lparr>cp_format := cp_format p, cp_channel_layout := cp_channel_layout p, cp_channels := cp_channels p,
          cp_sample_rate := cp_sample_rate p, cp_block_align := cp_block_align p, cp_frame_size := cp_frame_size p,
          cp_initial_padding := cp_initial_padding p, cp_trailing_padding := cp_trailing_padding p,
          cp_seek_preroll := cp_seek_preroll p\<rparr>
      else if cp_type p = AVMEDIA_TYPE_SUBTITLE then
        q\<lparr>cp_width := cp_width p, cp_height := cp_height p\<rparr>
      else q)"

lemma hex_digit_read:
  assumes "n < 16"
  shows "hex_value (hex_digit n) = Some (int n)" and "\<not> is_space (hex_digit n)"
    and "hex_digit n \<noteq> CHR ''-''" and "hex_digit n \<noteq> CHR ''+''"
proof -
  have "n \<in> {0, 1, 2, 3, 4, 5, 6, 7, 8, 9, 10, 11, 12, 13, 14, 15}" using assms by (simp, presburger)
  then show "hex_value (hex_digit n) = Some (int n)" "\<not> is_space (hex_digit n)"
      "hex_digit n \<noteq> CHR ''-''" "hex_digit n \<noteq> CHR ''+''"
    by (auto simp: hex_digit_def hex_value_def is_space_def Let_def)
qed

lemma stoi16_hex_byte: "stoi16 (hex_byte b) = Some (uint b)"
proof -
  have "unat b < 256" using unsigned_less [of b, where ?'a = nat] by simp
  then have "unat b div 16 < 16" "unat b mod 16 < 16" by auto
  note read = this [THEN hex_digit_read(1)] this [THEN hex_digit_read(2)]
    this [THEN hex_digit_read(3)] this [THEN hex_digit_read(4)]
  have "16 * (unat b div 16) + unat b mod 16 = unat b" by simp
  then have "16 * int (unat b div 16) + int (unat b mod 16) = uint b"
    by (metis (no_types) of_nat_add of_nat_mult of_nat_numeral uint_nat)
  then show ?thesis using read by (simp add: stoi16_def hex_byte_def)
qed

lemma length_hex: "length (concat (map hex_byte bs)) = 2 * length bs"
  by (induction bs) (auto simp: hex_byte_def)

lemma drop_hex: "drop (i * 2) (concat (map hex_byte bs)) = concat (map hex_byte (drop i bs))"
  by (induction bs arbitrary: i) (auto simp: hex_byte_def drop_Cons split: nat.split)

lemma parse_extradata_hex:
  "i + n = length bs \<Longrightarrow> parse_extradata i n (concat (map hex_byte bs)) = Some (drop i bs)"
proof (induction n arbitrary: i)
  case (Suc n)
  then have "drop i bs = bs ! i # drop (Suc i) bs" by (intro Cons_nth_drop_Suc [symmetric]) simp
  moreover have "take 2 (hex_byte b @ s) = hex_byte b" for b s by (simp add: hex_byte_def)
  ultimately show ?case
    using Suc by (simp add: length_hex drop_hex stoi16_hex_byte)
qed simp

text \<open>The keys of the object, as they were assigned.\<close>

lemma at_codecpar:
  "json_at k (codecpar_to_json p) =
     (map_of (rev (common_to_json p)) ++ map_of (rev (extradata_to_json p)) ++ map_of (rev (type_to_json p))) k"
  by (simp add: codecpar_to_json_def)

lemmas writers = common_to_json_def extradata_to_json_def type_to_json_def jint_def
lemmas readers = common_readers_def video_readers_def audio_readers_def subtitle_readers_def int_to_def num_to_def

lemma common_at:
  "k \<in> fst ` set (common_to_json p) \<Longrightarrow> json_at k (codecpar_to_json p) = map_of (rev (common_to_json p)) k"
proof -
  assume k: "k \<in> fst ` set (common_to_json p)"
  then have "k \<notin> fst ` set (extradata_to_json p)"
    by (auto simp: common_to_json_def extradata_to_json_def split: option.splits)
  moreover have "k \<notin> fst ` set (type_to_json p)"
    using k by (auto simp: common_to_json_def type_to_json_def split: if_splits)
  ultimately show ?thesis
    unfolding at_codecpar map_add_def by (metis (no_types, lifting) map_of_eq_None_iff option.simps(4) set_rev)
qed

lemma extradata_at:
  "k \<in> fst ` set (extradata_to_json p) \<Longrightarrow> json_at k (codecpar_to_json p) = map_of (rev (extradata_to_json p)) k"
proof -
  assume k: "k \<in> fst ` set (extradata_to_json p)"
  then have "k \<notin> fst ` set (type_to_json p)"
    by (auto simp: extradata_to_json_def type_to_json_def split: if_splits option.splits)
  then have "map_of (rev (type_to_json p)) k = None" by (simp add: map_of_eq_None_iff)
  moreover from k obtain v where "map_of (rev (extradata_to_json p)) k = Some v"
    by (metis map_of_eq_None_iff not_Some_eq set_rev)
  ultimately show ?thesis unfolding at_codecpar map_add_def by simp
qed

lemma type_at:
  "k \<in> fst ` set (type_to_json p) \<Longrightarrow> json_at k (codecpar_to_json p) = map_of (rev (type_to_json p)) k"
  unfolding at_codecpar map_add_def
  by (metis (no_types, lifting) map_of_eq_None_iff not_Some_eq option.simps(5) set_rev)

lemma ratio_read:
  "ratio_to (ratio_to_json r) p = Some (p\<lparr>cp_sample_aspect_ratio := r\<rparr>)"
  by (cases r) (simp add: ratio_to_def ratio_to_json_def jint_def)

lemma read_common:
  "read_fields (codecpar_to_json p) common_readers q =
     Some (q\<lparr>cp_type := cp_type p, cp_id := cp_id p, cp_tag := cp_tag p, cp_bit_rate := cp_bit_rate p,
            cp_bits_per_coded_sample := cp_bits_per_coded_sample p,
            cp_bits_per_raw_sample := cp_bits_per_raw_sample p, cp_profile := cp_profile p, cp_level := cp_level p\<rparr>)"
proof -
  note at = common_at [of _ p, unfolded common_to_json_def jint_def]
  show ?thesis by (simp add: readers at)
qed

lemma read_extradata_written:
  assumes "length (the (cp_extradata p)) < 2 ^ 31" and "\<And>n. alloc n"
  shows "read_extradata alloc (codecpar_to_json p) q =
    Some (q\<lparr>cp_extradata := (case cp_extradata p of Some (b # bs) \<Rightarrow> Some (b # bs) | _ \<Rightarrow> cp_extradata q)\<rparr>)"
proof (cases "cp_extradata p")
  case None
  then have e: "extradata_to_json p = [(''extradata'', JNull), (''extradata_size'', JInt 0)]"
    by (simp add: extradata_to_json_def)
  note at = extradata_at [of _ p, unfolded e]
  show ?thesis using None by (simp add: read_extradata_def at)
next
  case (Some bs)
  then have e: "extradata_to_json p =
      [(''extradata'', JStr (concat (map hex_byte bs))), (''extradata_size'', JInt (int (length bs)))]"
    by (simp add: extradata_to_json_def)
  note at = extradata_at [of _ p, unfolded e]
  have size: "sint (word_of_nat (length bs) :: cint) = int (length bs)"
    using Some assms(1) by (simp add: signed_of_nat signed_take_bit_int_eq_self)
  have "read_extradata alloc (codecpar_to_json p) q = (if bs = [] then Some q else Some (q\<lparr>cp_extradata := Some bs\<rparr>))"
    using assms(2) parse_extradata_hex [of 0 "length bs" bs] by (simp add: read_extradata_def at Let_def size)
  then show ?thesis using Some by (cases bs) simp_all
qed

lemma read_type:
  shows "cp_type p = AVMEDIA_TYPE_VIDEO \<Longrightarrow> read_fields (codecpar_to_json p) video_readers q =
     Some (q\<lparr>cp_format := cp_format p, cp_width := cp_width p, cp_height := cp_height p,
            cp_field_order := cp_field_order p, cp_color_range := cp_color_range p,
            cp_color_primaries := cp_color_primaries p, cp_color_trc := cp_color_trc p,
            cp_color_space := cp_color_space p, cp_chroma_location := cp_chroma_location p,
            cp_sample_aspect_ratio := cp_sample_aspect_ratio p, cp_video_delay := cp_video_delay p\<rparr>)"
    (is "?v \<Longrightarrow> ?video")
  and "cp_type p = AVMEDIA_TYPE_AUDIO \<Longrightarrow> read_fields (codecpar_to_json p) audio_readers q =
     Some (q\<lparr>cp_format := cp_format p, cp_channel_layout := cp_channel_layout p, cp_channels := cp_channels p,
            cp_sample_rate := cp_sample_rate p, cp_block_align := cp_block_align p, cp_frame_size := cp_frame_size p,
            cp_initial_padding := cp_initial_padding p, cp_trailing_padding := cp_trailing_padding p,
            cp_seek_preroll := cp_seek_preroll p\<rparr>)" (is "?a \<Longrightarrow> ?audio")
  and "cp_type p = AVMEDIA_TYPE_SUBTITLE \<Longrightarrow> read_fields (codecpar_to_json p) subtitle_readers q =
     Some (q\<lparr>cp_width := cp_width p, cp_height := cp_height p\<rparr>)" (is "?s \<Longrightarrow> ?subtitle")
proof -
  note at = type_at [of _ p, unfolded type_to_json_def jint_def]
  show ?video if ?v using that by (simp add: at [simplified that, simplified] readers ratio_read)
  show ?audio if ?a using that by (simp add: at [simplified that media_types, simplified] readers)
  show ?subtitle if ?s using that by (simp add: at [simplified that media_types, simplified] readers)
qed

lemma codecpar_received:
  assumes "length (the (cp_extradata p)) < 2 ^ 31" and "\<And>n. alloc n"
  shows "codecpar_from_json alloc (codecpar_to_json p) q = Some (received_params p q)"
  by (simp add: codecpar_from_json_def read_common read_extradata_written [OF assms] read_type received_params_def Let_def
      media_types split: option.split list.split)

section \<open>Streams\<close>

text \<open>
  The streams of a server, in the order of its unordered map: an identifier, and the parameters of each
  sub-stream by its media type.  \<open>type_name\<close> is \<open>av_get_media_type_string\<close>; a null name is no key.
\<close>

type_synonym stream_params = "string \<times> (int \<times> codec_parameters) list"

fun subs_to_json :: "(int \<Rightarrow> string option) \<Rightarrow> (int \<times> codec_parameters) list \<Rightarrow> (string \<times> json) list \<Rightarrow>
    (string \<times> json) list option" where
  "subs_to_json type_name [] s = Some s"
| "subs_to_json type_name ((type, codecpar) # subs) s =
     Option.bind (type_name type) (\<lambda>name.
       subs_to_json type_name subs (set_key name (JObj (set_key ''codecpar'' (codecpar_to_json codecpar) [])) s))"

text \<open>\<open>push_back\<close> makes a null value an array.\<close>

fun json_push_back :: "json \<Rightarrow> json \<Rightarrow> json option" where
  "json_push_back v JNull = Some (JArr [v])"
| "json_push_back v (JArr vs) = Some (JArr (vs @ [v]))"
| "json_push_back v _ = None"

fun stream_map_to_json :: "(int \<Rightarrow> string option) \<Rightarrow> stream_params list \<Rightarrow> json \<Rightarrow> json option" where
  "stream_map_to_json type_name [] j = Some j"
| "stream_map_to_json type_name ((sid, subs) # m) j =
     Option.bind (subs_to_json type_name subs (set_key ''id'' (JStr sid) [])) (\<lambda>s.
     Option.bind (json_push_back (JObj s) j) (stream_map_to_json type_name m))"

definition stream_map_json :: "(int \<Rightarrow> string option) \<Rightarrow> stream_params list \<Rightarrow> json option" where
  "stream_map_json type_name m =
     map_option (\<lambda>j. JObj (set_key ''streams'' j [])) (stream_map_to_json type_name m JNull)"

definition stream_map_to_string ::
    "(int \<Rightarrow> string option) \<Rightarrow> (json \<Rightarrow> string option) \<Rightarrow> stream_params list \<Rightarrow> string option" where
  "stream_map_to_string type_name dump m = Option.bind (stream_map_json type_name m) dump"

record stream_info =
  info_id :: string
  info_subs :: "int \<rightharpoonup> codec_parameters option"      \<comment> \<open>\<open>None\<close> within is the null pointer\<close>

text \<open>\<open>fresh\<close> is what \<open>avcodec_parameters_alloc\<close> gives the new \<open>StreamSubInfo\<close>.\<close>

definition sub_info_from_json :: "(nat \<Rightarrow> bool) \<Rightarrow> codec_parameters \<Rightarrow> json \<Rightarrow> codec_parameters option option" where
  "sub_info_from_json alloc fresh j =
     (if j = JNull then Some None
      else Option.bind (json_at ''codecpar'' j) (\<lambda>v. map_option Some (codecpar_from_json alloc v fresh)))"

definition AVMEDIA_TYPE_UNKNOWN :: int where "AVMEDIA_TYPE_UNKNOWN = - 1"
definition AVMEDIA_TYPE_NB :: int where "AVMEDIA_TYPE_NB = 5"

fun read_subs :: "(nat \<Rightarrow> bool) \<Rightarrow> (int \<Rightarrow> string option) \<Rightarrow> codec_parameters \<Rightarrow> json \<Rightarrow> int list \<Rightarrow>
    stream_info \<Rightarrow> stream_info option" where
  "read_subs alloc type_name fresh j [] info = Some info"
| "read_subs alloc type_name fresh j (t # ts) info =
     (case type_name t of
        None \<Rightarrow> read_subs alloc type_name fresh j ts info
      | Some name \<Rightarrow>
          (case json_at name j of
             None \<Rightarrow> read_subs alloc type_name fresh j ts info
           | Some v \<Rightarrow>
               Option.bind (sub_info_from_json alloc fresh v) (\<lambda>sub_info.
                 read_subs alloc type_name fresh j ts (info\<lparr>info_subs := (info_subs info)(t \<mapsto> sub_info)\<rparr>))))"

definition info_from_json :: "(nat \<Rightarrow> bool) \<Rightarrow> (int \<Rightarrow> string option) \<Rightarrow> codec_parameters \<Rightarrow> json \<Rightarrow> stream_info option" where
  "info_from_json alloc type_name fresh j =
     Option.bind (Option.bind (json_at ''id'' j) get_str) (\<lambda>id.
       read_subs alloc type_name fresh j [AVMEDIA_TYPE_UNKNOWN..AVMEDIA_TYPE_NB] \<lparr>info_id = id, info_subs = Map.empty\<rparr>)"

text \<open>The range \<open>for\<close> over a JSON value: the elements of an array, the values of an object, nothing for
  null, and the value itself otherwise.\<close>

fun json_elements :: "json \<Rightarrow> json list" where
  "json_elements JNull = []"
| "json_elements (JArr vs) = vs"
| "json_elements (JObj kvs) = map snd kvs"
| "json_elements j = [j]"

fun infos_from_json :: "(json \<Rightarrow> stream_info option) \<Rightarrow> json list \<Rightarrow> stream_info list \<Rightarrow> stream_info list option" where
  "infos_from_json from_json [] infos = Some infos"
| "infos_from_json from_json (j # js) infos =
     Option.bind (from_json j) (\<lambda>info. infos_from_json from_json js (infos @ [info]))"

definition to_stream_info ::
    "(nat \<Rightarrow> bool) \<Rightarrow> (int \<Rightarrow> string option) \<Rightarrow> codec_parameters \<Rightarrow> (string \<Rightarrow> json option) \<Rightarrow> string \<Rightarrow> stream_info option" where
  "to_stream_info alloc type_name fresh parse s = Option.bind (parse s) (info_from_json alloc type_name fresh)"

definition to_stream_infos ::
    "(nat \<Rightarrow> bool) \<Rightarrow> (int \<Rightarrow> string option) \<Rightarrow> codec_parameters \<Rightarrow> (string \<Rightarrow> json option) \<Rightarrow> string \<Rightarrow> string \<Rightarrow>
     stream_info list option" where
  "to_stream_infos alloc type_name fresh parse s key =
     Option.bind (parse s) (\<lambda>j. Option.bind (json_at key j) (\<lambda>v.
       infos_from_json (info_from_json alloc type_name fresh) (json_elements v) []))"

subsection \<open>What a client reads\<close>

abbreviation sub_json :: "codec_parameters \<Rightarrow> json" where
  "sub_json p \<equiv> JObj (set_key ''codecpar'' (codecpar_to_json p) [])"

lemma subs_to_json_other:
  "subs_to_json type_name subs s = Some s' \<Longrightarrow> (\<And>t p. (t, p) \<in> set subs \<Longrightarrow> type_name t \<noteq> Some k) \<Longrightarrow>
   map_of s' k = map_of s k"
  by (induction type_name subs s rule: subs_to_json.induct) (fastforce split: Option.bind_splits)+

lemma subs_to_json_at:
  assumes "subs_to_json type_name subs s = Some s'" and "inj_on type_name (dom type_name)"
    and "distinct (map fst subs)" and "type_name t = Some k"
  shows "map_of s' k = (case map_of subs t of Some p \<Rightarrow> Some (sub_json p) | None \<Rightarrow> map_of s k)"
  using assms
proof (induction type_name subs s rule: subs_to_json.induct)
  case (2 type_name type p subs s)
  then obtain name where name: "type_name type = Some name"
      "subs_to_json type_name subs (set_key name (sub_json p) s) = Some s'"
    by (auto split: Option.bind_splits)
  have same: "name = k \<longleftrightarrow> type = t"
    using 2 name(1) by (auto dest: inj_onD [of type_name "dom type_name" type t])
  have "map_of subs type = None" using 2 by (simp add: map_of_eq_None_iff)
  then show ?case using 2 name same by (auto split: option.splits)
qed simp

lemma subs_to_json_names:
  "subs_to_json type_name subs s = Some s' \<Longrightarrow> t \<in> fst ` set subs \<Longrightarrow> type_name t \<noteq> None"
  by (induction type_name subs s rule: subs_to_json.induct) (auto split: Option.bind_splits)

lemma sub_info_received:
  assumes "length (the (cp_extradata p)) < 2 ^ 31" and "\<And>n. alloc n"
  shows "sub_info_from_json alloc fresh (sub_json p) = Some (Some (received_params p fresh))"
  by (simp add: sub_info_from_json_def codecpar_received [OF assms])

lemma read_subs_received:
  assumes "\<And>n. alloc n"
    and "\<And>t name. t \<in> set ts \<Longrightarrow> type_name t = Some name \<Longrightarrow> json_at name j = map_option sub_json (sent t)"
    and "\<And>t. type_name t = None \<Longrightarrow> sent t = None"
    and "\<And>t p. sent t = Some p \<Longrightarrow> length (the (cp_extradata p)) < 2 ^ 31"
  shows "read_subs alloc type_name fresh j ts info =
    Some (info\<lparr>info_subs :=
      (\<lambda>t. if t \<in> set ts \<and> sent t \<noteq> None then map_option (\<lambda>p. Some (received_params p fresh)) (sent t) else info_subs info t)\<rparr>)"
  using assms(2)
proof (induction ts arbitrary: info)
  case (Cons t ts)
  then have IH: "read_subs alloc type_name fresh j ts info' = Some (info'\<lparr>info_subs :=
      (\<lambda>t. if t \<in> set ts \<and> sent t \<noteq> None then map_option (\<lambda>p. Some (received_params p fresh)) (sent t) else info_subs info' t)\<rparr>)"
    for info' by simp
  show ?case
  proof (cases "sent t")
    case None
    then show ?thesis using Cons.prems [of t] by (auto simp: IH fun_eq_iff split: option.split)
  next
    case (Some p)
    then obtain name where "type_name t = Some name" using assms(3) [of t] by auto
    then show ?thesis
      using Some Cons.prems [of t name] sub_info_received [OF assms(4) [OF Some] assms(1)]
      by (auto simp: IH fun_eq_iff)
  qed
qed simp

text \<open>The media types a stream can have, and what a type is called.\<close>

definition names_media :: "(int \<Rightarrow> string option) \<Rightarrow> bool" where
  "names_media type_name \<longleftrightarrow> inj_on type_name (dom type_name) \<and> (\<forall>t. type_name t \<noteq> Some ''id'')"

fun sendable :: "stream_params \<Rightarrow> bool" where
  "sendable (sid, subs) \<longleftrightarrow>
     distinct (map fst subs) \<and>
     list_all (\<lambda>(t, p). - 1 \<le> t \<and> t \<le> 5 \<and> length (the (cp_extradata p)) < 2 ^ 31) subs"

fun received_info :: "codec_parameters \<Rightarrow> stream_params \<Rightarrow> stream_info" where
  "received_info fresh (sid, subs) =
     \<lparr>info_id = sid, info_subs = (\<lambda>t. map_option (\<lambda>p. Some (received_params p fresh)) (map_of subs t))\<rparr>"

lemma info_received:
  assumes "subs_to_json type_name subs (set_key ''id'' (JStr sid) []) = Some s" and "names_media type_name"
    and "sendable (sid, subs)" and "\<And>n. alloc n"
  shows "info_from_json alloc type_name fresh (JObj s) = Some (received_info fresh (sid, subs))"
proof -
  have names: "inj_on type_name (dom type_name)" "type_name t \<noteq> Some ''id''" for t
    using assms(2) by (auto simp: names_media_def)
  have subs: "distinct (map fst subs)"
    "map_of subs t = Some p \<Longrightarrow> - 1 \<le> t \<and> t \<le> 5 \<and> length (the (cp_extradata p)) < 2 ^ 31" for t p
    using assms(3) by (auto simp: list_all_iff dest!: map_of_SomeD)
  have id: "map_of s ''id'' = Some (JStr sid)"
    using subs_to_json_other [OF assms(1), of "''id''"] names(2) by simp
  have "read_subs alloc type_name fresh (JObj s) [- 1..5] \<lparr>info_id = sid, info_subs = Map.empty\<rparr> =
      Some (\<lparr>info_id = sid, info_subs = Map.empty\<rparr>\<lparr>info_subs :=
        (\<lambda>t. if t \<in> set [- 1..5] \<and> map_of subs t \<noteq> None then map_option (\<lambda>p. Some (received_params p fresh)) (map_of subs t)
             else info_subs \<lparr>info_id = sid, info_subs = Map.empty\<rparr> t)\<rparr>)"
  proof (rule read_subs_received [OF assms(4)])
    fix t name assume "type_name t = Some name"
    then show "json_at name (JObj s) = map_option sub_json (map_of subs t)"
      using subs_to_json_at [OF assms(1) names(1) subs(1)] names(2) [of t] by (auto split: option.split)
  next
    fix t assume "type_name t = None"
    then show "map_of subs t = None"
      using subs_to_json_names [OF assms(1), of t] by (auto simp: map_of_eq_None_iff)
  qed (use subs(2) in blast)
  moreover have "map_of subs t = None" if "\<not> (- 1 \<le> t \<and> t \<le> 5)" for t
    using that subs(2) [of t] by (cases "map_of subs t") auto
  ultimately show ?thesis
    by (auto simp: info_from_json_def id AVMEDIA_TYPE_UNKNOWN_def AVMEDIA_TYPE_NB_def fun_eq_iff)
qed

lemma infos_from_json_all:
  "map from_json js = map Some infos \<Longrightarrow> infos_from_json from_json js acc = Some (acc @ infos)"
  by (induction from_json js acc arbitrary: infos rule: infos_from_json.induct) (auto simp: map_eq_Cons_conv Cons_eq_map_conv)

lemma stream_map_received:
  assumes "stream_map_to_json type_name m j = Some j'" and "j = JNull \<or> (\<exists>vs. j = JArr vs)"
    and "names_media type_name" and "list_all sendable m" and "\<And>n. alloc n"
  shows "\<exists>js. json_elements j' = json_elements j @ js \<and>
    map (info_from_json alloc type_name fresh) js = map (Some \<circ> received_info fresh) m"
  using assms(1,2,4)
proof (induction m arbitrary: j)
  case (Cons st m)
  obtain sid subs where st: "st = (sid, subs)" by (cases st)
  obtain s where s: "subs_to_json type_name subs (set_key ''id'' (JStr sid) []) = Some s"
      "stream_map_to_json type_name m (JArr (json_elements j @ [JObj s])) = Some j'"
    using Cons.prems by (auto simp: st split: Option.bind_splits)
  obtain js where "json_elements j' = json_elements j @ JObj s # js"
      "map (info_from_json alloc type_name fresh) js = map (Some \<circ> received_info fresh) m"
    using Cons.IH [OF s(2)] Cons.prems by auto
  then show ?case
    using info_received [OF s(1) assms(3) _ assms(5), where fresh = fresh] Cons.prems by (intro exI [of _ "JObj s # js"]) (simp add: st)
qed simp

text \<open>Extra data that is too short for its size is refused, unless only the last digit is missing.\<close>

lemma short_extradata: "0 < n \<Longrightarrow> length s + 2 \<le> 2 * (i + n) \<Longrightarrow> parse_extradata i n s = None"
proof (induction i n s rule: parse_extradata.induct)
  case (2 i n s)
  show ?case
  proof (cases "n = 0")
    case True
    then have "drop (i * 2) s = []" using 2 by simp
    then show ?thesis by (simp add: stoi16_def)
  next
    case False
    then show ?thesis using 2 by (auto split: Option.bind_splits)
  qed
qed simp

section \<open>Well-formed values\<close>

text \<open>What \<open>dump\<close> can write and \<open>parse\<close> read back: integers that have 64 bits, and objects with their keys in
  strict order.\<close>

fun wf_json :: "json \<Rightarrow> bool" where
  "wf_json (JInt n) \<longleftrightarrow> - (2 ^ 63) \<le> n \<and> n < 2 ^ 64"
| "wf_json (JFloat n) \<longleftrightarrow> False"
| "wf_json (JArr vs) \<longleftrightarrow> (\<forall>v \<in> set vs. wf_json v)"
| "wf_json (JObj kvs) \<longleftrightarrow> sorted_wrt (<) (map fst kvs) \<and> (\<forall>kv \<in> set kvs. wf_json (snd kv))"
| "wf_json _ \<longleftrightarrow> True"

lemma wf_set_key [intro]: "wf_json (JObj kvs) \<Longrightarrow> wf_json v \<Longrightarrow> wf_json (JObj (set_key k v kvs))"
  by (auto simp: sorted_set_key dest!: set_key_values)

lemma wf_set_keys: "wf_json (JObj kvs) \<Longrightarrow> \<forall>kv \<in> set new. wf_json (snd kv) \<Longrightarrow> wf_json (JObj (set_keys new kvs))"
proof (induction new arbitrary: kvs)
  case (Cons kv new)
  then have "wf_json (JObj (set_key (fst kv) (snd kv) kvs))" by (intro wf_set_key) auto
  then show ?case using Cons by (cases kv) (simp add: set_keys_def)
qed (simp add: set_keys_def)

lemma wf_jint: "wf_json (jint w)"
  using sint_greater_eq [of w] sint_less [of w] by (simp add: jint_def)

lemma wf_number: "wf_json (JInt (sint (v :: cint64)))" "wf_json (JInt (uint (w :: 64 word)))" "wf_json (JInt (uint (u :: uint32)))"
proof -
  show "wf_json (JInt (sint v))" using sint_greater_eq [of v] sint_less [of v] by simp
  have "- (2 ^ 63) \<le> uint w" "- (2 ^ 63) \<le> uint u"
    by (rule order_trans [of _ 0], simp, simp)+
  moreover have "uint w < 2 ^ 64" "uint u < 2 ^ 32" using uint_lt2p [of w] uint_lt2p [of u] by simp_all
  ultimately show "wf_json (JInt (uint w))" "wf_json (JInt (uint u))" by simp_all
qed

lemma wf_codecpar:
  assumes "length (the (cp_extradata p)) < 2 ^ 31"
  shows "wf_json (codecpar_to_json p)"
proof -
  have "wf_json (ratio_to_json r)" for r
    unfolding ratio_to_json_def by (rule wf_set_keys) (auto simp: wf_jint)
  then have "\<forall>kv \<in> set (type_to_json p). wf_json (snd kv)"
    by (auto simp: type_to_json_def wf_jint wf_number simp del: wf_json.simps)
  moreover have "\<forall>kv \<in> set (extradata_to_json p). wf_json (snd kv)"
    using assms by (auto simp: extradata_to_json_def split: option.split)
  moreover have "\<forall>kv \<in> set (common_to_json p). wf_json (snd kv)"
    by (simp add: common_to_json_def wf_jint wf_number del: wf_json.simps(1))
  ultimately show ?thesis
    unfolding codecpar_to_json_def by (intro wf_set_keys) simp_all
qed

lemma wf_subs:
  "subs_to_json type_name subs s = Some s' \<Longrightarrow> wf_json (JObj s) \<Longrightarrow>
   \<forall>tp \<in> set subs. length (the (cp_extradata (snd tp))) < 2 ^ 31 \<Longrightarrow> wf_json (JObj s')"
proof (induction type_name subs s rule: subs_to_json.induct)
  case (2 type_name t p subs s)
  have "wf_json (sub_json p)" using 2 by (intro wf_set_key wf_codecpar) auto
  then have "wf_json (JObj (set_key name (sub_json p) s))" for name using 2 by (intro wf_set_key) auto
  then show ?case using 2 by (auto split: Option.bind_splits simp del: wf_json.simps)
qed simp

lemma wf_stream_map:
  "stream_map_to_json type_name m j = Some j' \<Longrightarrow> wf_json j \<Longrightarrow> list_all sendable m \<Longrightarrow> wf_json j'"
proof (induction m arbitrary: j)
  case (Cons st m)
  obtain sid subs where st: "st = (sid, subs)" by (cases st)
  obtain s v where s: "subs_to_json type_name subs (set_key ''id'' (JStr sid) []) = Some s"
      "json_push_back (JObj s) j = Some v" "stream_map_to_json type_name m v = Some j'"
    using Cons.prems by (auto simp: st split: Option.bind_splits)
  have "wf_json (JObj s)"
    using Cons.prems by (intro wf_subs [OF s(1)] wf_set_key) (auto simp: st list_all_iff)
  then have "wf_json v" using s(2) Cons.prems by (cases "(JObj s, j)" rule: json_push_back.cases) auto
  then show ?case using Cons.IH [OF s(3)] Cons.prems by simp
qed simp

definition ffmpeg_names :: "int \<Rightarrow> string option" where
  "ffmpeg_names t = map_of [(0, ''video''), (1, ''audio''), (2, ''data''), (3, ''subtitle''), (4, ''attachment'')] t"

definition no_params :: codec_parameters where
  "no_params =
     \<lparr>cp_type = - 1, cp_id = 0, cp_tag = 0, cp_bit_rate = 0, cp_bits_per_coded_sample = 0, cp_bits_per_raw_sample = 0,
      cp_profile = - 99, cp_level = - 99, cp_extradata = None, cp_format = - 1, cp_width = 0, cp_height = 0,
      cp_field_order = 0, cp_color_range = 0, cp_color_primaries = 2, cp_color_trc = 2, cp_color_space = 2,
      cp_chroma_location = 0, cp_sample_aspect_ratio = (0, 1), cp_video_delay = 0, cp_channel_layout = 0,
      cp_channels = 0, cp_sample_rate = 0, cp_block_align = 0, cp_frame_size = 0, cp_initial_padding = 0,
      cp_trailing_padding = 0, cp_seek_preroll = 0\<rparr>"

definition one_camera :: "stream_params list" where
  "one_camera = [(''a'', [(0, no_params\<lparr>cp_type := 0, cp_width := 640, cp_extradata := Some [1, 255]\<rparr>)])]"

lemma to_stream_infos_written:
  assumes "stream_map_to_string type_name dump m = Some s" and "\<And>j. wf_json j \<Longrightarrow> dump j = Some s \<Longrightarrow> parse s = Some j"
    and "names_media type_name" and "list_all sendable m" and "\<And>n. alloc n"
  shows "to_stream_infos alloc type_name fresh parse s ''streams'' = Some (map (received_info fresh) m)"
proof -
  obtain j where j: "stream_map_to_json type_name m JNull = Some j" "dump (JObj (set_key ''streams'' j [])) = Some s"
    using assms(1) by (auto simp: stream_map_to_string_def stream_map_json_def split: Option.bind_splits)
  have "wf_json j" using wf_stream_map [OF j(1) _ assms(4)] by simp
  then have parsed: "parse s = Some (JObj (set_key ''streams'' j []))" by (intro assms(2) j(2) wf_set_key) simp_all
  obtain js where "json_elements j = js"
      "map (info_from_json alloc type_name fresh) js = map Some (map (received_info fresh) m)"
    using stream_map_received [OF j(1) _ assms(3,4,5), where fresh = fresh] by auto
  then show ?thesis
    using infos_from_json_all [of "info_from_json alloc type_name fresh" js "map (received_info fresh) m" "[]"]
    by (simp add: to_stream_infos_def parsed)
qed

text \<open>C11.  The list of streams that the server writes reaches a client: every stream by its identifier, and each of
  its sub-streams by media type with its codec parameters, the extra data byte for byte.  Only the fields
  of other media types and an empty extra data are not sent; there the client keeps its own.\<close>

theorem streams_reach_the_client:
  assumes "stream_map_to_string type_name dump m = Some s" and "\<And>j. wf_json j \<Longrightarrow> dump j = Some s \<Longrightarrow> parse s = Some j"
    and "names_media type_name" and "list_all sendable m" and "\<And>n. alloc n"
  shows "to_stream_infos alloc type_name fresh parse s ''streams'' = Some (map (received_info fresh) m)"
  using assms by (rule to_stream_infos_written)

theorem streams_reach_the_client_witness:
  "to_stream_infos (\<lambda>_. True) ffmpeg_names no_params (\<lambda>_. stream_map_json ffmpeg_names one_camera) ''text'' ''streams'' =
     Some (map (received_info no_params) one_camera)"
proof (rule streams_reach_the_client [where dump = "\<lambda>j. if Some j = stream_map_json ffmpeg_names one_camera then Some ''text'' else None"])
  show "stream_map_to_string ffmpeg_names (\<lambda>j. if Some j = stream_map_json ffmpeg_names one_camera then Some ''text'' else None)
      one_camera = Some ''text''"
    by (simp add: stream_map_to_string_def stream_map_json_def one_camera_def ffmpeg_names_def)
  show "names_media ffmpeg_names"
    by (auto simp: names_media_def inj_on_def ffmpeg_names_def split: if_splits)
qed (simp_all add: one_camera_def split: if_splits)

end
