(* ===== verification/LocalPlayer.thy ===== *)
theory LocalPlayer imports Config StreamJson begin

text \<open>
  \<open>ws-local-player/main.cc\<close> and \<open>http_client.cc\<close>: the native program up to the opening of its WebSocket.
  It reads its configuration, asks the server for the list of streams and picks one.  The results of the
  network operations are the parameter \<open>http_io\<close>.
\<close>

section \<open>The HTTP client\<close>

record http_client_options =
  hc_host :: string
  hc_port :: int
  hc_target :: string
  hc_timeout :: int
  hc_version :: nat

definition default_http_client :: http_client_options where
  "default_http_client = \<lparr>hc_host = ''127.0.0.1'', hc_port = 8080, hc_target = ''/'', hc_timeout = 10, hc_version = 11\<rparr>"

type_synonym answer = "nat \<times> string"    \<comment> \<open>status and body\<close>

record http_io =
  io_resolve :: error_code
  io_connect :: error_code
  io_write :: error_code
  io_read :: "error_code \<times> answer"
  io_shutdown :: error_code
  not_connected :: error_code

definition client_request :: "http_client_options \<Rightarrow> http_request" where
  "client_request opts = \<lparr>req_method = Get, target = hc_target opts,
     req_fields = [''Host'' \<mapsto> hc_host opts, ''User-Agent'' \<mapsto> server_version], version = hc_version opts,
     req_keep_alive = 11 \<le> hc_version opts, is_upgrade = False\<rparr>"

text \<open>The answers passed on, and the failures reported.\<close>

definition http_DoSession :: "http_io \<Rightarrow> answer list \<times> (error_code \<times> string) list" where
  "http_DoSession io =
     (if io_resolve io \<noteq> Success then ([], [(io_resolve io, ''resolve'')])
      else if io_connect io \<noteq> Success then ([], [(io_connect io, ''connect'')])
      else if io_write io \<noteq> Success then ([], [(io_write io, ''write'')])
      else if fst (io_read io) \<noteq> Success then ([], [(fst (io_read io), ''read'')])
      else ([snd (io_read io)],
            if io_shutdown io \<noteq> Success \<and> io_shutdown io \<noteq> not_connected io then [(io_shutdown io, ''shutdown'')] else []))"

section \<open>Configuration\<close>

record local_config =
  lc_http :: http_client_options
  lc_ws_host :: string
  lc_ws_port :: int
  lc_prefix :: string
  lc_target_id :: string
  lc_dec_name :: string
  lc_thread_count :: int
  lc_thread_type :: int
  lc_ui_wait_secs :: int

definition default_local :: local_config where
  "default_local = \<lparr>lc_http = default_http_client, lc_ws_host = ''127.0.0.1'', lc_ws_port = 8080,
     lc_prefix = ''/stream/'', lc_target_id = [], lc_dec_name = [], lc_thread_count = 0, lc_thread_type = 0,
     lc_ui_wait_secs = 10\<rparr>"

definition load_local_server :: "'n yaml \<Rightarrow> 'n \<Rightarrow> local_config \<Rightarrow> local_config option" where
  "load_local_server y n =
     if_children y n
       [(''host'', get_as (as_string y) (\<lambda>x c. c\<lparr>lc_http := (lc_http c)\<lparr>hc_host := x\<rparr>, lc_ws_host := x\<rparr>)),
        (''port'', get_as (as_int y) (\<lambda>x c. c\<lparr>lc_http := (lc_http c)\<lparr>hc_port := x\<rparr>, lc_ws_port := x\<rparr>)),
        (''http'', \<lambda>v. if_children y v
           [(''target'', get_as (as_string y) (\<lambda>x c. c\<lparr>lc_http := (lc_http c)\<lparr>hc_target := x\<rparr>\<rparr>)),
            (''timeout'', get_as (as_int y) (\<lambda>x c. c\<lparr>lc_http := (lc_http c)\<lparr>hc_timeout := x\<rparr>\<rparr>))]),
        (''ws'', \<lambda>v. if_children y v
           [(''target_prefix'', get_as (as_string y) (\<lambda>x c. c\<lparr>lc_prefix := x\<rparr>)),
            (''target_id'', get_as (as_string y) (\<lambda>x c. c\<lparr>lc_target_id := x\<rparr>))])]"

definition load_local_client :: "'n yaml \<Rightarrow> 'n \<Rightarrow> local_config \<Rightarrow> local_config option" where
  "load_local_client y n =
     if_children y n
       [(''dec_name'', get_as (as_string y) (\<lambda>x c. c\<lparr>lc_dec_name := x\<rparr>)),
        (''dec_thread_count'', get_as (as_int y) (\<lambda>x c. c\<lparr>lc_thread_count := x\<rparr>)),
        (''dec_thread_type'', get_as (as_int y) (\<lambda>x c. c\<lparr>lc_thread_type := x\<rparr>)),
        (''ui_wait_secs'', get_as (as_int y) (\<lambda>x c. c\<lparr>lc_ui_wait_secs := x\<rparr>))]"

text \<open>The second argument of the program, if any, is the identifier of the stream.\<close>

definition load_local :: "'n yaml \<Rightarrow> 'n option \<Rightarrow> string option \<Rightarrow> local_config option" where
  "load_local y file arg =
     Option.bind file (\<lambda>n.
     Option.bind (child y n ''log'') (\<lambda>log.
     Option.bind (InitLoggingFlags y log) (\<lambda>_.
     Option.bind (if_children y n [(''server'', load_local_server y), (''client'', load_local_client y)] default_local) (\<lambda>c.
       Some (case arg of None \<Rightarrow> c | Some i \<Rightarrow> c\<lparr>lc_target_id := i\<rparr>)))))"

section \<open>Choosing the stream\<close>

datatype local_result =
    LoadFail
  | OpenStream string stream_info          \<comment> \<open>the WebSocket is opened on this target\<close>
  | StreamNotFound string
  | GetFail
  | GetTimeout int

text \<open>The index of the last stream with the identifier.\<close>

fun stream_index_of :: "string \<Rightarrow> nat \<Rightarrow> stream_info list \<Rightarrow> int \<Rightarrow> int" where
  "stream_index_of t i [] k = k"
| "stream_index_of t i (info # infos) k = stream_index_of t (Suc i) infos (if info_id info = t then int i else k)"

text \<open>The callback: only an answer with status 200 is looked at, and an exception of the parser is caught.\<close>

definition on_streams :: "(string \<Rightarrow> stream_info list option) \<Rightarrow> answer \<Rightarrow> stream_info list option" where
  "on_streams read res = (if fst res = 200 then read (snd res) else None)"

definition local_main :: "(string \<Rightarrow> stream_info list option) \<Rightarrow> http_io \<Rightarrow> local_config option \<Rightarrow> local_result" where
  "local_main read io cfg =
     (case cfg of
        None \<Rightarrow> LoadFail
      | Some c \<Rightarrow>
          let (answers, failures) = http_DoSession io in
          case (case answers of [] \<Rightarrow> None | res # _ \<Rightarrow> on_streams read res) of
            Some infos \<Rightarrow>
              let k = stream_index_of (lc_target_id c) 0 infos (- 1) in
              if k = - 1 then StreamNotFound (lc_target_id c)
              else OpenStream (lc_prefix c @ info_id (infos ! nat k)) (infos ! nat k)
          | None \<Rightarrow> if failures \<noteq> [] then GetFail else GetTimeout (hc_timeout (lc_http c)))"

section \<open>Properties\<close>

lemma stream_index_of_absent: "t \<notin> info_id ` set infos \<Longrightarrow> stream_index_of t i infos k = k"
  by (induction t i infos k rule: stream_index_of.induct) auto

lemma stream_index_of_found:
  "distinct (map info_id infos) \<Longrightarrow> info \<in> set infos \<Longrightarrow>
   \<exists>j < length infos. infos ! j = info \<and> stream_index_of (info_id info) i infos k = int (i + j)"
proof (induction infos arbitrary: i k)
  case (Cons x infos)
  show ?case
  proof (cases "info = x")
    case True
    then show ?thesis using Cons.prems by (intro exI [of _ 0]) (simp add: stream_index_of_absent)
  next
    case False
    then have "info \<in> set infos" "info_id x \<noteq> info_id info" using Cons.prems by auto
    then obtain j where "j < length infos" "infos ! j = info" "stream_index_of (info_id info) (Suc i) infos k = int (Suc i + j)"
      using Cons by fastforce
    then show ?thesis using \<open>info_id x \<noteq> info_id info\<close> by (intro exI [of _ "Suc j"]) simp
  qed
qed simp

text \<open>An answer that is no list of streams is waited for until the timeout, and reported as one.\<close>

lemma bad_answer_is_reported_as_timeout:
  assumes "http_DoSession io = ([res], [])" and "on_streams read res = None"
  shows "local_main read io (Some c) = GetTimeout (hc_timeout (lc_http c))"
  using assms by (simp add: local_main_def)

text \<open>C29.  A stream in the server's list can be watched: given its identifier and the server's prefix, the native
  program opens a WebSocket whose target the server accepts for this stream, with the parameters it listed.\<close>

theorem listed_stream_is_accepted:
  assumes "stream_map_to_string type_name dump m = Some body" and "\<And>j. wf_json j \<Longrightarrow> dump j = Some body \<Longrightarrow> parse body = Some j"
    and "names_media type_name" and "list_all sendable m" and "\<And>n. alloc n"
    and "distinct (map fst m)" and "(i, subs) \<in> set m" and "stream_map sv i \<noteq> None"
    and "io_resolve io = Success" and "io_connect io = Success" and "io_write io = Success"
    and "io_read io = (Success, 200, body)"
    and "lc_target_id c = i" and "lc_prefix c = ws_target_prefix (server_opts sv)"
  shows "\<exists>t sv' s. local_main (\<lambda>b. to_stream_infos alloc type_name fresh parse b ''streams'') io (Some c) =
      OpenStream t (received_info fresh (i, subs)) \<and>
    DoSessionWebSocket (Some (req\<lparr>target := t\<rparr>)) sv = Return sv' \<and>
    sessions sv' (next_session sv) = Some s \<and> session_id s = i"
proof -
  define infos where "infos = map (received_info fresh) m"
  have read: "to_stream_infos alloc type_name fresh parse body ''streams'' = Some infos"
    unfolding infos_def using assms(1-5) by (rule to_stream_infos_written)
  have "map info_id infos = map fst m" by (auto simp: infos_def)
  then have "distinct (map info_id infos)" using assms(6) by simp
  moreover have "received_info fresh (i, subs) \<in> set infos" using assms(7) by (auto simp: infos_def simp del: received_info.simps)
  ultimately obtain j where "j < length infos" "infos ! j = received_info fresh (i, subs)"
      "stream_index_of (info_id (received_info fresh (i, subs))) 0 infos (- 1) = int (0 + j)"
    using stream_index_of_found by blast
  then have "local_main (\<lambda>b. to_stream_infos alloc type_name fresh parse b ''streams'') io (Some c) =
      OpenStream (ws_target_prefix (server_opts sv) @ i) (received_info fresh (i, subs))"
    using assms(9-14) read by (simp add: local_main_def http_DoSession_def on_streams_def)
  then show ?thesis using assms(8) by (auto simp: DoSessionWebSocket_def starts_with_def Let_def)
qed

definition sample_io :: http_io where
  "sample_io = \<lparr>io_resolve = Success, io_connect = Success, io_write = Success,
     io_read = (Success, 200, ''text''), io_shutdown = Success, not_connected = OtherError 1\<rparr>"

definition watched_server :: server where
  "watched_server = (WsStreamServer sample_server_options)\<lparr>stream_map := [''a'' \<mapsto> 7]\<rparr>"

theorem listed_stream_is_accepted_witness:
  "\<exists>t sv' s. local_main (\<lambda>b. to_stream_infos (\<lambda>_. True) ffmpeg_names no_params (\<lambda>_. stream_map_json ffmpeg_names one_camera)
        b ''streams'') sample_io (Some (default_local\<lparr>lc_target_id := ''a''\<rparr>)) =
      OpenStream t (received_info no_params (''a'', snd (hd one_camera))) \<and>
    DoSessionWebSocket (Some ((sample_request Get)\<lparr>target := t\<rparr>)) watched_server = Return sv' \<and>
    sessions sv' (next_session watched_server) = Some s \<and> session_id s = ''a''"
proof (rule listed_stream_is_accepted [where dump = "\<lambda>j. if Some j = stream_map_json ffmpeg_names one_camera then Some ''text'' else None"])
  show "stream_map_to_string ffmpeg_names (\<lambda>j. if Some j = stream_map_json ffmpeg_names one_camera then Some ''text'' else None)
      one_camera = Some ''text''"
    by (simp add: stream_map_to_string_def stream_map_json_def one_camera_def ffmpeg_names_def)
  show "names_media ffmpeg_names"
    by (auto simp: names_media_def inj_on_def ffmpeg_names_def split: if_splits)
qed (simp_all add: one_camera_def sample_io_def default_local_def watched_server_def WsStreamServer_def sample_server_options_def
    split: if_splits)

end
