(* ===== verification/NativeGl.thy ===== *)
theory NativeGl imports WebGL begin

text \<open>
  \<open>common/gl/shader.h\<close>, \<open>common/gl/texture.h\<close>, \<open>ws-wasm-player/src/player.h\<close> (the page's SDL player) and
  \<open>common/gl/glfw_frame.h\<close> (the window of the native programs): the GL objects the two players create, the
  frames they draw and the objects they delete.  The calls are those of theory \<open>WebGL\<close>; what differs is
  that \<open>glTexImage2D\<close> reads its pixels through a pointer, row by row, at the alignment that is set.
\<close>

section \<open>State\<close>

text \<open>The members of the player and the context.  A \<open>unique_ptr\<close> is an option; a shader and a texture are
  their \<open>ID\<close>.  \<open>frame_ptr\<close> is \<open>GlfwFrame\<close>'s \<open>frame_\<close>.\<close>

record native_gl =
  window_open :: bool
  renderer_open :: bool
  shader :: "nat option"
  vao :: nat
  vbo :: nat
  texture_y :: "nat option"
  texture_u :: "nat option"
  texture_v :: "nat option"
  frame_ptr :: "frame option"
  fresh_name :: nat
  gl_calls :: "gl_call list"

text \<open>What the libraries answer: whether the window opens, whether GLEW initialises, what the compiler
  and the linker say of an object (\<open>None\<close> is success), and what \<open>glGenVertexArrays\<close> writes.\<close>

record native_env =
  window_opens :: bool
  glew_ok :: bool
  compile_log :: "nat \<Rightarrow> string option"
  link_log :: "nat \<Rightarrow> string option"

definition emit :: "gl_call list \<Rightarrow> native_gl \<Rightarrow> native_gl" where
  "emit cs p = p\<lparr>gl_calls := gl_calls p @ cs\<rparr>"

definition gen_name :: "(nat \<Rightarrow> gl_call) \<Rightarrow> native_gl \<Rightarrow> nat \<times> native_gl" where
  "gen_name mk p = (fresh_name p, emit [mk (fresh_name p)] (p\<lparr>fresh_name := Suc (fresh_name p)\<rparr>))"

section \<open>Shader\<close>

definition error_log :: "string \<Rightarrow> string \<Rightarrow> string \<Rightarrow> gl_call" where
  "error_log what type info = Log (what @ '' of type: '' @ type @ CHR 0x0A # take 1023 info @ CHR 0x0A #
     '' -- --------------------------------------------------- -- '')"

definition CheckCompileErrors :: "native_env \<Rightarrow> nat \<Rightarrow> string \<Rightarrow> native_gl \<Rightarrow> native_gl" where
  "CheckCompileErrors env object type p =
     (if type \<noteq> ''PROGRAM'' then
        (case compile_log env object of None \<Rightarrow> p
         | Some info \<Rightarrow> emit [error_log ''ERROR::SHADER_COMPILATION_ERROR'' type info] p)
      else
        (case link_log env object of None \<Rightarrow> p
         | Some info \<Rightarrow> emit [error_log ''ERROR::PROGRAM_LINKING_ERROR'' type info] p))"

definition compile_shader :: "native_env \<Rightarrow> string \<Rightarrow> string \<Rightarrow> string \<Rightarrow> native_gl \<Rightarrow> nat \<times> native_gl" where
  "compile_shader env kind code type p =
     (let (object, p) = gen_name (\<lambda>n. CreateShader n kind) p;
          p = emit [ShaderSource object code, CompileShader object] p
      in (object, CheckCompileErrors env object type p))"

text \<open>\<open>Shader::Create\<close>; the program's name is the \<open>ID\<close>.\<close>

definition Shader_Create :: "native_env \<Rightarrow> string \<Rightarrow> string \<Rightarrow> string option \<Rightarrow> native_gl \<Rightarrow> nat \<times> native_gl" where
  "Shader_Create env vertex_code fragment_code geometry_code p =
     (let (vertex_shader, p) = compile_shader env ''GL_VERTEX_SHADER'' vertex_code ''VERTEX'' p;
          (fragment_shader, p) = compile_shader env ''GL_FRAGMENT_SHADER'' fragment_code ''FRAGMENT'' p;
          (geometry_shader, p) = (case geometry_code of None \<Rightarrow> (0, p)
            | Some code \<Rightarrow> compile_shader env ''GL_GEOMETRY_SHADER'' code ''GEOMETRY'' p);
          (shader_program, p) = gen_name CreateProgram p;
          p = emit [AttachShader shader_program vertex_shader, AttachShader shader_program fragment_shader] p;
          p = (if geometry_code \<noteq> None then emit [AttachShader shader_program geometry_shader] p else p);
          p = CheckCompileErrors env shader_program ''PROGRAM'' (emit [LinkProgram shader_program] p);
          p = emit [DeleteShader vertex_shader, DeleteShader fragment_shader] p;
          p = (if geometry_code \<noteq> None then emit [DeleteShader geometry_shader] p else p)
      in (shader_program, p))"

section \<open>Texture\<close>

definition Texture_Create :: "native_gl \<Rightarrow> nat \<times> native_gl" where
  "Texture_Create p =
     (let (texture_id, p) = gen_name CreateTexture p
      in (texture_id, emit
        [BindTexture texture_id,
         TexParameteri ''TEXTURE_MAG_FILTER'' ''LINEAR'', TexParameteri ''TEXTURE_MIN_FILTER'' ''LINEAR'',
         TexParameteri ''TEXTURE_WRAP_S'' ''CLAMP_TO_EDGE'', TexParameteri ''TEXTURE_WRAP_T'' ''CLAMP_TO_EDGE''] p))"

definition Texture_Bind :: "nat \<Rightarrow> nat \<Rightarrow> nat \<Rightarrow> string \<Rightarrow> native_gl \<Rightarrow> native_gl" where
  "Texture_Bind t n program name = emit [ActiveTexture n, BindTexture t, Uniform1i program name n]"

text \<open>What OpenGL documents of reading an image of one byte per pixel: rows start at multiples of
  \<open>GL_UNPACK_ALIGNMENT\<close>, which is 4 unless \<open>glPixelStorei\<close> sets it, and neither player does.\<close>

definition row_stride :: "int \<Rightarrow> int \<Rightarrow> int" where
  "row_stride align w = (w + align - 1) div align * align"

definition unpack_end :: "int \<Rightarrow> int \<Rightarrow> int \<Rightarrow> int" where
  "unpack_end align w h = (if 0 < w \<and> 0 < h then (h - 1) * row_stride align w + w else 0)"

definition unpack :: "int \<Rightarrow> int \<Rightarrow> int \<Rightarrow> byte list \<Rightarrow> int \<Rightarrow> byte list outcome" where
  "unpack align w h data pos =
     (if 0 \<le> pos \<and> pos + unpack_end align w h \<le> int (length data)
      then Return (concat (map (\<lambda>r. take (nat w) (drop (nat (pos + int r * row_stride align w)) data)) [0..<nat h]))
      else OutOfBounds)"

definition UNPACK_ALIGNMENT :: int where
  "UNPACK_ALIGNMENT = 4"

text \<open>\<open>texture->Fill(width, height, data + pos, format)\<close>: the pointer to the texture may be null.\<close>

definition Fill :: "nat option \<Rightarrow> int \<Rightarrow> int \<Rightarrow> byte list \<Rightarrow> int \<Rightarrow> string \<Rightarrow> native_gl \<Rightarrow> native_gl outcome" where
  "Fill texture width height data pos format p =
     (case texture of None \<Rightarrow> OutOfBounds
      | Some t \<Rightarrow> bind_outcome (unpack UNPACK_ALIGNMENT width height data pos)
          (\<lambda>pixels. Return (emit [BindTexture t, TexImage2D format width height pixels] p)))"

section \<open>Objects both players create\<close>

definition setup_quad :: "native_gl \<Rightarrow> native_gl" where
  "setup_quad p =
     (let (array, p) = gen_name GenVertexArray p;
          p = emit [BindVertexArray array] (p\<lparr>vao := array\<rparr>);
          (buffer, p) = gen_name CreateBuffer p
      in emit
        [BindBuffer ''ARRAY_BUFFER'' buffer, BufferData ''ARRAY_BUFFER'' vertices ''STATIC_DRAW'',
         LocationPointer 0 3 20 0, EnableLocation 0,
         LocationPointer 1 2 20 12, EnableLocation 1] (p\<lparr>vbo := buffer\<rparr>))"

definition make_textures :: "native_gl \<Rightarrow> native_gl" where
  "make_textures p =
     (let (y, p) = Texture_Create p; (u, p) = Texture_Create p; (v, p) = Texture_Create p
      in p\<lparr>texture_y := Some y, texture_u := Some u, texture_v := Some v\<rparr>)"

text \<open>The shader, the quad, the textures and their units, for the sources \<open>vs\<close> and \<open>fs\<close>.\<close>

definition set_up :: "native_env \<Rightarrow> string \<Rightarrow> string \<Rightarrow> native_gl \<Rightarrow> native_gl" where
  "set_up env vs fs p =
     (let (program, p) = Shader_Create env vs fs None p;
          p = make_textures (setup_quad (p\<lparr>shader := Some program\<rparr>));
          p = emit [UseProgram program] p;
          p = Texture_Bind (the (texture_y p)) 0 program ''yTex'' p;
          p = Texture_Bind (the (texture_u p)) 1 program ''uTex'' p
      in Texture_Bind (the (texture_v p)) 2 program ''vTex'' p)"

section \<open>The page's SDL player\<close>

definition player_vertex_source :: string where
  "player_vertex_source = join_lines
    ['''',
     ''      attribute highp vec3 aPos;'',
     ''      attribute vec2 aTexCoord;'',
     '''',
     ''      varying highp vec2 vTexCoord;'',
     '''',
     ''      void main() {'',
     ''        gl_Position = vec4(aPos, 1.0);'',
     ''        vTexCoord = aTexCoord;'',
     ''      }'']"

definition player_fragment_source :: string where
  "player_fragment_source = join_lines
    ['''',
     ''      precision highp float;'',
     ''      varying lowp vec2 vTexCoord;'',
     '''',
     ''      uniform sampler2D yTex;'',
     ''      uniform sampler2D uTex;'',
     ''      uniform sampler2D vTex;'',
     '''',
     ''      // yuv420p to rgb888 matrix'',
     ''      const mat4 YUV2RGB = mat4('',
     ''        1.1643828125,             0, 1.59602734375, -.87078515625,'',
     ''        1.1643828125, -.39176171875,    -.81296875,     .52959375,'',
     ''        1.1643828125,   2.017234375,             0,  -1.081390625,'',
     ''                   0,             0,             0,             1'',
     ''      );'',
     '''',
     ''      void main() {'',
     ''        gl_FragColor = vec4('',
     ''          texture2D(yTex, vTexCoord).x,'',
     ''          texture2D(uTex, vTexCoord).x,'',
     ''          texture2D(vTex, vTexCoord).x,'',
     ''          1'',
     ''        ) * YUV2RGB;'',
     ''      }'']"

definition OpenGLPlayer :: "nat \<Rightarrow> gl_call list \<Rightarrow> native_gl" where
  "OpenGLPlayer n cs = \<lparr>window_open = False, renderer_open = False, shader = None, vao = 0, vbo = 0,
     texture_y = None, texture_u = None, texture_v = None, frame_ptr = None, fresh_name = n, gl_calls = cs\<rparr>"

definition Init :: "native_env \<Rightarrow> frame \<Rightarrow> native_gl \<Rightarrow> native_gl" where
  "Init env f p =
     (if window_open p then p
      else
        (let p = emit [CreateWindowAndRenderer (frame_width f) (frame_height f)] p;
             p = p\<lparr>window_open := window_opens env, renderer_open := window_opens env\<rparr>;
             p = emit [SetAttribute ''SDL_GL_CONTEXT_MAJOR_VERSION'' 2, SetAttribute ''SDL_GL_CONTEXT_MINOR_VERSION'' 0,
                       SetAttribute ''SDL_GL_DOUBLEBUFFER'' 1, SetAttribute ''SDL_GL_DEPTH_SIZE'' 24] p
         in set_up env player_vertex_source player_fragment_source p))"

text \<open>The three uploads of a frame, which both players do in the same way.\<close>

definition fill_frame :: "string \<Rightarrow> int \<Rightarrow> int \<Rightarrow> byte list \<Rightarrow> native_gl \<Rightarrow> native_gl outcome" where
  "fill_frame format width height data p =
     (let len_y = width * height;
          len_u = cxx_shr width 1 * cxx_shr height 1 in
      bind_outcome (Fill (texture_y p) width height data 0 format p)
        (\<lambda>p. bind_outcome (Fill (texture_u p) (cxx_shr width 1) (cxx_shr height 1) data len_y format p)
        (\<lambda>p. Fill (texture_v p) (cxx_shr width 1) (cxx_shr height 1) data (len_y + len_u) format p)))"

definition Draw :: "frame \<Rightarrow> native_gl \<Rightarrow> native_gl outcome" where
  "Draw f p =
     bind_outcome (fill_frame ''LUMINANCE'' (frame_width f) (frame_height f) (frame_bytes f)
         (emit [ClearColor 0 0 0 1, Clear ''COLOR_BUFFER_BIT''] p))
       (\<lambda>p. Return (emit [BindVertexArray (vao p), DrawArrays ''TRIANGLE_STRIP'' 0 4, SwapWindow] p))"

definition Render :: "native_env \<Rightarrow> frame \<Rightarrow> native_gl \<Rightarrow> native_gl outcome" where
  "Render env f p = Draw f (Init env f p)"

text \<open>\<open>texture->Delete()\<close>, \<open>shader->Delete()\<close> through their pointers.\<close>

definition delete_at :: "(nat \<Rightarrow> gl_call) \<Rightarrow> nat option \<Rightarrow> native_gl \<Rightarrow> native_gl outcome" where
  "delete_at mk object p = (case object of None \<Rightarrow> OutOfBounds | Some n \<Rightarrow> Return (emit [mk n] p))"

definition Destroy :: "native_gl \<Rightarrow> native_gl outcome" where
  "Destroy p =
     (if \<not> window_open p then Return p
      else bind_outcome (delete_at DeleteProgram (shader p) p)
        (\<lambda>p. bind_outcome (delete_at DeleteTexture (texture_y p) (emit [DeleteVertexArray (vao p), DeleteBuffer (vbo p)] p))
        (\<lambda>p. bind_outcome (delete_at DeleteTexture (texture_u p) p)
        (\<lambda>p. bind_outcome (delete_at DeleteTexture (texture_v p) p)
        (\<lambda>p. let p = (if renderer_open p then emit [DestroyRenderer] (p\<lparr>renderer_open := False\<rparr>) else p)
             in Return (if window_open p then emit [DestroyWindow] (p\<lparr>window_open := False\<rparr>) else p))))))"

section \<open>The window of the native programs\<close>

definition frame_vertex_source :: string where
  "frame_vertex_source = join_lines
    ['''',
     ''      #version 330 core'',
     ''      layout (location = 0) in vec3 aPos;'',
     ''      layout (location = 1) in vec2 aTexCoord;'',
     '''',
     ''      out vec2 vTexCoord;'',
     '''',
     ''      void main() {'',
     ''        gl_Position = vec4(aPos, 1.0);'',
     ''        vTexCoord = aTexCoord;'',
     ''      }'']"

definition frame_fragment_source :: string where
  "frame_fragment_source = join_lines
    ['''',
     ''      #version 330 core'',
     ''      in vec2 vTexCoord;'',
     '''',
     ''      uniform sampler2D yTex;'',
     ''      uniform sampler2D uTex;'',
     ''      uniform sampler2D vTex;'',
     '''',
     ''      // yuv420p to rgb888 matrix'',
     ''      const mat4 YUV2RGB = mat4('',
     ''        1.1643828125,             0, 1.59602734375, -.87078515625,'',
     ''        1.1643828125, -.39176171875,    -.81296875,     .52959375,'',
     ''        1.1643828125,   2.017234375,             0,  -1.081390625,'',
     ''                   0,             0,             0,             1'',
     ''      );'',
     '''',
     ''      void main() {'',
     ''        // gl_FragColor = vec4(vTexCoord.x, vTexCoord.y, 0., 1.0f);'',
     ''        gl_FragColor = vec4('',
     ''          texture(yTex, vTexCoord).x,'',
     ''          texture(uTex, vTexCoord).x,'',
     ''          texture(vTex, vTexCoord).x,'',
     ''          1'',
     ''        ) * YUV2RGB;'',
     ''      }'']"

definition Update :: "frame option \<Rightarrow> native_gl \<Rightarrow> native_gl" where
  "Update f p = p\<lparr>frame_ptr := f\<rparr>"

text \<open>If GLEW does not initialise, the function returns: shader and textures stay null.\<close>

definition OnInit :: "native_env \<Rightarrow> native_gl \<Rightarrow> native_gl" where
  "OnInit env p =
     (if \<not> glew_ok env then emit [Log ''Failed to initialize GLEW''] p
      else set_up env frame_vertex_source frame_fragment_source p)"

text \<open>\<open>OnDraw\<close> reads \<open>frame_\<close> four times, without a lock, while another thread may call \<open>Update\<close>: \<open>seen n\<close>
  is what the read number \<open>n\<close> finds.\<close>

definition OnDraw_seen :: "(nat \<Rightarrow> frame option) \<Rightarrow> native_gl \<Rightarrow> native_gl outcome" where
  "OnDraw_seen seen p =
     bind_outcome
       (case seen 0 of None \<Rightarrow> Return p
        | Some _ \<Rightarrow>
         (case seen 1 of None \<Rightarrow> OutOfBounds | Some f1 \<Rightarrow> let width = frame_width f1 in
         (case seen 2 of None \<Rightarrow> OutOfBounds | Some f2 \<Rightarrow> let height = frame_height f2 in
         (case seen 3 of None \<Rightarrow> OutOfBounds | Some f3 \<Rightarrow> let data = frame_bytes f3 in
          fill_frame ''RED'' width height data p))))
       (\<lambda>p. Return (emit [BindVertexArray (vao p), DrawArrays ''TRIANGLE_STRIP'' 0 4] p))"

definition OnDraw :: "native_gl \<Rightarrow> native_gl outcome" where
  "OnDraw p = OnDraw_seen (\<lambda>_. frame_ptr p) p"

definition OnDestroy :: "native_gl \<Rightarrow> native_gl outcome" where
  "OnDestroy p = bind_outcome (delete_at DeleteProgram (shader p) p)
     (\<lambda>p. Return (emit [DeleteVertexArray (vao p), DeleteBuffer (vbo p)] p))"


section \<open>Reading the pixels\<close>

lemma emit_simps [simp]:
  "gl_calls (emit cs p) = gl_calls p @ cs" "fresh_name (emit cs p) = fresh_name p" "shader (emit cs p) = shader p"
  "vao (emit cs p) = vao p" "vbo (emit cs p) = vbo p" "window_open (emit cs p) = window_open p"
  "renderer_open (emit cs p) = renderer_open p" "frame_ptr (emit cs p) = frame_ptr p"
  "texture_y (emit cs p) = texture_y p" "texture_u (emit cs p) = texture_u p" "texture_v (emit cs p) = texture_v p"
  "emit cs (emit ds p) = emit (ds @ cs) p"
  by (simp_all add: emit_def)

lemma row_stride_ge:
  assumes "0 < a" shows "w \<le> row_stride a w"
proof -
  have "(w + a - 1) div a * a = w + a - 1 - (w + a - 1) mod a" by (simp add: minus_mod_eq_div_mult)
  moreover have "(w + a - 1) mod a < a" using assms by simp
  ultimately show ?thesis unfolding row_stride_def by linarith
qed

lemma row_stride_packed:
  assumes "0 < a" "a dvd w" shows "row_stride a w = w"
proof -
  obtain k where "w = a * k" using assms(2) by (elim dvdE)
  then have "w + a - 1 = (a - 1) + k * a" by simp
  then have "(w + a - 1) div a = k" using assms(1) div_mult_self1 [of a "a - 1" k] by (simp only:) simp
  then show ?thesis using \<open>w = a * k\<close> by (simp add: row_stride_def mult.commute)
qed

lemma row_stride_dvd: "a dvd row_stride a w"
  by (simp add: row_stride_def)

lemma concat_rows:
  "concat (map (\<lambda>r. take n (drop (p + r * n) xs)) [0..<h]) = take (h * n) (drop p xs)"
proof (induction h)
  case (Suc h)
  have "take (Suc h * n) (drop p xs) = take (h * n) (drop p xs) @ take n (drop (h * n) (drop p xs))"
    using take_add [of "h * n" n "drop p xs"] by (simp add: add.commute)
  then show ?case using Suc by (simp add: add.commute)
qed simp

lemma unpack_packed:
  assumes "0 < a" "a dvd w" "0 < w" "0 < h" "0 \<le> pos" "pos + w * h \<le> int (length data)"
  shows "unpack a w h data pos = Return (take (nat (w * h)) (drop (nat pos) data))"
proof -
  have stride: "row_stride a w = w" by (rule row_stride_packed [OF assms(1,2)])
  have "(h - 1) * w + w = w * h" by (simp add: algebra_simps)
  then have "unpack_end a w h = w * h" using assms(3,4) by (simp add: unpack_end_def stride)
  moreover have "nat (pos + int r * w) = nat pos + r * nat w" for r
    using assms(3,5) by (simp add: nat_add_distrib nat_mult_distrib)
  moreover have "nat (w * h) = nat h * nat w"
    using assms(4) by (simp add: mult.commute [of w] nat_mult_distrib)
  ultimately show ?thesis using assms(5,6) by (simp add: unpack_def stride concat_rows)
qed

lemma unpack_beyond: "int (length data) < pos + unpack_end a w h \<Longrightarrow> unpack a w h data pos = OutOfBounds"
  by (simp add: unpack_def)

text \<open>Unless the width of a row is a multiple of the alignment, a plane of several rows is read past its end.\<close>

lemma unpack_end_beyond:
  assumes "0 < a" "0 < w" "2 \<le> h" "\<not> a dvd w"
  shows "w * h < unpack_end a w h"
proof -
  have "row_stride a w \<noteq> w" using row_stride_dvd [of a w] assms(4) by metis
  then have "w + 1 \<le> row_stride a w" using row_stride_ge [OF assms(1), of w] by linarith
  then have "(h - 1) * (w + 1) \<le> (h - 1) * row_stride a w"
    using assms(3) by (intro mult_left_mono) auto
  then show ?thesis using assms(2,3) by (simp add: unpack_end_def algebra_simps)
qed

lemma Fill_packed:
  assumes "4 dvd w" "0 < w" "0 < h" "0 \<le> pos" "pos + w * h \<le> int (length data)"
  shows "Fill (Some t) w h data pos format p =
    Return (emit [BindTexture t, TexImage2D format w h (take (nat (w * h)) (drop (nat pos) data))] p)"
  using assms by (simp add: Fill_def UNPACK_ALIGNMENT_def unpack_packed)

definition textures_are :: "native_gl \<Rightarrow> nat \<Rightarrow> nat \<Rightarrow> nat \<Rightarrow> bool" where
  "textures_are p y u v \<longleftrightarrow> texture_y p = Some y \<and> texture_u p = Some u \<and> texture_v p = Some v"

text \<open>A packed frame whose width is a multiple of 8 is uploaded plane by plane.\<close>

lemma fill_frame_packed:
  assumes "textures_are p ty tu tv" and "yuv420p f y u v" and "8 dvd frame_width f" "even (frame_height f)"
  shows "fill_frame format (frame_width f) (frame_height f) (frame_bytes f) p = Return (emit
    [BindTexture ty, TexImage2D format (frame_width f) (frame_height f) y,
     BindTexture tu, TexImage2D format (frame_width f div 2) (frame_height f div 2) u,
     BindTexture tv, TexImage2D format (frame_width f div 2) (frame_height f div 2) v] p)"
proof -
  define w where "w = frame_width f div 2"
  define h where "h = frame_height f div 2"
  have w: "frame_width f = 2 * w" "4 dvd w" and h: "frame_height f = 2 * h"
    using assms(3,4) by (auto simp: w_def h_def)
  have pos: "0 < w" "0 < h" and bytes: "frame_bytes f = y @ u @ v" and ly: "int (length y) = 4 * (w * h)"
    and lu: "int (length u) = w * h" and lv: "int (length v) = w * h"
    using assms(2) even_dims(3) [of "frame_width f" "frame_height f"] by (auto simp: yuv420p_def Let_def w h)
  then have l: "2 * w * (2 * h) = int (length y)" "w * h = int (length u)" "length v = length u" by linarith+
  note fills = Fill_packed [OF w(2) pos, where data = "y @ u @ v", unfolded l(2)]
  have "Fill (Some ty) (2 * w) (2 * h) (y @ u @ v) 0 format q =
      Return (emit [BindTexture ty, TexImage2D format (2 * w) (2 * h) y] q)" for q
    using w(2) pos Fill_packed [of "2 * w" "2 * h" 0 "y @ u @ v" ty format q] unfolding l(1) by simp
  moreover have "Fill (Some tu) w h (y @ u @ v) (int (length y)) format q =
      Return (emit [BindTexture tu, TexImage2D format w h u] q)" for q
    by (subst fills) simp_all
  moreover have "Fill (Some tv) w h (y @ u @ v) (int (length y) + int (length u)) format q =
      Return (emit [BindTexture tv, TexImage2D format w h v] q)" for q
    by (subst fills) (simp_all add: l(3) nat_add_distrib)
  ultimately show ?thesis
    using assms(1) by (simp add: fill_frame_def textures_are_def w h bytes cxx_shr_def l Let_def)
qed

section \<open>The objects a player owns\<close>

text \<open>The objects that a sequence of calls leaves.  OpenGL frees a shader that is attached to a program
  with the program; here it goes when it is deleted.\<close>

datatype gl_object = GlProgram nat | GlShader nat | GlTexture nat | GlBuffer nat | GlArray nat

fun track :: "gl_call \<Rightarrow> gl_object set \<Rightarrow> gl_object set" where
  "track (CreateProgram n) s = insert (GlProgram n) s"
| "track (CreateShader n kind) s = insert (GlShader n) s"
| "track (CreateTexture n) s = insert (GlTexture n) s"
| "track (CreateBuffer n) s = insert (GlBuffer n) s"
| "track (GenVertexArray n) s = insert (GlArray n) s"
| "track (DeleteProgram n) s = s - {GlProgram n}"
| "track (DeleteShader n) s = s - {GlShader n}"
| "track (DeleteTexture n) s = s - {GlTexture n}"
| "track (DeleteBuffer n) s = s - {GlBuffer n}"
| "track (DeleteVertexArray n) s = s - {GlArray n}"
| "track _ s = s"

definition live :: "gl_call list \<Rightarrow> gl_object set" where
  "live cs = fold track cs {}"

lemma live_append [simp]: "live (cs @ ds) = fold track ds (live cs)"
  by (simp add: live_def)

fun object_name :: "gl_object \<Rightarrow> nat" where
  "object_name (GlProgram n) = n"
| "object_name (GlShader n) = n"
| "object_name (GlTexture n) = n"
| "object_name (GlBuffer n) = n"
| "object_name (GlArray n) = n"

text \<open>Calls that only report: no texture unit, no upload, no object changes.\<close>

definition silent :: "gl_call list \<Rightarrow> bool" where
  "silent cs \<longleftrightarrow> unit_free cs \<and> uploads cs = [] \<and> fold track cs = id"

lemma silent_simps [simp]:
  "silent cs \<Longrightarrow> fold gl_exec cs s = s" "silent cs \<Longrightarrow> fold track cs r = r" "silent cs \<Longrightarrow> uploads cs = []"
  by (simp_all add: silent_def unit_free_def)

lemma silent_log [simp]: "silent []" "silent [error_log what type info]"
  by (auto simp: silent_def unit_free_def error_log_def)

lemma CheckCompileErrors_run: "\<exists>cs. silent cs \<and> CheckCompileErrors env n type p = p\<lparr>gl_calls := gl_calls p @ cs\<rparr>"
proof -
  have "\<exists>cs. silent cs \<and> (case lg of None \<Rightarrow> p | Some info \<Rightarrow> emit [error_log what type info] p) =
      p\<lparr>gl_calls := gl_calls p @ cs\<rparr>" for lg :: "string option" and what
    by (cases lg) (auto simp: emit_def intro: exI [of _ "[]"] exI [of _ "[error_log what type _]"])
  then show ?thesis unfolding CheckCompileErrors_def by (cases "type \<noteq> ''PROGRAM''") simp_all
qed

lemma compile_shader_run:
  "\<exists>cs. silent cs \<and> compile_shader env kind code type p =
     (fresh_name p, p\<lparr>fresh_name := Suc (fresh_name p), gl_calls := gl_calls p @
       [CreateShader (fresh_name p) kind, ShaderSource (fresh_name p) code, CompileShader (fresh_name p)] @ cs\<rparr>)"
proof -
  define q where "q = p\<lparr>fresh_name := Suc (fresh_name p), gl_calls := gl_calls p @
    [CreateShader (fresh_name p) kind, ShaderSource (fresh_name p) code, CompileShader (fresh_name p)]\<rparr>"
  obtain cs where "silent cs" "CheckCompileErrors env (fresh_name p) type q = q\<lparr>gl_calls := gl_calls q @ cs\<rparr>"
    using CheckCompileErrors_run by blast
  then show ?thesis
    by (intro exI [of _ cs]) (simp add: compile_shader_def gen_name_def emit_def q_def)
qed

lemma Shader_Create_run:
  fixes p
  defines "n \<equiv> fresh_name p"
  shows "\<exists>cs. Shader_Create env vs fs None p = (n + 2, p\<lparr>fresh_name := n + 3, gl_calls := gl_calls p @ cs\<rparr>) \<and>
    unit_free cs \<and> uploads cs = [] \<and>
    (\<forall>s. {GlShader n, GlShader (n + 1)} \<inter> s = {} \<longrightarrow> fold track cs s = insert (GlProgram (n + 2)) s)"
proof -
  obtain c1 where c1: "silent c1" "compile_shader env ''GL_VERTEX_SHADER'' vs ''VERTEX'' p =
      (n, p\<lparr>fresh_name := Suc n, gl_calls := gl_calls p @ [CreateShader n ''GL_VERTEX_SHADER'', ShaderSource n vs,
        CompileShader n] @ c1\<rparr>)"
    using compile_shader_run unfolding n_def by blast
  define p1 where "p1 = p\<lparr>fresh_name := Suc n, gl_calls := gl_calls p @ [CreateShader n ''GL_VERTEX_SHADER'',
    ShaderSource n vs, CompileShader n] @ c1\<rparr>"
  obtain c2 where c2: "silent c2" "compile_shader env ''GL_FRAGMENT_SHADER'' fs ''FRAGMENT'' p1 =
      (Suc n, p1\<lparr>fresh_name := Suc (Suc n), gl_calls := gl_calls p1 @ [CreateShader (Suc n) ''GL_FRAGMENT_SHADER'',
        ShaderSource (Suc n) fs, CompileShader (Suc n)] @ c2\<rparr>)"
    using compile_shader_run [of env "''GL_FRAGMENT_SHADER''" fs "''FRAGMENT''" p1] unfolding p1_def by auto
  define p2 where "p2 = p1\<lparr>fresh_name := n + 3, gl_calls := gl_calls p1 @ [CreateShader (Suc n) ''GL_FRAGMENT_SHADER'',
      ShaderSource (Suc n) fs, CompileShader (Suc n)] @ c2 @ [CreateProgram (n + 2), AttachShader (n + 2) n,
      AttachShader (n + 2) (Suc n), LinkProgram (n + 2)]\<rparr>"
  obtain c3 where c3: "silent c3" "CheckCompileErrors env (n + 2) ''PROGRAM'' p2 = p2\<lparr>gl_calls := gl_calls p2 @ c3\<rparr>"
    using CheckCompileErrors_run by blast
  define cs where "cs = [CreateShader n ''GL_VERTEX_SHADER'', ShaderSource n vs, CompileShader n] @ c1 @
    [CreateShader (Suc n) ''GL_FRAGMENT_SHADER'', ShaderSource (Suc n) fs, CompileShader (Suc n)] @ c2 @
    [CreateProgram (n + 2), AttachShader (n + 2) n, AttachShader (n + 2) (Suc n), LinkProgram (n + 2)] @ c3 @
    [DeleteShader n, DeleteShader (Suc n)]"
  have "Shader_Create env vs fs None p = (n + 2, p\<lparr>fresh_name := n + 3, gl_calls := gl_calls p @ cs\<rparr>)"
    using c3(2) c2(2) [unfolded p1_def, simplified] unfolding Shader_Create_def c1(2)
    by (simp add: gen_name_def emit_def p2_def cs_def p1_def numeral_eq_Suc)
  moreover have "unit_free cs" "uploads cs = []"
    using c1(1) c2(1) c3(1) by (auto simp: cs_def unit_free_def)
  moreover have "fold track cs s = insert (GlProgram (n + 2)) s" if "{GlShader n, GlShader (n + 1)} \<inter> s = {}" for s
    using that c1(1) c2(1) c3(1) by (auto simp: cs_def)
  ultimately show ?thesis by blast
qed

lemma set_up_run:
  fixes p
  defines "n \<equiv> fresh_name p"
  shows "\<exists>cs. set_up env vs fs p = p\<lparr>shader := Some (n + 2), vao := n + 3, vbo := n + 4, texture_y := Some (n + 5),
      texture_u := Some (n + 6), texture_v := Some (n + 7), fresh_name := n + 8, gl_calls := gl_calls p @ cs\<rparr> \<and>
    (\<forall>s. units_ready (n + 5) (n + 6) (n + 7) (fold gl_exec cs s)) \<and> uploads cs = [] \<and>
    (\<forall>s. {GlShader n, GlShader (n + 1)} \<inter> s = {} \<longrightarrow> fold track cs s =
       {GlProgram (n + 2), GlArray (n + 3), GlBuffer (n + 4), GlTexture (n + 5), GlTexture (n + 6), GlTexture (n + 7)} \<union> s)"
proof -
  obtain c where c: "Shader_Create env vs fs None p = (n + 2, p\<lparr>fresh_name := n + 3, gl_calls := gl_calls p @ c\<rparr>)"
      "unit_free c" "uploads c = []"
      "\<forall>s. {GlShader n, GlShader (n + 1)} \<inter> s = {} \<longrightarrow> fold track c s = insert (GlProgram (n + 2)) s"
    using Shader_Create_run [of env vs fs p, folded n_def] by (elim exE conjE)
  let ?texture = "\<lambda>t. [CreateTexture t, BindTexture t,
    TexParameteri ''TEXTURE_MAG_FILTER'' ''LINEAR'', TexParameteri ''TEXTURE_MIN_FILTER'' ''LINEAR'',
    TexParameteri ''TEXTURE_WRAP_S'' ''CLAMP_TO_EDGE'', TexParameteri ''TEXTURE_WRAP_T'' ''CLAMP_TO_EDGE'']"
  define cs where "cs = c @ [GenVertexArray (n + 3), BindVertexArray (n + 3), CreateBuffer (n + 4),
      BindBuffer ''ARRAY_BUFFER'' (n + 4), BufferData ''ARRAY_BUFFER'' vertices ''STATIC_DRAW'',
      LocationPointer 0 3 20 0, EnableLocation 0, LocationPointer 1 2 20 12, EnableLocation 1] @
    ?texture (n + 5) @ ?texture (n + 6) @ ?texture (n + 7) @ [UseProgram (n + 2),
      ActiveTexture 0, BindTexture (n + 5), Uniform1i (n + 2) ''yTex'' 0,
      ActiveTexture 1, BindTexture (n + 6), Uniform1i (n + 2) ''uTex'' 1,
      ActiveTexture 2, BindTexture (n + 7), Uniform1i (n + 2) ''vTex'' 2]"
  have "set_up env vs fs p = p\<lparr>shader := Some (n + 2), vao := n + 3, vbo := n + 4, texture_y := Some (n + 5),
      texture_u := Some (n + 6), texture_v := Some (n + 7), fresh_name := n + 8, gl_calls := gl_calls p @ cs\<rparr>"
    by (simp add: set_up_def c(1) gen_name_def setup_quad_def make_textures_def Texture_Create_def Texture_Bind_def
        emit_def cs_def)
  moreover have "units_ready (n + 5) (n + 6) (n + 7) (fold gl_exec cs s)" for s
    using c(2) by (simp add: cs_def units_ready_def unit_free_def)
  moreover have "uploads cs = []" using c(3) by (simp add: cs_def)
  moreover have "fold track cs s = {GlProgram (n + 2), GlArray (n + 3), GlBuffer (n + 4), GlTexture (n + 5),
      GlTexture (n + 6), GlTexture (n + 7)} \<union> s" if "{GlShader n, GlShader (n + 1)} \<inter> s = {}" for s
    using c(4) [rule_format, OF that] by (auto simp: cs_def)
  ultimately show ?thesis by blast
qed

section \<open>What the shader of a native player reads\<close>

text \<open>A packed frame whose rows, of luma and of chroma, end on the alignment.\<close>

definition aligned :: "frame \<Rightarrow> bool" where
  "aligned f \<longleftrightarrow> packed f \<and> 8 dvd frame_width f \<and> even (frame_height f)"

definition native_ready :: "native_gl \<Rightarrow> bool" where
  "native_ready p \<longleftrightarrow> (\<exists>y u v. textures_are p y u v \<and> units_ready y u v (gl_state (gl_calls p)))"

definition shader_reads :: "string \<Rightarrow> frame \<Rightarrow> native_gl \<Rightarrow> bool" where
  "shader_reads format f p \<longleftrightarrow>
     (let s = gl_state (gl_calls p); w = frame_width f; h = frame_height f in
      sampled s ''yTex'' = Some (format, w, h, y_plane f) \<and>
      sampled s ''uTex'' = Some (format, w div 2, h div 2, u_plane f) \<and>
      sampled s ''vTex'' = Some (format, w div 2, h div 2, v_plane f))"

definition plane_calls :: "string \<Rightarrow> frame \<Rightarrow> nat \<Rightarrow> nat \<Rightarrow> nat \<Rightarrow> gl_call list" where
  "plane_calls format f ty tu tv =
    [BindTexture ty, TexImage2D format (frame_width f) (frame_height f) (y_plane f),
     BindTexture tu, TexImage2D format (frame_width f div 2) (frame_height f div 2) (u_plane f),
     BindTexture tv, TexImage2D format (frame_width f div 2) (frame_height f div 2) (v_plane f)]"

lemma fill_frame_aligned:
  assumes "textures_are p ty tu tv" and "aligned f"
  shows "fill_frame format (frame_width f) (frame_height f) (frame_bytes f) p = Return (emit (plane_calls format f ty tu tv) p)"
  using fill_frame_packed [OF assms(1)] assms(2) by (simp add: aligned_def packed_def plane_calls_def)

lemma plane_calls_run:
  "uploads (plane_calls format f ty tu tv) = [(frame_width f, frame_height f, y_plane f),
     (frame_width f div 2, frame_height f div 2, u_plane f), (frame_width f div 2, frame_height f div 2, v_plane f)]"
  "fold track (plane_calls format f ty tu tv) s = s"
  "units_ready ty tu tv g \<Longrightarrow> units_ready ty tu tv (fold gl_exec (plane_calls format f ty tu tv) g)"
  by (simp_all add: plane_calls_def units_ready_def)

lemma plane_calls_sampled:
  "units_ready ty tu tv (gl_state (gl_calls p)) \<Longrightarrow> shader_reads format f (emit (plane_calls format f ty tu tv) p)"
  by (auto simp: plane_calls_def units_ready_def shader_reads_def sampled_def Let_def)

text \<open>Calls that leave the texture units alone, at the end of a drawing.\<close>

lemma shader_reads_cong:
  "gl_state (gl_calls p) = gl_state (gl_calls q) \<Longrightarrow> shader_reads format f p = shader_reads format f q"
  by (simp add: shader_reads_def)

lemma Draw_aligned:
  assumes "textures_are p ty tu tv" and "aligned f"
  shows "Draw f p = Return (emit ([ClearColor 0 0 0 1, Clear ''COLOR_BUFFER_BIT''] @ plane_calls ''LUMINANCE'' f ty tu tv @
      [BindVertexArray (vao p), DrawArrays ''TRIANGLE_STRIP'' 0 4, SwapWindow]) p)"
proof -
  have "textures_are (emit [ClearColor 0 0 0 1, Clear ''COLOR_BUFFER_BIT''] p) ty tu tv"
    using assms(1) by (simp add: textures_are_def)
  then show ?thesis by (simp add: Draw_def fill_frame_aligned [OF _ assms(2)])
qed

lemma OnDraw_aligned:
  assumes "textures_are p ty tu tv" and "aligned f" and "frame_ptr p = Some f"
  shows "OnDraw p = Return (emit (plane_calls ''RED'' f ty tu tv @
      [BindVertexArray (vao p), DrawArrays ''TRIANGLE_STRIP'' 0 4]) p)"
  using assms(3) by (simp add: OnDraw_def OnDraw_seen_def Let_def fill_frame_aligned [OF assms(1,2)])

text \<open>The two threads of the native programs: \<open>Update(nullptr)\<close> between the test of \<open>frame_\<close> and the last
  of the reads after it makes the drawing read through a null pointer.\<close>

lemma update_while_drawing:
  assumes "seen 0 \<noteq> None" and "seen 1 = None \<or> seen 2 = None \<or> seen 3 = None"
  shows "OnDraw_seen seen p = OutOfBounds"
  using assms by (auto simp: OnDraw_seen_def Let_def split: option.splits)

text \<open>A frame of even size whose width is no multiple of 8, with more than one row of chroma: the last rows
  are read past its end.\<close>

lemma Fill_beyond:
  assumes "int (length data) < pos + unpack_end UNPACK_ALIGNMENT w h"
  shows "Fill t w h data pos format p = OutOfBounds"
  using unpack_beyond [OF assms] by (cases t) (simp_all add: Fill_def)

lemma fill_frame_narrow:
  assumes "yuv420p f y u v" and "even (frame_width f)" "\<not> 8 dvd frame_width f"
    and "even (frame_height f)" "4 \<le> frame_height f"
  shows "fill_frame format (frame_width f) (frame_height f) (frame_bytes f) p = OutOfBounds"
proof -
  define w where "w = frame_width f div 2"
  define h where "h = frame_height f div 2"
  have w: "frame_width f = 2 * w" "\<not> 4 dvd w" and h: "frame_height f = 2 * h" "2 \<le> h"
    using assms(2-5) by (auto simp: w_def h_def) presburger
  have pos: "0 < w" and bytes: "frame_bytes f = y @ u @ v" and ly: "int (length y) = 4 * (w * h)"
    and lu: "int (length u) = w * h" and lv: "int (length v) = w * h"
    using assms(1) even_dims(3) [of "frame_width f" "frame_height f"] by (auto simp: yuv420p_def Let_def w(1) h(1))
  have "w * h < unpack_end UNPACK_ALIGNMENT w h"
    using w(2) h(2) pos by (intro unpack_end_beyond) (simp_all add: UNPACK_ALIGNMENT_def)
  then have "int (length (y @ u @ v)) < 2 * w * (2 * h) + w * h + unpack_end UNPACK_ALIGNMENT w h"
    using ly lu lv by (simp add: mult.commute)
  then have "Fill t w h (y @ u @ v) (2 * w * (2 * h) + w * h) format q = OutOfBounds" for t q
    by (rule Fill_beyond)
  moreover have "bind_outcome (Fill t a b c d e q) (\<lambda>_. OutOfBounds) = (OutOfBounds :: native_gl outcome)" for t a b c d e q
    by (cases t) (simp_all add: Fill_def unpack_def)
  ultimately show ?thesis by (simp add: fill_frame_def w(1) h(1) bytes cxx_shr_def)
qed

section \<open>From the first frame to the last\<close>

fun renders :: "native_env \<Rightarrow> frame list \<Rightarrow> native_gl \<Rightarrow> native_gl outcome" where
  "renders env [] p = Return p"
| "renders env (f # fs) p = bind_outcome (Render env f p) (renders env fs)"

lemma renders_open:
  assumes "window_open p" and "textures_are p y u v" and "units_ready y u v (gl_state (gl_calls p))"
    and "list_all aligned fs"
  shows "\<exists>cs. renders env fs p = Return (emit cs p) \<and> (\<forall>s. fold track cs s = s) \<and>
    (fs \<noteq> [] \<longrightarrow> shader_reads ''LUMINANCE'' (last fs) (emit cs p))"
  using assms
proof (induction fs arbitrary: p)
  case Nil
  then show ?case by (intro exI [of _ "[]"]) (simp add: emit_def)
next
  case (Cons f fs)
  define ds where "ds = [ClearColor 0 0 0 1, Clear ''COLOR_BUFFER_BIT''] @ plane_calls ''LUMINANCE'' f y u v @
    [BindVertexArray (vao p), DrawArrays ''TRIANGLE_STRIP'' 0 4, SwapWindow]"
  have draw: "Render env f p = Return (emit ds p)"
    using Cons.prems Draw_aligned [of p y u v f] by (simp add: Render_def Init_def ds_def)
  have ready: "units_ready y u v (gl_state (gl_calls (emit ds p)))"
    using plane_calls_run(3) [OF Cons.prems(3)] by (simp add: ds_def)
  have reads: "shader_reads ''LUMINANCE'' f (emit ds p)"
    using plane_calls_sampled [OF Cons.prems(3)] by (subst shader_reads_cong) (auto simp: ds_def)
  obtain cs where cs: "renders env fs (emit ds p) = Return (emit cs (emit ds p))" "\<forall>s. fold track cs s = s"
      "fs \<noteq> [] \<longrightarrow> shader_reads ''LUMINANCE'' (last fs) (emit cs (emit ds p))"
    using Cons.IH [of "emit ds p"] Cons.prems(1,2,4) ready by (auto simp: textures_are_def)
  show ?case
    using draw cs reads
    by (intro exI [of _ "ds @ cs"]) (auto simp: ds_def plane_calls_run(2) renders.simps)
qed

lemma Init_ready:
  assumes "\<not> window_open p" and "window_opens env"
  defines "n \<equiv> fresh_name p"
  shows "\<exists>cs. Init env f p = p\<lparr>window_open := True, renderer_open := True, shader := Some (n + 2), vao := n + 3,
      vbo := n + 4, texture_y := Some (n + 5), texture_u := Some (n + 6), texture_v := Some (n + 7), fresh_name := n + 8,
      gl_calls := gl_calls p @ cs\<rparr> \<and>
    (\<forall>s. units_ready (n + 5) (n + 6) (n + 7) (fold gl_exec cs s)) \<and>
    (\<forall>s. {GlShader n, GlShader (n + 1)} \<inter> s = {} \<longrightarrow> fold track cs s =
       {GlProgram (n + 2), GlArray (n + 3), GlBuffer (n + 4), GlTexture (n + 5), GlTexture (n + 6), GlTexture (n + 7)} \<union> s)"
proof -
  define ds where "ds = [CreateWindowAndRenderer (frame_width f) (frame_height f), SetAttribute ''SDL_GL_CONTEXT_MAJOR_VERSION'' 2,
    SetAttribute ''SDL_GL_CONTEXT_MINOR_VERSION'' 0, SetAttribute ''SDL_GL_DOUBLEBUFFER'' 1, SetAttribute ''SDL_GL_DEPTH_SIZE'' 24]"
  define q where "q = p\<lparr>window_open := True, renderer_open := True, gl_calls := gl_calls p @ ds\<rparr>"
  obtain cs where cs: "set_up env player_vertex_source player_fragment_source q = q\<lparr>shader := Some (n + 2), vao := n + 3,
        vbo := n + 4, texture_y := Some (n + 5), texture_u := Some (n + 6), texture_v := Some (n + 7), fresh_name := n + 8,
        gl_calls := gl_calls q @ cs\<rparr>"
      "\<forall>s. units_ready (n + 5) (n + 6) (n + 7) (fold gl_exec cs s)"
      "\<forall>s. {GlShader n, GlShader (n + 1)} \<inter> s = {} \<longrightarrow> fold track cs s =
       {GlProgram (n + 2), GlArray (n + 3), GlBuffer (n + 4), GlTexture (n + 5), GlTexture (n + 6), GlTexture (n + 7)} \<union> s"
    using set_up_run [of env player_vertex_source player_fragment_source q] unfolding q_def n_def by auto
  have "Init env f p = set_up env player_vertex_source player_fragment_source q"
    using assms(1,2) by (simp add: Init_def q_def emit_def ds_def)
  then show ?thesis
    using cs by (intro exI [of _ "ds @ cs"]) (simp add: q_def ds_def)
qed

section \<open>Properties\<close>

definition sample_native_env :: native_env where
  "sample_native_env = \<lparr>window_opens = True, glew_ok = True, compile_log = (\<lambda>_. None), link_log = (\<lambda>_. None)\<rparr>"

text \<open>A frame of 8 by 2, and one of 4 by 4.\<close>

definition wide_frame :: frame where
  "wide_frame = \<lparr>frame_width = 8, frame_height = 2, frame_bytes = map word_of_nat [0..<24]\<rparr>"

definition narrow_frame :: frame where
  "narrow_frame = \<lparr>frame_width = 4, frame_height = 4, frame_bytes = map word_of_nat [0..<24]\<rparr>"

lemma wide_frame_yuv420p:
  "yuv420p wide_frame (map word_of_nat [0..<16]) (map word_of_nat [16..<20]) (map word_of_nat [20..<24])"
  by (simp add: yuv420p_def wide_frame_def chroma_len_def upt_rec)

lemma wide_frame_aligned: "aligned wide_frame"
  using wide_frame_yuv420p yuv420p_planes [OF wide_frame_yuv420p] by (simp add: aligned_def packed_def wide_frame_def)

lemma narrow_frame_yuv420p:
  "yuv420p narrow_frame (map word_of_nat [0..<16]) (map word_of_nat [16..<20]) (map word_of_nat [20..<24])"
  by (simp add: yuv420p_def narrow_frame_def chroma_len_def upt_rec)

text \<open>C18.  The three players agree: of a packed frame whose width is a multiple of 8 and whose height is even, the WebGL player,
  the SDL player of the page and the window of the native programs upload the same three images.\<close>

theorem players_upload_the_same_planes:
  assumes "textures_ready p" and "textures_are q y u v" and "textures_are r y' u' v'"
    and "aligned f" and "frame_ptr r = Some f"
  shows "\<exists>q' r'. Draw f q = Return q' \<and> OnDraw r = Return r' \<and>
    drop (length (uploads (calls p))) (uploads (calls (snd (render f p)))) =
      drop (length (uploads (gl_calls q))) (uploads (gl_calls q')) \<and>
    drop (length (uploads (gl_calls q))) (uploads (gl_calls q')) =
      drop (length (uploads (gl_calls r))) (uploads (gl_calls r'))"
proof -
  have "8 dvd frame_width f" "even (frame_height f)" "yuv420p f (y_plane f) (u_plane f) (v_plane f)"
    using assms(4) by (simp_all add: aligned_def packed_def)
  then have even: "even (frame_width f)" by presburger
  show ?thesis
    using even_uploads [OF assms(1) \<open>yuv420p f _ _ _\<close> even \<open>even (frame_height f)\<close>]
    by (simp add: Draw_aligned [OF assms(2,4)] OnDraw_aligned [OF assms(3-5)] plane_calls_run)
qed

theorem players_upload_the_same_planes_witness:
  "let p = WebGLPlayer sample_gl 8 2;
       q = (OpenGLPlayer 3 [])\<lparr>texture_y := Some 0, texture_u := Some 1, texture_v := Some 2, frame_ptr := Some wide_frame\<rparr> in
   \<exists>q' r'. Draw wide_frame q = Return q' \<and> OnDraw q = Return r' \<and>
    drop (length (uploads (calls p))) (uploads (calls (snd (render wide_frame p)))) =
      drop (length (uploads (gl_calls q))) (uploads (gl_calls q')) \<and>
    drop (length (uploads (gl_calls q))) (uploads (gl_calls q')) =
      drop (length (uploads (gl_calls q))) (uploads (gl_calls r'))"
  unfolding Let_def
  by (rule players_upload_the_same_planes [where y = 0 and u = 1 and v = 2 and y' = 0 and u' = 1 and v' = 2])
    (simp_all add: textures_ready_new sample_gl_def textures_are_def OpenGLPlayer_def wide_frame_aligned)

text \<open>C19.  The native players never set the alignment of the pixels they upload, which stays 4: of a frame of even
  size whose width is no multiple of 8, with at least two rows of chroma, they read past the end, at the latest with
  the last row of the \<open>V\<close> plane.  (The WebGL player sets the alignment to 1.)\<close>

theorem narrow_frames_are_read_past_their_end:
  assumes "yuv420p f y u v" and "even (frame_width f)" "\<not> 8 dvd frame_width f"
    and "even (frame_height f)" "4 \<le> frame_height f"
  shows "Render env f p = OutOfBounds \<and> OnDraw (Update (Some f) p) = OutOfBounds"
  using fill_frame_narrow [OF assms]
  by (simp add: Render_def Draw_def OnDraw_def OnDraw_seen_def Update_def)

theorem narrow_frames_are_read_past_their_end_witness:
  "Render sample_native_env narrow_frame (OpenGLPlayer 0 []) = OutOfBounds \<and>
   OnDraw (Update (Some narrow_frame) (OpenGLPlayer 0 [])) = OutOfBounds"
  by (rule narrow_frames_are_read_past_their_end [OF narrow_frame_yuv420p]) (simp_all add: narrow_frame_def)

text \<open>C20.  The page's SDL player, from its construction, where the window opens and every frame is one the player draws
  within its bounds (packed YUV420P, a width that is a multiple of 8, an even height: of others it reads past the
  end): the first frame opens the window and sets up the shader, every frame is drawn, the shader reads the
  planes of the last, and \<open>Destroy\<close> closes the window and deletes every GL object the player made.\<close>

theorem sdl_player_draws_and_releases:
  assumes "window_opens env" and "list_all aligned (f # fs)" and "\<forall>x \<in> live cs. object_name x < n"
  shows "\<exists>p p'. renders env (f # fs) (OpenGLPlayer n cs) = Return p \<and> window_open p \<and>
    shader_reads ''LUMINANCE'' (last (f # fs)) p \<and>
    Destroy p = Return p' \<and> \<not> window_open p' \<and> \<not> renderer_open p' \<and> live (gl_calls p') = live cs"
proof -
  define p0 where "p0 = Init env f (OpenGLPlayer n cs)"
  obtain ns where p0: "p0 = (OpenGLPlayer n cs)\<lparr>window_open := True, renderer_open := True, shader := Some (n + 2), vao := n + 3,
      vbo := n + 4, texture_y := Some (n + 5), texture_u := Some (n + 6), texture_v := Some (n + 7), fresh_name := n + 8,
      gl_calls := cs @ ns\<rparr>" "\<forall>s. units_ready (n + 5) (n + 6) (n + 7) (fold gl_exec ns s)"
      "\<forall>s. {GlShader n, GlShader (n + 1)} \<inter> s = {} \<longrightarrow> fold track ns s =
       {GlProgram (n + 2), GlArray (n + 3), GlBuffer (n + 4), GlTexture (n + 5), GlTexture (n + 6), GlTexture (n + 7)} \<union> s"
    using Init_ready [of "OpenGLPlayer n cs" env f] assms(1) by (auto simp: p0_def OpenGLPlayer_def)
  have "renders env (f # fs) (OpenGLPlayer n cs) = renders env (f # fs) p0"
    using p0(1) by (simp add: Render_def p0_def [symmetric]) (simp add: Init_def)
  moreover obtain ds where ds: "renders env (f # fs) p0 = Return (emit ds p0)" "\<forall>s. fold track ds s = s"
      "shader_reads ''LUMINANCE'' (last (f # fs)) (emit ds p0)"
    using renders_open [of p0 "n + 5" "n + 6" "n + 7" "f # fs" env] assms(2) p0 by (auto simp: textures_are_def)
  moreover have fresh: "GlProgram k \<notin> live cs" "GlArray k \<notin> live cs" "GlBuffer k \<notin> live cs" "GlTexture k \<notin> live cs"
      "GlShader k \<notin> live cs" if "n \<le> k" for k
    using assms(3) that by force+
  have "live (gl_calls (emit ds p0)) = {GlProgram (n + 2), GlArray (n + 3), GlBuffer (n + 4), GlTexture (n + 5),
      GlTexture (n + 6), GlTexture (n + 7)} \<union> live cs"
    using p0 ds(2) fresh(5) by simp
  then have "\<exists>p'. Destroy (emit ds p0) = Return p' \<and> \<not> window_open p' \<and> \<not> renderer_open p' \<and> live (gl_calls p') = live cs"
    using p0(1) fresh by (auto simp: Destroy_def delete_at_def Let_def)
  ultimately show ?thesis using p0(1) by auto
qed

theorem sdl_player_draws_and_releases_witness:
  "\<exists>p p'. renders sample_native_env (wide_frame # [wide_frame]) (OpenGLPlayer 0 []) = Return p \<and> window_open p \<and>
    shader_reads ''LUMINANCE'' (last (wide_frame # [wide_frame])) p \<and>
    Destroy p = Return p' \<and> \<not> window_open p' \<and> \<not> renderer_open p' \<and> live (gl_calls p') = live []"
  by (rule sdl_player_draws_and_releases) (simp_all add: sample_native_env_def wide_frame_aligned live_def)

end
