(* ===== verification/Glfw.thy ===== *)
theory Glfw imports NativeGl begin

text \<open>
  \<open>common/gl/glfw_base.cc\<close>: the window of the native programs, its set-up, its loop and its end, with the
  virtual methods as \<open>hooks\<close> (those of \<open>GlfwFrame\<close> are in theory \<open>NativeGl\<close>).  GLFW is one library per process:
  \<open>system\<close> holds its state and the windows' objects, and the threads that run \<open>Run\<close> interleave as sequences
  of actions.
\<close>

section \<open>State\<close>

text \<open>What is observed of a window: the calls into GLFW and those of the callback object.\<close>

datatype glfw_event =
    WindowHint string nat
  | CreateWindow int int string
  | MakeContextCurrent nat | SetFramebufferSizeCallback nat | StickyKeys nat | SwapInterval nat
  | SwapBuffers nat | PollEvents
  | GlfwDestroyWindow nat | GlfwTerminate
  | Callback string
  | RunCallback

record init_params =
  param_width :: int
  param_height :: int
  param_title :: string

text \<open>The callback object: which default behaviours it overrides.\<close>

record callback_object =
  before_create_override :: bool
  created_override :: bool
  draw_override :: bool

record hooks =
  on_init :: "native_gl \<Rightarrow> native_gl outcome"
  on_draw :: "native_gl \<Rightarrow> native_gl outcome"
  on_destroy :: "native_gl \<Rightarrow> native_gl outcome"

text \<open>A \<open>GlfwBase\<close>; \<open>exit_code\<close> is what \<open>Run\<close> has returned.\<close>

record glfw_window =
  win :: "nat option"
  glsl_version :: string
  callback :: "callback_object option"
  clear_color :: "rat \<times> rat \<times> rat \<times> rat"
  gl :: native_gl
  window_events :: "glfw_event list"
  exit_code :: "int option"

record glfw =
  glfw_initialised :: bool
  open_windows :: "nat set"
  next_window :: nat

record glfw_env =
  init_ok :: bool
  create_ok :: bool

text \<open>\<open>GlfwBase\<close> and \<open>GlfwFrame\<close>.\<close>

definition base_hooks :: hooks where
  "base_hooks = \<lparr>on_init = Return, on_draw = Return, on_destroy = Return\<rparr>"

definition frame_hooks :: "native_env \<Rightarrow> hooks" where
  "frame_hooks env = \<lparr>on_init = (\<lambda>p. Return (OnInit env p)), on_draw = OnDraw, on_destroy = OnDestroy\<rparr>"

definition GlfwBase :: "native_gl \<Rightarrow> glfw_window" where
  "GlfwBase p = \<lparr>win = None, glsl_version = [], callback = None, clear_color = (0, 0, 0, 1), gl = p, window_events = [],
     exit_code = None\<rparr>"

definition no_glfw :: glfw where
  "no_glfw = \<lparr>glfw_initialised = False, open_windows = {}, next_window = 0\<rparr>"

section \<open>The methods\<close>

definition DefaultInitParams :: "init_params \<Rightarrow> init_params" where
  "DefaultInitParams params =
     (let params = (if param_width params \<le> 0 then params\<lparr>param_width := 1280\<rparr> else params);
          params = (if param_height params \<le> 0 then params\<lparr>param_height := 720\<rparr> else params)
      in if param_title params = [] then params\<lparr>param_title := ''Window''\<rparr> else params)"

definition note_events :: "glfw_event list \<Rightarrow> glfw_window \<Rightarrow> glfw_window" where
  "note_events es b = b\<lparr>window_events := window_events b @ es\<rparr>"

text \<open>The defaults that are not Apple's.\<close>

definition OnWindowBeforeCreate :: "glfw_window \<Rightarrow> glfw_window" where
  "OnWindowBeforeCreate b = (note_events [WindowHint ''GLFW_SAMPLES'' 4, WindowHint ''GLFW_CONTEXT_VERSION_MAJOR'' 3,
     WindowHint ''GLFW_CONTEXT_VERSION_MINOR'' 0] b)\<lparr>glsl_version := ''#version 130''\<rparr>"

definition OnWindowCreated :: "nat \<Rightarrow> glfw_window \<Rightarrow> glfw_window" where
  "OnWindowCreated w = note_events [MakeContextCurrent w, SetFramebufferSizeCallback w, StickyKeys w, SwapInterval 1]"

definition before_create :: "glfw_window \<Rightarrow> glfw_window" where
  "before_create b =
     (case callback b of
        Some cb \<Rightarrow> note_events [Callback ''OnWindowBeforeCreate'']
          (if \<not> before_create_override cb then OnWindowBeforeCreate b else b)
      | None \<Rightarrow> OnWindowBeforeCreate b)"

definition window_created :: "nat \<Rightarrow> glfw_window \<Rightarrow> glfw_window" where
  "window_created w b =
     (case callback b of
        Some cb \<Rightarrow> note_events [Callback ''OnWindowCreated''] (if \<not> created_override cb then OnWindowCreated w b else b)
      | None \<Rightarrow> OnWindowCreated w b)"

text \<open>\<open>Init\<close> returns \<open>nullptr\<close> when GLFW or its window fails; a window that is open is kept.\<close>

definition glfw_Init :: "glfw_env \<Rightarrow> hooks \<Rightarrow> init_params \<Rightarrow> glfw \<times> glfw_window \<Rightarrow> (nat option \<times> glfw \<times> glfw_window) outcome" where
  "glfw_Init env hk params s =
     (case s of (lib, b) \<Rightarrow>
      case win b of
        Some w \<Rightarrow> Return (Some w, lib, b)
      | None \<Rightarrow>
          let params = DefaultInitParams params in
          if \<not> glfw_initialised lib \<and> \<not> init_ok env then Return (None, lib, b)
          else
            let lib = lib\<lparr>glfw_initialised := True\<rparr>;
                b = note_events [CreateWindow (param_width params) (param_height params) (param_title params)] (before_create b)
            in if \<not> create_ok env then Return (None, lib, b)
            else
              let w = next_window lib;
                  lib = lib\<lparr>open_windows := insert w (open_windows lib), next_window := Suc w\<rparr>;
                  b = window_created w (b\<lparr>win := Some w\<rparr>)
              in bind_outcome (on_init hk (gl b)) (\<lambda>p.
                let b = b\<lparr>gl := p\<rparr>;
                    b = (if callback b \<noteq> None then note_events [Callback ''OnGlfwInit''] b else b)
                in Return (win b, lib, b)))"

text \<open>A call into GLFW on a window: one that was destroyed is freed memory.\<close>

definition on_window :: "glfw \<times> glfw_window \<Rightarrow> (nat \<Rightarrow> 'a outcome) \<Rightarrow> 'a outcome" where
  "on_window s k = (case s of (lib, b) \<Rightarrow> case win b of None \<Rightarrow> OutOfBounds
     | Some w \<Rightarrow> if w \<in> open_windows lib then k w else OutOfBounds)"

text \<open>\<open>ShouldClose\<close> for what the user has done, the close button or the escape key; \<open>assert(window_)\<close>.\<close>

definition ShouldClose :: "bool \<Rightarrow> bool \<Rightarrow> bool \<Rightarrow> glfw \<times> glfw_window \<Rightarrow> bool outcome" where
  "ShouldClose close_button escape_pressed accept_key_escape s =
     (if win (snd s) = None then Fatal
      else on_window s (\<lambda>w. Return (close_button \<or> (accept_key_escape \<and> escape_pressed))))"

definition OnDrawPre :: "glfw_window \<Rightarrow> glfw_window" where
  "OnDrawPre b = (case clear_color b of (red, green, blue, alpha) \<Rightarrow>
     b\<lparr>gl := emit [ClearColor red green blue alpha, Clear ''COLOR_BUFFER_BIT''] (gl b)\<rparr>)"

definition OnDrawPost :: "glfw \<Rightarrow> glfw_window \<Rightarrow> glfw_window outcome" where
  "OnDrawPost lib b = on_window (lib, b) (\<lambda>w. Return (note_events [SwapBuffers w, PollEvents] b))"

definition glfw_Draw :: "hooks \<Rightarrow> glfw \<times> glfw_window \<Rightarrow> glfw_window outcome" where
  "glfw_Draw hk s =
     (case s of (lib, b) \<Rightarrow>
      if win b = None then Fatal
      else
        case callback b of
          Some cb \<Rightarrow>
            if draw_override cb then Return (note_events [Callback ''OnGlfwDraw''] b)
            else let b = OnDrawPre b in
              bind_outcome (on_draw hk (gl b))
                (\<lambda>p. OnDrawPost lib (note_events [Callback ''OnGlfwDraw''] (b\<lparr>gl := p\<rparr>)))
        | None \<Rightarrow> let b = OnDrawPre b in bind_outcome (on_draw hk (gl b)) (\<lambda>p. OnDrawPost lib (b\<lparr>gl := p\<rparr>)))"

text \<open>\<open>glfwTerminate\<close> destroys every window that is left and ends the library.\<close>

definition glfw_Destroy :: "hooks \<Rightarrow> glfw \<times> glfw_window \<Rightarrow> (glfw \<times> glfw_window) outcome" where
  "glfw_Destroy hk s =
     (case s of (lib, b) \<Rightarrow>
      if win b = None then Return (lib, b)
      else bind_outcome (on_destroy hk (gl b)) (\<lambda>p.
        let b = b\<lparr>gl := p\<rparr>;
            b = (if callback b \<noteq> None then note_events [Callback ''OnGlfwDestory''] b else b)
        in on_window (lib, b) (\<lambda>w.
          Return (lib\<lparr>open_windows := {}, glfw_initialised := False\<rparr>,
            (note_events [GlfwDestroyWindow w, GlfwTerminate] b)\<lparr>win := None\<rparr>))))"

section \<open>Run\<close>

text \<open>The steps of a thread in \<open>Run\<close>: it opens the window, it finds it open and draws once (the frame that the other
  threads have left in \<open>frame_\<close> is part of the action), it finds it closed and destroys it.\<close>

datatype run_action =
    OpenWindow init_params
  | DrawTurn "frame option"
  | CloseWindow

definition run_action :: "glfw_env \<Rightarrow> hooks \<Rightarrow> bool \<Rightarrow> run_action \<Rightarrow> glfw \<times> glfw_window \<Rightarrow> (glfw \<times> glfw_window) outcome" where
  "run_action env hk run_callback a s =
     (case a of
        OpenWindow params \<Rightarrow> bind_outcome (glfw_Init env hk params s)
          (\<lambda>(w, lib, b). Return (lib, if w = None then b\<lparr>exit_code := Some 1\<rparr> else b))
      | DrawTurn f \<Rightarrow> bind_outcome (ShouldClose False False True s) (\<lambda>_. case s of (lib, b) \<Rightarrow>
          let b = (if run_callback then note_events [RunCallback] b else b)
          in bind_outcome (glfw_Draw hk (lib, b\<lparr>gl := Update f (gl b)\<rparr>)) (\<lambda>b. Return (lib, b)))
      | CloseWindow \<Rightarrow> bind_outcome (ShouldClose True False True s) (\<lambda>_.
          bind_outcome (glfw_Destroy hk s) (\<lambda>(lib, b). Return (lib, b\<lparr>exit_code := Some 0\<rparr>))))"

fun run_actions :: "glfw_env \<Rightarrow> hooks \<Rightarrow> bool \<Rightarrow> run_action list \<Rightarrow> glfw \<times> glfw_window \<Rightarrow> (glfw \<times> glfw_window) outcome" where
  "run_actions env hk cb [] s = Return s"
| "run_actions env hk cb (a # as) s = bind_outcome (run_action env hk cb a s) (run_actions env hk cb as)"

text \<open>\<open>Run(params)\<close> in which the loop turns once for each of \<open>fs\<close>.\<close>

definition Run :: "glfw_env \<Rightarrow> hooks \<Rightarrow> init_params \<Rightarrow> bool \<Rightarrow> frame option list \<Rightarrow> glfw \<times> glfw_window \<Rightarrow> (glfw \<times> glfw_window) outcome" where
  "Run env hk params cb fs s =
     bind_outcome (run_action env hk cb (OpenWindow params) s) (\<lambda>s.
       if exit_code (snd s) \<noteq> None then Return s
       else run_actions env hk cb (map DrawTurn fs @ [CloseWindow]) s)"

section \<open>Several windows\<close>

text \<open>The windows of a process, by thread.\<close>

record glfw_system =
  library :: glfw
  windows :: "nat \<Rightarrow> glfw_window"

definition at_window :: "glfw_env \<Rightarrow> (nat \<Rightarrow> hooks) \<Rightarrow> nat \<times> run_action \<Rightarrow> glfw_system \<Rightarrow> glfw_system outcome" where
  "at_window env hk ia sys =
     (case ia of (i, a) \<Rightarrow> bind_outcome (run_action env (hk i) False a (library sys, windows sys i))
       (\<lambda>(lib, b). Return \<lparr>library = lib, windows = (windows sys)(i := b)\<rparr>))"

fun at_windows :: "glfw_env \<Rightarrow> (nat \<Rightarrow> hooks) \<Rightarrow> (nat \<times> run_action) list \<Rightarrow> glfw_system \<Rightarrow> glfw_system outcome" where
  "at_windows env hk [] sys = Return sys"
| "at_windows env hk (ia # ias) sys = bind_outcome (at_window env hk ia sys) (at_windows env hk ias)"


section \<open>One window\<close>

definition opening_events :: "init_params \<Rightarrow> nat \<Rightarrow> glfw_event list" where
  "opening_events params w = [WindowHint ''GLFW_SAMPLES'' 4, WindowHint ''GLFW_CONTEXT_VERSION_MAJOR'' 3,
     WindowHint ''GLFW_CONTEXT_VERSION_MINOR'' 0,
     CreateWindow (param_width (DefaultInitParams params)) (param_height (DefaultInitParams params))
       (param_title (DefaultInitParams params)),
     MakeContextCurrent w, SetFramebufferSizeCallback w, StickyKeys w, SwapInterval 1]"

definition turn_events :: "bool \<Rightarrow> nat \<Rightarrow> glfw_event list" where
  "turn_events run_callback w = (if run_callback then [RunCallback] else []) @ [SwapBuffers w, PollEvents]"

lemma Open_run:
  assumes "init_ok env" "create_ok env" "win b = None" "callback b = None"
  shows "run_action env hk cb (OpenWindow params) (lib, b) =
    bind_outcome (on_init hk (gl b)) (\<lambda>p.
      Return (lib\<lparr>glfw_initialised := True, open_windows := insert (next_window lib) (open_windows lib),
          next_window := Suc (next_window lib)\<rparr>,
        b\<lparr>win := Some (next_window lib), glsl_version := ''#version 130'', gl := p,
          window_events := window_events b @ opening_events params (next_window lib)\<rparr>))"
  using assms
  by (cases "on_init hk (gl b)")
    (simp_all add: run_action_def glfw_Init_def before_create_def window_created_def OnWindowBeforeCreate_def
      OnWindowCreated_def note_events_def opening_events_def Let_def)

definition draw_prelude :: "glfw_window \<Rightarrow> gl_call list" where
  "draw_prelude b = (case clear_color b of (red, green, blue, alpha) \<Rightarrow>
     [ClearColor red green blue alpha, Clear ''COLOR_BUFFER_BIT''])"

lemma Turn_run:
  assumes "win b = Some w" "w \<in> open_windows lib" "callback b = None"
  shows "run_action env hk cb (DrawTurn f) (lib, b) =
    bind_outcome (on_draw hk (emit (draw_prelude b) (Update f (gl b)))) (\<lambda>p.
      Return (lib, b\<lparr>gl := p, window_events := window_events b @ turn_events cb w\<rparr>))"
  using assms
  by (cases "on_draw hk (emit (draw_prelude b) (Update f (gl b)))"; cases "clear_color b")
    (simp_all add: run_action_def ShouldClose_def on_window_def glfw_Draw_def OnDrawPre_def OnDrawPost_def draw_prelude_def
      note_events_def turn_events_def Let_def)

lemma Close_run:
  assumes "win b = Some w" "w \<in> open_windows lib" "callback b = None"
  shows "run_action env hk cb CloseWindow (lib, b) = bind_outcome (on_destroy hk (gl b)) (\<lambda>p.
     Return (lib\<lparr>open_windows := {}, glfw_initialised := False\<rparr>,
       b\<lparr>gl := p, win := None, window_events := window_events b @ [GlfwDestroyWindow w, GlfwTerminate], exit_code := Some 0\<rparr>))"
  using assms
  by (cases "on_destroy hk (gl b)")
    (simp_all add: run_action_def ShouldClose_def on_window_def glfw_Destroy_def note_events_def Let_def)

text \<open>The images of the frames that are there when the window is drawn.\<close>

fun planes_of :: "frame option list \<Rightarrow> (int \<times> int \<times> byte list) list" where
  "planes_of [] = []"
| "planes_of (None # fs) = planes_of fs"
| "planes_of (Some f # fs) = [(frame_width f, frame_height f, y_plane f),
     (frame_width f div 2, frame_height f div 2, u_plane f),
     (frame_width f div 2, frame_height f div 2, v_plane f)] @ planes_of fs"

definition drawable :: "frame option \<Rightarrow> bool" where
  "drawable f \<longleftrightarrow> (\<forall>x. f = Some x \<longrightarrow> aligned x)"

lemma OnDraw_drawable:
  assumes "textures_are p y u v" and "drawable f"
  shows "\<exists>cs. OnDraw (emit ds (Update f p)) = Return (emit (ds @ cs) (Update f p)) \<and>
    uploads cs = planes_of [f] \<and> (\<forall>s. fold track cs s = s)"
proof (cases f)
  case None
  then show ?thesis
    by (intro exI [of _ "[BindVertexArray (vao p), DrawArrays ''TRIANGLE_STRIP'' 0 4]"])
      (simp add: OnDraw_def OnDraw_seen_def Update_def)
next
  case (Some x)
  have "textures_are (emit ds (Update f p)) y u v" using assms(1) by (simp add: textures_are_def Update_def)
  from OnDraw_aligned [OF this, of x] assms(2) Some show ?thesis
    by (intro exI [of _ "plane_calls ''RED'' x y u v @ [BindVertexArray (vao p), DrawArrays ''TRIANGLE_STRIP'' 0 4]"])
      (simp add: plane_calls_run Update_def drawable_def)
qed

definition same_objects :: "native_gl \<Rightarrow> native_gl \<Rightarrow> bool" where
  "same_objects p q \<longleftrightarrow> shader q = shader p \<and> vao q = vao p \<and> vbo q = vbo p \<and> texture_y q = texture_y p \<and>
     texture_u q = texture_u p \<and> texture_v q = texture_v p \<and> live (gl_calls q) = live (gl_calls p)"

lemma turns_run:
  assumes "win b = Some w" "w \<in> open_windows lib" "callback b = None"
    and "textures_are (gl b) y u v" and "list_all drawable fs"
  shows "\<exists>p. run_actions env (frame_hooks nenv) cb (map DrawTurn fs) (lib, b) =
      Return (lib, b\<lparr>gl := p, window_events := window_events b @ concat (replicate (length fs) (turn_events cb w))\<rparr>) \<and>
    same_objects (gl b) p \<and> uploads (gl_calls p) = uploads (gl_calls (gl b)) @ planes_of fs"
  using assms
proof (induction fs arbitrary: b)
  case Nil
  then show ?case by (intro exI [of _ "gl b"]) (simp add: same_objects_def)
next
  case (Cons f fs)
  have "drawable f" using Cons.prems(5) by simp
  from OnDraw_drawable [OF Cons.prems(4) this, where ds = "draw_prelude b"] obtain cs where
    cs: "OnDraw (emit (draw_prelude b) (Update f (gl b))) = Return (emit (draw_prelude b @ cs) (Update f (gl b)))"
      "uploads cs = planes_of [f]" "\<forall>s. fold track cs s = s" by blast
  define q where "q = emit (draw_prelude b @ cs) (Update f (gl b))"
  define b' where "b' = b\<lparr>gl := q, window_events := window_events b @ turn_events cb w\<rparr>"
  have q: "same_objects (gl b) q" "uploads (gl_calls q) = uploads (gl_calls (gl b)) @ planes_of [f]"
    using cs(2,3) by (cases "clear_color b"; simp add: q_def same_objects_def Update_def draw_prelude_def)+
  have turn: "run_action env (frame_hooks nenv) cb (DrawTurn f) (lib, b) = Return (lib, b')"
    using Turn_run [OF Cons.prems(1-3)] cs(1) by (simp add: frame_hooks_def b'_def q_def)
  have "textures_are (gl b') y u v"
    using q(1) Cons.prems(4) by (simp add: b'_def textures_are_def same_objects_def)
  from Cons.IH [of b'] this Cons.prems obtain p where
    p: "run_actions env (frame_hooks nenv) cb (map DrawTurn fs) (lib, b') =
        Return (lib, b'\<lparr>gl := p, window_events := window_events b' @ concat (replicate (length fs) (turn_events cb w))\<rparr>)"
      "same_objects (gl b') p" "uploads (gl_calls p) = uploads (gl_calls (gl b')) @ planes_of fs"
    by (auto simp: b'_def)
  show ?case
    using turn p q by (cases f) (auto simp: b'_def same_objects_def intro!: exI [of _ p])
qed

lemma run_actions_append:
  "run_actions env hk cb (as @ bs) s = bind_outcome (run_actions env hk cb as s) (run_actions env hk cb bs)"
proof (induction as arbitrary: s)
  case (Cons a as)
  then have "run_actions env hk cb (as @ bs) = (\<lambda>s. bind_outcome (run_actions env hk cb as s) (run_actions env hk cb bs))"
    by (intro ext)
  then show ?case by (simp add: bind_outcome_assoc)
qed simp

section \<open>Properties\<close>

definition sample_glfw_env :: glfw_env where
  "sample_glfw_env = \<lparr>init_ok = True, create_ok = True\<rparr>"

definition sample_params :: init_params where
  "sample_params = \<lparr>param_width = 8, param_height = 0, param_title = ''a''\<rparr>"

text \<open>A window runs until it is closed: it is opened with the parameters, defaults for those missing, then turn by
  turn the frame that is there is uploaded and shown, and at the end the window is destroyed, GLFW is terminated and 0 is
  returned.  Of the GL objects the window made, its three textures are left undeleted.\<close>

lemma window_runs_until_closed:
  assumes "init_ok env" "create_ok env" "glew_ok nenv" and "list_all drawable fs"
  shows "\<exists>lib' b. Run env (frame_hooks nenv) params cb fs (lib, GlfwBase (OpenGLPlayer n [])) = Return (lib', b) \<and>
    exit_code b = Some 0 \<and> win b = None \<and> open_windows lib' = {} \<and> \<not> glfw_initialised lib' \<and>
    window_events b = opening_events params (next_window lib) @ concat (replicate (length fs) (turn_events cb (next_window lib))) @
      [GlfwDestroyWindow (next_window lib), GlfwTerminate] \<and>
    uploads (gl_calls (gl b)) = planes_of fs \<and>
    live (gl_calls (gl b)) = GlTexture ` {n + 5, n + 6, n + 7}"
proof -
  let ?w = "next_window lib"
  define b0 where "b0 = GlfwBase (OpenGLPlayer n [])"
  define p where "p = OnInit nenv (gl b0)"
  obtain cs where p: "p = (OpenGLPlayer n [])\<lparr>shader := Some (n + 2), vao := n + 3, vbo := n + 4, texture_y := Some (n + 5),
      texture_u := Some (n + 6), texture_v := Some (n + 7), fresh_name := n + 8, gl_calls := cs\<rparr>" "uploads cs = []"
      "fold track cs {} = {GlProgram (n + 2), GlArray (n + 3), GlBuffer (n + 4), GlTexture (n + 5), GlTexture (n + 6), GlTexture (n + 7)}"
    using set_up_run [of nenv frame_vertex_source frame_fragment_source "OpenGLPlayer n []"] assms(3)
    by (auto simp: p_def b0_def GlfwBase_def OnInit_def OpenGLPlayer_def)
  define lib1 where "lib1 = lib\<lparr>glfw_initialised := True, open_windows := insert ?w (open_windows lib), next_window := Suc ?w\<rparr>"
  define b1 where "b1 = b0\<lparr>win := Some ?w, glsl_version := ''#version 130'', gl := p, window_events := opening_events params ?w\<rparr>"
  have opened: "run_action env (frame_hooks nenv) cb (OpenWindow params) (lib, b0) = Return (lib1, b1)"
    using assms(1,2) by (simp add: Open_run b0_def GlfwBase_def frame_hooks_def lib1_def b1_def p_def)
  have b1: "win b1 = Some ?w" "?w \<in> open_windows lib1" "callback b1 = None" "textures_are (gl b1) (n + 5) (n + 6) (n + 7)"
    "exit_code b1 = None"
    using p(1) by (simp_all add: b1_def b0_def GlfwBase_def lib1_def textures_are_def)
  obtain q where turns: "run_actions env (frame_hooks nenv) cb (map DrawTurn fs) (lib1, b1) =
        Return (lib1, b1\<lparr>gl := q, window_events := window_events b1 @ concat (replicate (length fs) (turn_events cb ?w))\<rparr>)"
      and q: "same_objects p q" "uploads (gl_calls q) = planes_of fs"
  proof -
    have "gl b1 = p" "uploads (gl_calls p) = []" using p(1,2) by (simp_all add: b1_def)
    with turns_run [OF b1(1-4) assms(4), of env nenv cb] that show thesis by auto
  qed
  have "live (gl_calls q) = {GlProgram (n + 2), GlArray (n + 3), GlBuffer (n + 4), GlTexture (n + 5), GlTexture (n + 6), GlTexture (n + 7)}"
    using q(1) p by (simp add: same_objects_def live_def)
  moreover have "shader q = Some (n + 2)" "vao q = n + 3" "vbo q = n + 4" using q(1) p(1) by (simp_all add: same_objects_def)
  ultimately show ?thesis
    using opened turns b1 q(2) unfolding b0_def [symmetric] Run_def
    by (simp add: run_actions_append Close_run frame_hooks_def OnDestroy_def delete_at_def b1_def)
qed

text \<open>If GLEW does not initialise, \<open>OnInit\<close> only logs it and returns, and \<open>Run\<close> goes on with a null shader and null
  textures: whatever is drawn and whenever the window is closed, it ends in a null dereference, at the first frame or else
  when the window is destroyed.\<close>

lemma failed_glew_crashes:
  assumes "init_ok env" "create_ok env" "\<not> glew_ok nenv"
  shows "Run env (frame_hooks nenv) params cb fs (lib, GlfwBase (OpenGLPlayer n [])) = OutOfBounds"
proof -
  let ?w = "next_window lib"
  define lib1 where "lib1 = lib\<lparr>glfw_initialised := True, open_windows := insert ?w (open_windows lib), next_window := Suc ?w\<rparr>"
  have "run_actions env (frame_hooks nenv) cb (map DrawTurn fs @ [CloseWindow]) (lib1, b) = OutOfBounds"
    if "win b = Some ?w" "callback b = None" "shader (gl b) = None" "texture_y (gl b) = None" for b
    using that
  proof (induction fs arbitrary: b)
    case Nil
    then show ?case by (simp add: Close_run lib1_def frame_hooks_def OnDestroy_def delete_at_def)
  next
    case (Cons f fs)
    then show ?case
      by (cases f) (simp_all add: Turn_run lib1_def frame_hooks_def OnDraw_def OnDraw_seen_def Update_def fill_frame_def
        Fill_def Let_def)
  qed
  then show ?thesis
    using assms by (simp add: Run_def Open_run GlfwBase_def frame_hooks_def OnInit_def lib1_def OpenGLPlayer_def)
qed

text \<open>A thread that is in the loop of \<open>Run\<close>.\<close>

definition in_loop :: "glfw_window \<Rightarrow> bool" where
  "in_loop b \<longleftrightarrow> win b \<noteq> None \<and> exit_code b = None"

text \<open>GLFW is terminated with the first window that is closed, which destroys the windows of the other threads: the next
  time one of them draws, or is closed, it uses a window that no longer exists.\<close>

lemma closing_one_window_breaks_the_others:
  assumes "in_loop (windows sys i)" "in_loop (windows sys j)" "i \<noteq> j"
    and "at_window env hk (i, CloseWindow) sys = Return sys'"
  shows "at_window env hk (j, DrawTurn f) sys' = OutOfBounds \<and> at_window env hk (j, CloseWindow) sys' = OutOfBounds"
proof -
  have "open_windows (library sys') = {}"
    using assms(1,4) by (auto simp: at_window_def run_action_def glfw_Destroy_def on_window_def in_loop_def ShouldClose_def
        bind_outcome_eq_Return Let_def split: if_splits option.splits)
  moreover have "windows sys' j = windows sys j"
    using assms(3,4) by (auto simp: at_window_def bind_outcome_eq_Return)
  ultimately show ?thesis
    using assms(2) by (auto simp: at_window_def run_action_def ShouldClose_def on_window_def in_loop_def)
qed

end
