(* ===== verification/UiMain.thy ===== *)
theory UiMain imports StreamThread Glfw begin

text \<open>
  \<open>rtsp-local-player/main_ui_with_opengl.cc\<close>: the program that plays a stream in a window of its own.  The thread
  of the stream (theory \<open>StreamThread\<close>) reports events, a callback hands its frames to the window (theory \<open>Glfw\<close>), and
  \<open>main\<close> opens the window once the first frame has come.
\<close>

section \<open>Options\<close>

definition ui_video_options :: "stream_video_options \<Rightarrow> stream_video_options" where
  "ui_video_options opts =
     (let opts = (if \<not> sws_enable opts then opts\<lparr>sws_enable := True\<rparr> else opts)
      in if sws_dst_pix_fmt opts \<noteq> AV_PIX_FMT_YUV420P \<and> sws_dst_pix_fmt opts \<noteq> AV_PIX_FMT_YUVJ420P
         then opts\<lparr>sws_dst_pix_fmt := AV_PIX_FMT_YUV420P\<rparr> else opts)"

section \<open>Frames in memory\<close>

text \<open>An \<open>AVFrame\<close> belongs to an operation of a stream, which decodes every frame into it and frees it when the stream is
  destroyed.  Its address is the number of the stream, counting those that the thread has opened, and the media type.
  The store maps the addresses of the \<open>AVFrame\<close>s that exist to what they hold.\<close>

type_synonym frame_ref = "nat \<times> cint"
type_synonym 'p store = "frame_ref \<rightharpoonup> 'p av_frame"

definition deref :: "'p store \<Rightarrow> frame_ref \<Rightarrow> 'p av_frame outcome" where
  "deref h a = (case h a of None \<Rightarrow> OutOfBounds | Some f \<Rightarrow> Return f)"

definition destroy_stream :: "nat \<Rightarrow> 'p store \<Rightarrow> 'p store" where
  "destroy_stream n h = h |` {a. fst a \<noteq> n}"

text \<open>What the thread has done to the store when it reports an event of its stream \<open>n\<close>: \<open>GetFrame\<close> has filled the
  operation's \<open>AVFrame\<close>; the error and the loop are reported by the \<open>catch\<close> clause, where leaving the \<open>try\<close> block has
  destroyed the stream; \<open>Close\<close> has freed its operations.\<close>

fun frame_memory :: "nat \<Rightarrow> 'p stream_event \<Rightarrow> 'p store \<Rightarrow> 'p store" where
  "frame_memory n (EvFrame ty f) h = h((n, ty) \<mapsto> f)"
| "frame_memory n EvLoop h = destroy_stream n h"
| "frame_memory n (EvError e) h = destroy_stream n h"
| "frame_memory n EvClosed h = destroy_stream n h"
| "frame_memory n _ h = h"

section \<open>The event callback\<close>

text \<open>\<open>ui_frame\<close> is the pointer that the window draws from.\<close>

record ui_state =
  frame_first_got :: bool
  frame_first :: "frame_ref option"
  ui_frame :: "frame_ref option"

definition ui_start :: ui_state where
  "ui_start = \<lparr>frame_first_got = False, frame_first = None, ui_frame = None\<rparr>"

fun on_stream_event :: "nat \<Rightarrow> 'p stream_event \<Rightarrow> ui_state \<Rightarrow> ui_state" where
  "on_stream_event n (EvFrame ty f) u =
     (let u = u\<lparr>ui_frame := Some (n, ty)\<rparr>
      in if \<not> frame_first_got u then u\<lparr>frame_first_got := True, frame_first := Some (n, ty)\<rparr> else u)"
| "on_stream_event n EvLoop u = u\<lparr>ui_frame := None\<rparr>"
| "on_stream_event n (EvError e) u = u"
| "on_stream_event n _ u = u"

section \<open>main\<close>

text \<open>After the wait for the first frame: what the window is opened with, or what \<open>main\<close> returns at once.  The size is
  read through the pointer to the first frame.\<close>

definition ui_main :: "stream_options \<Rightarrow> 'p store \<Rightarrow> ui_state \<Rightarrow> (int + init_params) outcome" where
  "ui_main opts h u =
     (if frame_first_got u then
        (case frame_first u of
           None \<Rightarrow> OutOfBounds
         | Some a \<Rightarrow> bind_outcome (deref h a) (\<lambda>f. Return (Inr
             \<lparr>param_width = av_frame.frame_width f, param_height = av_frame.frame_height f, param_title = input_url opts\<rparr>)))
      else Return (Inl 0))"


section \<open>The program\<close>

text \<open>A step of the stream's thread: its new events, each with its effect on the store, go to the callback.  While the
  window is open \<open>main\<close> does not stop the thread.\<close>

type_synonym ('c, 'u, 'p) ui_program = "('c, 'u, 'p) thread \<times> 'p store \<times> ui_state"

definition ui_event :: "nat \<Rightarrow> 'p stream_event \<Rightarrow> 'p store \<times> ui_state \<Rightarrow> 'p store \<times> ui_state" where
  "ui_event n e s = (case s of (h, u) \<Rightarrow> (frame_memory n e h, on_stream_event n e u))"

definition ui_step :: "('c, 'u, 'p) thread_env \<Rightarrow> int \<Rightarrow> ('c, 'u, 'p) ui_program \<Rightarrow> ('c, 'u, 'p) ui_program" where
  "ui_step env now x =
     (case x of (t, s) \<Rightarrow>
      let t' = Run_step env now t in (t', fold (ui_event (opens t')) (drop (length (events t)) (events t')) s))"

fun ui_steps :: "('c, 'u, 'p) thread_env \<Rightarrow> int list \<Rightarrow> ('c, 'u, 'p) ui_program \<Rightarrow> ('c, 'u, 'p) ui_program" where
  "ui_steps env [] x = x"
| "ui_steps env (now # nows) x = ui_steps env nows (ui_step env now x)"

definition ui_launch :: "stream_options \<Rightarrow> int \<Rightarrow> 'u \<Rightarrow> ('c, 'u, 'p) ui_program" where
  "ui_launch opts freq u = (snd (thread_Start opts freq (StreamThread opts u)), Map.empty, ui_start)"

section \<open>Lemmas\<close>

text \<open>The frames since the stream was last started over.\<close>

fun since_loop :: "'p stream_event \<Rightarrow> 'p av_frame list \<Rightarrow> 'p av_frame list" where
  "since_loop (EvFrame ty f) fs = fs @ [f]"
| "since_loop EvLoop fs = []"
| "since_loop _ fs = fs"

definition frames_since_loop :: "'p stream_event list \<Rightarrow> 'p av_frame list" where
  "frames_since_loop es = fold since_loop es []"

text \<open>Events that leave the stream open.\<close>

definition stays_open :: "'p stream_event \<Rightarrow> bool" where
  "stays_open e \<longleftrightarrow> (case e of EvLoop \<Rightarrow> False | EvError e \<Rightarrow> False | EvClosed \<Rightarrow> False | _ \<Rightarrow> True)"

lemma get_frames_stay_open: "get_frames ff pkt tys s = (es, r, s') \<Longrightarrow> list_all stays_open es"
  by (induction ff pkt tys s arbitrary: es r s' rule: get_frames.induct)
    (auto simp: stays_open_def split: prod.splits call.splits option.splits)

lemma turn_stays_open: "turn env s u = (es, u', r, s') \<Longrightarrow> list_all stays_open es"
  by (auto simp: turn_def poll_def stays_open_def split: option.splits prod.splits call.splits
      dest!: get_frames_stay_open)

text \<open>While stream \<open>n\<close> is open the store holds \<open>AVFrame\<close>s of that stream only, and the window's pointer leads to the last
  frame; once it is destroyed there are none.\<close>

definition live_frames :: "nat \<Rightarrow> 'p av_frame list \<Rightarrow> 'p store \<times> ui_state \<Rightarrow> bool" where
  "live_frames n fs s \<longleftrightarrow> (case s of (h, u) \<Rightarrow>
     (\<forall>k ty f. h (k, ty) = Some f \<longrightarrow> k = n) \<and>
     (if fs = [] then ui_frame u = None else \<exists>a. ui_frame u = Some a \<and> h a = Some (last fs)) \<and>
     (\<forall>k ty. frame_first u = Some (k, ty) \<longrightarrow> k \<le> n \<and> (k = n \<longrightarrow> h (k, ty) \<noteq> None)) \<and>
     (frame_first_got u \<longleftrightarrow> frame_first u \<noteq> None))"

definition dead_frames :: "nat \<Rightarrow> 'p av_frame list \<Rightarrow> 'p store \<times> ui_state \<Rightarrow> bool" where
  "dead_frames n fs s \<longleftrightarrow> (case s of (h, u) \<Rightarrow>
     h = Map.empty \<and> (ui_frame u = None \<longleftrightarrow> fs = []) \<and> (\<forall>k ty. frame_first u = Some (k, ty) \<longrightarrow> k \<le> n) \<and>
     (frame_first_got u \<longleftrightarrow> frame_first u \<noteq> None))"

definition ui_inv :: "('c, 'u, 'p) ui_program \<Rightarrow> bool" where
  "ui_inv x \<longleftrightarrow> (case x of (t, s) \<Rightarrow>
     (case pc t of
        InLoop st r \<Rightarrow> live_frames (opens t) (frames_since_loop (events t)) s
      | Crashed \<Rightarrow> live_frames (opens t) (frames_since_loop (events t)) s
      | Finished \<Rightarrow> dead_frames (opens t) (frames_since_loop (events t)) s \<and> (\<exists>e. last (events t) = EvError e)
      | _ \<Rightarrow> dead_frames (opens t) [] s \<and> frames_since_loop (events t) = []) \<and>
     (pc t \<noteq> Finished \<longrightarrow> is_running t))"

lemma live_event:
  assumes "live_frames n fs s" and "stays_open e"
  shows "live_frames n (since_loop e fs) (ui_event n e s)"
proof -
  obtain h u where s: "s = (h, u)" by (cases s)
  show ?thesis
  proof (cases e)
    case (EvFrame ty f)
    then show ?thesis using assms(1) by (cases "frame_first_got u") (auto simp: s live_frames_def ui_event_def)
  qed (use assms in \<open>auto simp: s live_frames_def ui_event_def stays_open_def\<close>)
qed

lemma live_events:
  "live_frames n fs s \<Longrightarrow> list_all stays_open es \<Longrightarrow> live_frames n (fold since_loop es fs) (fold (ui_event n) es s)"
  by (induction es arbitrary: fs s) (simp_all add: live_event)

lemma dead_opens: "dead_frames n [] s \<Longrightarrow> live_frames (Suc n) [] s"
  by (auto simp: dead_frames_def live_frames_def)

lemma live_ends:
  assumes "live_frames n fs s"
  shows "dead_frames n [] (ui_event n EvLoop s)" "dead_frames n fs (ui_event n (EvError e) s)"
proof -
  obtain h u where s: "s = (h, u)" by (cases s)
  have "h (k, ty) = None" if "k \<noteq> n" for k ty
    using assms that by (cases "h (k, ty)") (auto simp: s live_frames_def)
  then have "destroy_stream n h = Map.empty" by (auto simp: destroy_stream_def restrict_map_def fun_eq_iff)
  then show "dead_frames n [] (ui_event n EvLoop s)" "dead_frames n fs (ui_event n (EvError e) s)"
    using assms by (auto simp: s live_frames_def dead_frames_def ui_event_def split: if_splits)
qed

lemma frames_since_loop_append: "frames_since_loop (es @ fs) = fold since_loop fs (frames_since_loop es)"
  by (simp add: frames_since_loop_def)

text \<open>The end of a stream, whose events \<open>es\<close> came before it.\<close>

lemma ui_inv_fail:
  assumes "event_cb env" and "live_frames n (frames_since_loop (events t)) s" and "list_all stays_open es"
    and "opens t' = n" "events t' = events t @ es" "is_running t'"
  shows "ui_inv (fail env e st t', fold (ui_event n) (drop (length (events t)) (events (fail env e st t'))) s)"
proof -
  have live: "live_frames n (fold since_loop es (frames_since_loop (events t))) (fold (ui_event n) es s)"
    using live_events [OF assms(2,3)] .
  show ?thesis
    using assms(1,4-6) live_ends [OF live]
    by (auto simp: ui_inv_def fail_def dispatch_def Let_def frames_since_loop_append)
qed

lemma ui_step_inv:
  fixes x :: "('c, 'u, 'p) ui_program"
  assumes "event_cb env" and "ui_inv x"
  shows "ui_inv (ui_step env now x)"
proof -
  obtain t s where x: "x = (t, s)" by (cases x)
  consider (open_it) "pc t = AtOpen" | (loop) st r where "pc t = InLoop st r" | (idle) "\<forall>st r. pc t \<noteq> InLoop st r" "pc t \<noteq> AtOpen"
    by (cases "pc t") auto
  then show ?thesis
  proof cases
    case idle
    then have "Run_step env now t = t" by (auto simp: Run_step_def split: thread_pc.split)
    then show ?thesis using assms(2) by (simp add: x ui_step_def)
  next
    case open_it
    then have dead: "dead_frames (opens t) [] s" "frames_since_loop (events t) = []" "is_running t"
      using assms(2) by (simp_all add: x ui_inv_def)
    have live: "live_frames (Suc (opens t)) (frames_since_loop (events t)) s" unfolding dead(2) using dead_opens [OF dead(1)] .
    obtain r st where o: "stream_Open (libformat env) (opens t) (th_options t) (new_stream :: 'c stream) = (r, st)" by fastforce
    let ?t = "(dispatch env [EvOpen] t)\<lparr>opens := Suc (opens t)\<rparr>"
    have one: "live_frames (Suc (opens t)) [] (ui_event (Suc (opens t)) EvOpen s)"
      "live_frames (Suc (opens t)) [] (ui_event (Suc (opens t)) EvOpened (ui_event (Suc (opens t)) EvOpen s))"
      using live_events [OF live, of "[EvOpen]"] live_events [OF live, of "[EvOpen, EvOpened]"] dead(2)
      by (simp_all add: stays_open_def)
    show ?thesis
    proof (cases r)
      case (Throw e)
      have "ui_inv (fail env e st ?t, fold (ui_event (Suc (opens t))) (drop (length (events t)) (events (fail env e st ?t))) s)"
        using assms(1) dead(3) by (intro ui_inv_fail [OF assms(1) live, where es = "[EvOpen]"]) (simp_all add: stays_open_def dispatch_def)
      moreover have "opens (fail env e st ?t) = Suc (opens t)" by (simp add: fail_def dispatch_def Let_def)
      ultimately show ?thesis using open_it o Throw by (simp add: x ui_step_def Run_step_def run_open_def Let_def)
    qed (use open_it o one assms(1) dead in \<open>simp_all add: x ui_step_def Run_step_def run_open_def ui_inv_def dispatch_def
        frames_since_loop_append Let_def\<close>)
  next
    case (loop st rt)
    then have live: "live_frames (opens t) (frames_since_loop (events t)) s" and run: "is_running t"
      using assms(2) by (simp_all add: x ui_inv_def)
    obtain es us r st' where turn: "turn env st (user t) = (es, us, r, st')" by (metis prod_cases4)
    note stay = turn_stays_open [OF turn]
    let ?t = "(dispatch env es t)\<lparr>user := us\<rparr>"
    have step: "Run_step env now t = (case r of Ok _ \<Rightarrow> ?t\<lparr>pc := InLoop st' (snd (Sleep now rt))\<rparr>
        | Throw e \<Rightarrow> fail env e st' ?t | Undefined \<Rightarrow> ?t\<lparr>pc := Crashed\<rparr>)"
      using loop run turn by (simp add: Run_step_def run_turn_def Let_def)
    show ?thesis
    proof (cases r)
      case (Throw e)
      have "ui_inv (fail env e st' ?t, fold (ui_event (opens t)) (drop (length (events t)) (events (fail env e st' ?t))) s)"
        using assms(1) run by (intro ui_inv_fail [OF assms(1) live stay]) (simp_all add: dispatch_def)
      moreover have "opens (fail env e st' ?t) = opens t" by (simp add: fail_def dispatch_def Let_def)
      ultimately show ?thesis using step Throw by (simp add: x ui_step_def Let_def)
    qed (use step live_events [OF live stay] assms(1) run in \<open>simp_all add: x ui_step_def ui_inv_def dispatch_def
        frames_since_loop_append Let_def\<close>)
  qed
qed

lemma ui_launch_inv: "0 < freq \<Longrightarrow> ui_inv (ui_launch opts freq u)"
  by (simp add: ui_inv_def ui_launch_def thread_Start_def StreamThread_def dead_frames_def ui_start_def frames_since_loop_def)

lemma ui_steps_inv: "event_cb env \<Longrightarrow> ui_inv x \<Longrightarrow> ui_inv (ui_steps env nows x)"
  by (induction nows arbitrary: x) (simp_all add: ui_step_inv)

section \<open>Properties\<close>

text \<open>The size of the window is read through the pointer to the first frame, which \<open>main\<close> follows without a lock: if the
  stream of that frame has ended by then, the memory is freed.  (Without a frame \<open>main\<close> returns 0, though it has
  logged an error.)\<close>

lemma window_size_of_the_first_frame:
  assumes "event_cb env" and "0 < freq" and "ui_steps env nows (ui_launch opts freq u0) = (t, h, u)"
  shows "ui_main opts' h u =
    (case frame_first u of
       None \<Rightarrow> Return (Inl 0)
     | Some a \<Rightarrow> if pc t \<noteq> Finished \<and> pc t \<noteq> AtOpen \<and> pc t \<noteq> NotStarted \<and> fst a = opens t
         then Return (Inr \<lparr>param_width = av_frame.frame_width (the (h a)), param_height = av_frame.frame_height (the (h a)),
           param_title = input_url opts'\<rparr>)
         else OutOfBounds)"
proof -
  have "ui_inv (t, h, u)" using ui_steps_inv [OF assms(1) ui_launch_inv [OF assms(2)]] assms(3) by metis
  then show ?thesis
    by (auto simp: ui_inv_def live_frames_def dead_frames_def ui_main_def deref_def split: thread_pc.splits option.splits)
qed











end
