(* ===== verification/PageFrame.thy ===== *)
theory PageFrame imports Decoder begin

text \<open>
  \<open>ws-wasm-player/src/frame.h\<close>: the frames that the decoder hands to the page.  A \<open>Frame\<close> holds a pointer to
  the one \<open>AVFrame\<close> of the operation that decoded it (the call of \<open>av_frame_clone\<close> is commented out), so
  what it shows is what that \<open>AVFrame\<close> holds when it is read.  The store of \<open>AVFrame\<close>s is explicit; an
  operation's \<open>AVFrame\<close> is named by its media type, as \<open>stream_ops_\<close> is.
\<close>

section \<open>Frames\<close>

definition AVMEDIA_TYPE_UNKNOWN :: cint where "AVMEDIA_TYPE_UNKNOWN = - 1"

record av_picture =
  pic_width :: int
  pic_height :: int
  pic_format :: int
  pic_linesize :: int
  pic_data :: "byte list"            \<comment> \<open>from \<open>data[0]\<close> on\<close>

record page_frame =
  frame_type :: cint
  frame_ptr :: "cint option"            \<comment> \<open>the operation whose \<open>AVFrame\<close> it points to\<close>

definition Frame :: page_frame where
  "Frame = \<lparr>frame_type = AVMEDIA_TYPE_UNKNOWN, frame_ptr = None\<rparr>"

definition Frame_Alloc :: "cint \<Rightarrow> cint \<Rightarrow> page_frame \<Rightarrow> page_frame" where
  "Frame_Alloc type frame f = f\<lparr>frame_type := type, frame_ptr := Some frame\<rparr>"

definition Frame_Free :: "page_frame \<Rightarrow> page_frame" where
  "Frame_Free f = f\<lparr>frame_type := AVMEDIA_TYPE_UNKNOWN, frame_ptr := None\<rparr>"

text \<open>The accessors dereference the pointer.\<close>

definition frame_get :: "(av_picture \<Rightarrow> 'a) \<Rightarrow> (cint \<Rightarrow> av_picture) \<Rightarrow> page_frame \<Rightarrow> 'a outcome" where
  "frame_get field heap f = (case frame_ptr f of None \<Rightarrow> OutOfBounds | Some a \<Rightarrow> Return (field (heap a)))"

text \<open>\<open>size\<close>: \<open>av_image_get_buffer_size\<close> for YUV420P without alignment, the parameter \<open>buffer_size\<close>; \<open>GetBytes\<close> is
  a view of so many bytes.\<close>

definition frame_size :: "(int \<Rightarrow> int \<Rightarrow> int) \<Rightarrow> (cint \<Rightarrow> av_picture) \<Rightarrow> page_frame \<Rightarrow> int outcome" where
  "frame_size buffer_size heap f =
     bind_outcome (frame_get pic_width heap f) (\<lambda>w. bind_outcome (frame_get pic_height heap f) (\<lambda>h.
       Return (buffer_size w h)))"

definition frame_GetBytes :: "(int \<Rightarrow> int \<Rightarrow> int) \<Rightarrow> (cint \<Rightarrow> av_picture) \<Rightarrow> page_frame \<Rightarrow> byte list outcome" where
  "frame_GetBytes buffer_size heap f =
     bind_outcome (frame_size buffer_size heap f) (\<lambda>n. bind_outcome (frame_get pic_data heap f) (\<lambda>data.
       read_at data 0 (nat n)))"

section \<open>Asynchronous decoding over the store\<close>

text \<open>The decoder of \<open>Decoder\<close> with the store, the \<open>Frame\<close>s of \<open>decode_results_\<close> and the pictures that the
  callback saw through them.  \<open>content\<close> gives the picture of a frame the codec numbers.\<close>

record shown =
  heap :: "cint \<Rightarrow> av_picture"
  frames :: "page_frame list"
  seen :: "av_picture list"

definition no_frames :: "(cint \<Rightarrow> av_picture) \<Rightarrow> shown" where
  "no_frames h = \<lparr>heap = h, frames = [], seen = []\<rparr>"

text \<open>The worker: \<open>GetFrame\<close> scales into the operation's \<open>AVFrame\<close>, and \<open>Alloc\<close> points a new \<open>Frame\<close> to it.\<close>

definition frame_decoded :: "(nat \<Rightarrow> av_picture) \<Rightarrow> cint \<Rightarrow> nat \<Rightarrow> shown \<Rightarrow> shown" where
  "frame_decoded content type f s =
     s\<lparr>heap := (heap s)(type := content f), frames := frames s @ [Frame_Alloc type type Frame]\<rparr>"

text \<open>The callbacks in the page's thread.\<close>

definition frame_shown :: "(cint \<Rightarrow> av_picture) \<Rightarrow> page_frame \<Rightarrow> av_picture list" where
  "frame_shown h f = (case frame_ptr f of None \<Rightarrow> [] | Some a \<Rightarrow> [h a])"

definition frames_flushed :: "bool \<Rightarrow> shown \<Rightarrow> shown" where
  "frames_flushed cb s =
     s\<lparr>seen := seen s @ (if cb then concat (map (frame_shown (heap s)) (frames s)) else []), frames := []\<rparr>"

inductive hstep :: "config \<Rightarrow> (nat \<Rightarrow> av_picture) \<Rightarrow> phase \<times> decoder \<times> shown \<Rightarrow> phase \<times> decoder \<times> shown \<Rightarrow> bool"
  for cfg content where
  decoded: "worker d = Batch (Some data # rest) \<Longrightarrow> ThreadRun_step cfg d = Some (Return d') \<Longrightarrow>
    results d' = results d @ [f] \<Longrightarrow> hstep cfg content (ph, d, s) (ph, d', frame_decoded content (media data) f s)"
| flushed: "flushing d \<Longrightarrow> hstep cfg content (Running, d, s) (Running, DecodeAsync_flush d, frames_flushed (has_cb d) s)"
| other: "dstep cfg (ph, d) (ph', d') \<Longrightarrow> results d' = results d \<Longrightarrow> (flushing d \<longrightarrow> flushing d') \<Longrightarrow>
    hstep cfg content (ph, d, s) (ph', d', s)"

inductive hreach :: "config \<Rightarrow> (nat \<Rightarrow> av_picture) \<Rightarrow> decoder \<Rightarrow> (cint \<Rightarrow> av_picture) \<Rightarrow> phase \<times> decoder \<times> shown \<Rightarrow> bool"
  for cfg content d0 h0 where
  start: "hreach cfg content d0 h0 (Running, d0, no_frames h0)"
| step: "hreach cfg content d0 h0 x \<Longrightarrow> hstep cfg content x y \<Longrightarrow> hreach cfg content d0 h0 y"

text \<open>Forgetting the store gives the decoder's own steps.\<close>

lemma hstep_dstep: "hstep cfg content (ph, d, s) (ph', d', s') \<Longrightarrow> dstep cfg (ph, d) (ph', d')"
  by (cases rule: hstep.cases, assumption) (auto intro: dstep.intros)

lemma hreach_dreach: "hreach cfg content d0 h0 (ph, d, s) \<Longrightarrow> dreach cfg d0 (ph, d)"
proof (induction "(ph, d, s)" arbitrary: ph d s rule: hreach.induct)
  case start
  show ?case by (rule dreach.start)
next
  case (step x)
  then show ?case by (cases x) (auto intro: dreach.step dest: hstep_dstep)
qed

text \<open>All pending frames point to the video operation, whose \<open>AVFrame\<close> holds the last picture.\<close>

definition hinv :: "config \<Rightarrow> (nat \<Rightarrow> av_picture) \<Rightarrow> decoder \<times> shown \<Rightarrow> bool" where
  "hinv cfg content x = (case x of (d, s) \<Rightarrow>
     frames s = replicate (length (results d)) (Frame_Alloc AVMEDIA_TYPE_VIDEO AVMEDIA_TYPE_VIDEO Frame) \<and>
     (outputs cfg (fed d) = [] \<longrightarrow> results d = []) \<and>
     (outputs cfg (fed d) \<noteq> [] \<longrightarrow> heap s AVMEDIA_TYPE_VIDEO = content (last (outputs cfg (fed d)))))"

text \<open>What one step of the worker feeds and produces.\<close>

lemma work_outputs:
  assumes "ThreadRun_step cfg d = Some (Return d')"
  shows "results d' = results d \<and> outputs cfg (fed d') = outputs cfg (fed d) \<or>
    (\<exists>data rest f. worker d = Batch (Some data # rest) \<and> media data \<in> dom (stream_ops d) \<and>
       results d' = results d @ [f] \<and> outputs cfg (fed d') = outputs cfg (fed d) @ [f])"
proof (cases "\<exists>data rest. worker d = Batch (Some data # rest) \<and> \<not> decode_stop d")
  case True
  then obtain data rest where w: "worker d = Batch (Some data # rest)" "\<not> decode_stop d" by blast
  then obtain r e where e: "get_frame cfg data d = Return (r, e)"
    and d': "d' = (case r of GotFrame f \<Rightarrow> e\<lparr>results := results e @ [f], worker := Batch rest\<rparr>
        | NoFrame \<Rightarrow> e\<lparr>worker := AtLoop\<rparr> | StreamErr \<Rightarrow> e\<lparr>worker := AtLoop\<rparr>)"
    using assms by (cases "get_frame cfg data d") (auto simp: ThreadRun_step_def)
  obtain ts where "e = d\<lparr>times := ts, fed := fed d @ [data]\<rparr>" "codec cfg (fed d @ [data]) = r" "media data \<in> dom (stream_ops d)"
    using get_frame_cases [OF e] by blast
  then show ?thesis using w d' by (cases r) (auto simp: outputs_snoc)
next
  case False
  then show ?thesis
    using assms by (auto simp: ThreadRun_step_def split: worker.splits list.splits option.splits if_splits)
qed

lemma hinv_step:
  assumes inv: "hinv cfg content (d, s)" and ops: "dom (stream_ops d) \<subseteq> {AVMEDIA_TYPE_VIDEO}"
    and step: "hstep cfg content (ph, d, s) (ph', d', s')"
  shows "hinv cfg content (d', s')"
  using step
proof (cases rule: hstep.cases)
  case (decoded data rest f)
  then have "media data = AVMEDIA_TYPE_VIDEO" "outputs cfg (fed d') = outputs cfg (fed d) @ [f]"
    using work_outputs [OF decoded(4)] ops by auto
  then show ?thesis
    using inv decoded by (simp add: hinv_def frame_decoded_def replicate_append_same flip: replicate_Suc)
next
  case flushed
  then show ?thesis
    using inv by (auto simp: hinv_def frames_flushed_def DecodeAsync_flush_def callback_def Let_def)
next
  case other
  from other(2) have "outputs cfg (fed d') = outputs cfg (fed d)"
  proof (cases rule: dstep.cases)
    case work
    then show ?thesis using work_outputs other(3) by fastforce
  qed (auto simp: DecodeAsync_enqueue_def DecodeAsync_flush_def ThreadStop_flag_def ThreadStop_push_def callback_def
      ThreadStart_same Let_def bind_outcome_eq_Return split: if_splits)
  then show ?thesis using inv other(1,3) by (simp add: hinv_def)
qed

lemma open_subs_video: "dom (open_subs count type subs ops) \<subseteq> insert AVMEDIA_TYPE_VIDEO (dom ops)"
proof (induction subs arbitrary: ops)
  case (Cons sub subs)
  obtain t par where "sub = (t, par)" by (cases sub)
  moreover have "dom (ops(AVMEDIA_TYPE_VIDEO \<mapsto> x)) = insert AVMEDIA_TYPE_VIDEO (dom ops)" for x by simp
  ultimately show ?case using Cons by (simp del: dom_fun_upd fun_upd_apply) (metis insert_absorb2)
qed auto

lemma hinv_reach:
  assumes "hreach cfg content (Open subs q count type l Decoder) h0 (ph, d, s)"
  shows "hinv cfg content (d, s)"
  using assms
proof (induction "(ph, d, s)" arbitrary: ph d s rule: hreach.induct)
  case start
  show ?case by (simp add: hinv_def no_frames_def Open_def Decoder_def outputs_def)
next
  case (step x ph' d' s')
  obtain ph d s where x: "x = (ph, d, s)" by (cases x)
  have "stream_ops d = stream_ops (Open subs q count type l Decoder)"
    using ops_reach [OF hreach_dreach [OF step.hyps(1) [unfolded x]]] by simp
  then have "dom (stream_ops d) \<subseteq> {AVMEDIA_TYPE_VIDEO}"
    using open_subs_video [of count type subs Map.empty] by (simp add: Open_def Decoder_def)
  then show ?case using hinv_step step.hyps(2,3) x by blast
qed

text \<open>Every run of the decoder is one over the store.\<close>

lemma dstep_hstep:
  assumes "dstep cfg (ph, d) (ph', d')"
  shows "\<exists>s'. hstep cfg content (ph, d, s) (ph', d', s')"
  using assms
proof (cases rule: dstep.cases)
  case (enqueue buf)
  then have "results d' = results d"
    by (auto simp: DecodeAsync_enqueue_def ThreadStart_same Let_def bind_outcome_eq_Return split: if_splits)
  then show ?thesis using hstep.other [OF assms] enqueue by auto
next
  case flush
  then show ?thesis using hstep.flushed [OF flush(4)] by blast
next
  case work
  consider "results d' = results d"
    | data rest f where "worker d = Batch (Some data # rest)" "results d' = results d @ [f]"
    using work_outputs [OF work(2)] by blast
  then show ?thesis
  proof cases
    case 1
    have "flushing d' = flushing d"
      using work(2) by (auto simp: ThreadRun_step_def get_frame_def Let_def
          split: worker.splits list.splits option.splits if_splits frame_result.splits)
    then show ?thesis using hstep.other [OF assms 1] by auto
  next
    case 2
    then show ?thesis using hstep.decoded [OF 2(1) work(2) 2(2)] work by blast
  qed
qed (use hstep.other [OF assms] in \<open>auto simp: ThreadStop_flag_def ThreadStop_push_def\<close>)

lemma dreach_hreach: "dreach cfg d0 x \<Longrightarrow> \<exists>s. hreach cfg content d0 h0 (fst x, snd x, s)"
proof (induction rule: dreach.induct)
  case start
  show ?case using hreach.start by fastforce
next
  case (step x y)
  then show ?case using dstep_hstep [of cfg "fst x" "snd x" "fst y" "snd y" content] hreach.step by (metis prod.collapse)
qed

section \<open>Properties\<close>

definition sample_content :: "nat \<Rightarrow> av_picture" where
  "sample_content n = \<lparr>pic_width = 2, pic_height = 2, pic_format = -1, pic_linesize = 2, pic_data = replicate 6 (of_nat n)\<rparr>"

text \<open>C12.  What asynchronous decoding shows.  At the flush of a message, in every interleaving with the worker,
  the callback is called once for each frame decoded since the last one, but all of these frames show the
  same picture: the one decoded last.  The pictures of the frames before it are lost, because all
  frames point to the one \<open>AVFrame\<close> of the operation.\<close>

theorem pending_frames_show_the_last_picture:
  assumes "hreach cfg content (Open subs queue_size count type True Decoder) h0 (ph, d, s)"
  shows "seen (frames_flushed (has_cb d) s) =
    seen s @ replicate (length (results d)) (content (last (outputs cfg (fed d))))"
proof -
  have "has_cb d" using ops_reach [OF hreach_dreach [OF assms]] by (simp add: Open_def)
  moreover have "hinv cfg content (d, s)" using assms by (rule hinv_reach)
  ultimately show ?thesis
    by (cases "results d") (auto simp: hinv_def frames_flushed_def frame_shown_def Frame_Alloc_def map_replicate_const
        concat_replicate_trivial replicate_append_same)
qed

text \<open>A codec that gives a frame for every packet; two key packets are enqueued before the worker runs.\<close>

definition eager_cfg :: config where
  "eager_cfg = sample_cfg\<lparr>codec := \<lambda>h. GotFrame (length h)\<rparr>"

definition two_queued :: decoder where
  "two_queued = (sample_queued sample_decoder)\<lparr>datas := [Some sample_data, Some sample_data]\<rparr>"

lemma two_queued_reach: "dreach eager_cfg sample_decoder (Running, two_queued)"
proof -
  have "dreach eager_cfg sample_decoder (Running, sample_queued sample_decoder)"
    by (rule dreach.step [OF dreach.start], rule dstep.enqueue [where buf = sample_bytes])
      (auto simp: sample_defs eager_cfg_def sample_parse)
  then have "dreach eager_cfg sample_decoder (Running, DecodeAsync_flush (sample_queued sample_decoder))"
    by (rule dreach.step, intro dstep.flush) (simp add: sample_queued_def)
  then show ?thesis
    by (rule dreach.step, intro dstep.enqueue [where buf = sample_bytes])
      (auto simp: two_queued_def DecodeAsync_flush_def callback_def sample_defs eager_cfg_def sample_parse Let_def)
qed

theorem pending_frames_show_the_last_picture_witness:
  "\<exists>(d :: decoder) (s :: shown). results d = [1, 2] \<and> seen (frames_flushed (has_cb d) s) =
    seen s @ replicate (length (results d)) (sample_content (last (outputs eager_cfg (fed d))))"
proof -
  let ?d = "ThreadRun_steps eager_cfg 4 two_queued"
  have "dreach eager_cfg sample_decoder (Running, ?d)" by (intro dreach_work two_queued_reach)
  then obtain s where h: "hreach eager_cfg sample_content sample_decoder (\<lambda>_. sample_content 0) (Running, ?d, s)"
    using dreach_hreach by fastforce
  have "results ?d = [1, 2]"
    by (simp add: two_queued_def sample_defs eager_cfg_def ThreadRun_step_def get_frame_def numeral_eq_Suc
        sample_data_def AVMEDIA_TYPE_VIDEO_def)
  then show ?thesis
    using pending_frames_show_the_last_picture [OF h [unfolded sample_decoder_def]] by blast
qed

end
