(* ===== verification/Browser.thy ===== *)
theory Browser imports WsClient WebGL PageFrame begin

text \<open>
  The page as a whole: the client of \<open>ws_client.js\<close>, the decoder of \<open>decoder.h\<close> and the player of \<open>webgl.js\<close>,
  as they call each other for a message.  The client is told what the decoder does with the bytes, and
  each \<open>player.render(frame)\<close> in its trace draws the frame that was decoded.
\<close>

section \<open>The page\<close>

record browser =
  page_client :: client
  page_decoder :: decoder
  page_gl :: gl_page

text \<open>What the player reads of a frame: \<open>frame.width\<close>, \<open>frame.height\<close> and \<open>frame.bytes\<close>, a view of \<open>size\<close> bytes.\<close>

definition drawn_frame :: "(int \<Rightarrow> int \<Rightarrow> int) \<Rightarrow> av_picture \<Rightarrow> frame" where
  "drawn_frame buffer_size px = \<lparr>frame_width = pic_width px, frame_height = pic_height px,
     frame_bytes = take (nat (buffer_size (pic_width px) (pic_height px))) (pic_data px)\<rparr>"

text \<open>What the native \<open>decode\<close> does with a message, as the client sees it; the callback is always set.\<close>

definition native_decode :: "config \<Rightarrow> byte list \<Rightarrow> decoder \<Rightarrow> native \<times> nat option \<times> decoder" where
  "native_decode cfg data d =
     (case Decode cfg data d of
        Return (f, d') \<Rightarrow> (\<lparr>frames_out = (if f = None then 0 else 1), aborts = False\<rparr>, f, d')
      | _ \<Rightarrow> (\<lparr>frames_out = 0, aborts = True\<rparr>, None, d))"

fun draw_effect :: "(nat \<Rightarrow> frame) \<Rightarrow> nat option \<Rightarrow> effect \<Rightarrow> gl_page \<Rightarrow> gl_page" where
  "draw_effect pic (Some f) (Render player h) g = snd (WebGL.render (pic f) g)"
| "draw_effect pic _ _ g = g"

definition receive :: "env \<Rightarrow> config \<Rightarrow> (nat \<Rightarrow> frame) \<Rightarrow> byte list \<Rightarrow> browser \<Rightarrow> browser" where
  "receive env cfg pic data b =
     (let (nv, f, d) = native_decode cfg data (page_decoder b);
          c = page_client b;
          c' = snd (onmessage env nv 0 data c) in
      \<lparr>page_client = c', page_decoder = d,
       page_gl = fold (draw_effect pic f) (drop (length (trace c)) (trace c')) (page_gl b)\<rparr>)"

definition receive_all :: "env \<Rightarrow> config \<Rightarrow> (nat \<Rightarrow> frame) \<Rightarrow> byte list list \<Rightarrow> browser \<Rightarrow> browser" where
  "receive_all env cfg pic msgs = fold (receive env cfg pic) msgs"

section \<open>One message\<close>

text \<open>A client that is open and plays with a WebGL player, synchronously; its \<open>ondata\<close>, if any, does not throw.\<close>

definition plays :: "env \<Rightarrow> client \<Rightarrow> bool" where
  "plays env c \<longleftrightarrow> decoder c \<noteq> None \<and> get_prop (options c) ''dbg'' = JBool False \<and>
     \<not> truthy (get_prop (options c) ''decode_async'') \<and>
     (\<exists>p. get_prop (options c) ''player'' = JObj p \<and> is_webgl_player env (JObj p) \<and> \<not> render_throws env (JObj p)) \<and>
     (\<not> truthy (get_prop (options c) ''ondata'') \<or>
      (\<exists>f. get_prop (options c) ''ondata'' = JFun f \<and> \<not> throws env f))"

text \<open>The effects of a message: one \<open>Render\<close> for a frame, none without.\<close>

definition is_render :: "effect \<Rightarrow> bool" where
  "is_render e \<longleftrightarrow> (case e of Render player h \<Rightarrow> True | _ \<Rightarrow> False)"

lemma onmessage_plays:
  assumes "plays env c" and "\<not> aborts nv"
  shows "\<exists>es. trace (snd (onmessage env nv now data c)) = trace c @ es \<and> plays env (snd (onmessage env nv now data c)) \<and>
    length (filter is_render es) = (if frames_out nv = 0 then 0 else 1)"
proof -
  obtain d p where c: "decoder c = Some d" "get_prop (options c) ''dbg'' = JBool False"
      "\<not> truthy (get_prop (options c) ''decode_async'')"
    and p: "get_prop (options c) ''player'' = JObj p" "is_webgl_player env (JObj p)" "\<not> render_throws env (JObj p)"
    using assms(1) by (auto simp: plays_def)
  from assms(1) consider "\<not> truthy (get_prop (options c) ''ondata'')"
    | f where "get_prop (options c) ''ondata'' = JFun f" "\<not> throws env f"
    by (auto simp: plays_def)
  then show ?thesis
    by cases (use c p assms in \<open>auto simp: client_simps onmessage_def with_buffer_def decode_buffer_def decode_def
        new_frame_def ondecode_def WsClient.render_def delete_frame_def is_render_def plays_def\<close>)
qed

lemma draw_effects:
  "fold (draw_effect pic f) es g =
     (case f of None \<Rightarrow> g | Some x \<Rightarrow> ((\<lambda>g. snd (WebGL.render (pic x) g)) ^^ length (filter is_render es)) g)"
proof (induction es arbitrary: g)
  case (Cons e es)
  then show ?case by (cases f; cases e) (simp_all add: is_render_def funpow_Suc_right del: funpow.simps(2))
qed (simp split: option.split)

lemma receive_decoded:
  assumes "plays env (page_client b)" and "Decode cfg data (page_decoder b) = Return (f, d)"
  shows "plays env (page_client (receive env cfg pic data b)) \<and> page_decoder (receive env cfg pic data b) = d \<and>
    page_gl (receive env cfg pic data b) = (case f of None \<Rightarrow> page_gl b | Some x \<Rightarrow> snd (WebGL.render (pic x) (page_gl b)))"
proof -
  define nv where "nv = \<lparr>frames_out = (if f = None then 0 else 1), aborts = False\<rparr>"
  obtain es where "trace (snd (onmessage env nv 0 data (page_client b))) = trace (page_client b) @ es"
      "plays env (snd (onmessage env nv 0 data (page_client b)))" "length (filter is_render es) = (if f = None then 0 else 1)"
    using onmessage_plays [OF assms(1), of nv 0 data] by (cases f) (auto simp: nv_def)
  then show ?thesis
    using assms(2) by (auto simp: receive_def native_decode_def nv_def [symmetric] draw_effects Let_def split: option.splits)
qed

section \<open>A sequence of messages\<close>

lemma js_all_append:
  "fst (js_all ms p) = Inr () \<Longrightarrow> js_all (ms @ ns) p = js_all ns (snd (js_all ms p))"
proof (induction ms arbitrary: p)
  case (Cons m ms)
  then show ?case by (cases "m p"; cases "fst (m p)") (auto simp: js_bind_def)
qed (simp add: ret_def)

definition draw_all :: "(nat \<Rightarrow> frame) \<Rightarrow> nat list \<Rightarrow> gl_page \<Rightarrow> gl_page" where
  "draw_all pic fs g = snd (js_all (map (\<lambda>f. WebGL.render (pic f)) fs) g)"

lemma draw_all_ready:
  assumes "textures_ready g"
  shows "textures_ready (draw_all pic fs g)" "draw_all pic (f # fs) g = draw_all pic fs (snd (WebGL.render (pic f) g))"
    "fs \<noteq> [] \<Longrightarrow> slices_sampled (pic (last fs)) (gl_state (calls (draw_all pic fs g)))"
proof -
  have all: "textures_ready (snd (js_all (map (\<lambda>f. WebGL.render (pic f)) fs) g))"
    "fst (js_all (map (\<lambda>f. WebGL.render (pic f)) fs) g) = Inr ()" for fs
    using render_all_ready [OF assms, of "map pic fs"] by (simp_all add: o_def)
  show "textures_ready (draw_all pic fs g)" by (simp add: draw_all_def all)
  show "draw_all pic (f # fs) g = draw_all pic fs (snd (WebGL.render (pic f) g))"
    using js_all_append [of "[WebGL.render (pic f)]" g] render_ready(3) [OF assms]
    by (simp add: draw_all_def js_all_run del: js_all.simps)
  assume "fs \<noteq> []"
  then obtain gs x where fs: "fs = gs @ [x]" by (cases fs rule: rev_cases) auto
  show "slices_sampled (pic (last fs)) (gl_state (calls (draw_all pic fs g)))"
    using render_ready(2) [OF all(1) [of gs], of "pic x"] js_all_append [OF all(2) [of gs]]
    by (simp add: draw_all_def fs js_all_run del: js_all.simps)
qed

lemma receive_all_decoded:
  assumes "plays env (page_client b)" "Decode_all cfg msgs (page_decoder b) = Return (fs, d)" "textures_ready (page_gl b)"
  shows "page_decoder (receive_all env cfg pic msgs b) = d \<and>
    page_gl (receive_all env cfg pic msgs b) = draw_all pic (frames_in fs) (page_gl b)"
  using assms
proof (induction msgs arbitrary: b fs)
  case Nil
  then show ?case by (simp add: receive_all_def frames_in_def draw_all_def ret_def)
next
  case (Cons m msgs)
  obtain f d1 fs1 where one: "Decode cfg m (page_decoder b) = Return (f, d1)"
    and rest: "Decode_all cfg msgs d1 = Return (fs1, d)" and fs: "fs = f # fs1"
    using Cons.prems(2) by (auto simp: bind_outcome_eq_Return)
  let ?b = "receive env cfg pic m b"
  have b: "plays env (page_client ?b)" "page_decoder ?b = d1"
    "page_gl ?b = (case f of None \<Rightarrow> page_gl b | Some x \<Rightarrow> snd (WebGL.render (pic x) (page_gl b)))"
    using receive_decoded [OF Cons.prems(1) one] by auto
  have "textures_ready (page_gl ?b)"
    using Cons.prems(3) render_ready(1) b(3) by (cases f) auto
  then have "page_decoder (receive_all env cfg pic msgs ?b) = d"
    "page_gl (receive_all env cfg pic msgs ?b) = draw_all pic (frames_in fs1) (page_gl ?b)"
    using Cons.IH [of ?b fs1] b rest by auto
  then show ?case
    using b(3) fs draw_all_ready(2) [OF Cons.prems(3)]
    by (cases f) (auto simp: receive_all_def frames_in_def)
qed

text \<open>From the messages to the screen, for a page that was just opened.\<close>

lemma received_messages_are_drawn:
  assumes "plays env c" and "context_available genv" and "parse_all cfg msgs = Return ds"
    and "set (map media ds) \<subseteq> dom (stream_ops (Open subs qsize count type True Decoder))"
    and b: "b = receive_all env cfg pic msgs
      \<lparr>page_client = c, page_decoder = Open subs qsize count type True Decoder, page_gl = WebGLPlayer genv w h\<rparr>"
  shows "fed (page_decoder b) = dropWhile (\<lambda>x. \<not> is_key x) ds"
    "page_gl b = draw_all pic (outputs cfg (fed (page_decoder b))) (WebGLPlayer genv w h)"
    "outputs cfg (fed (page_decoder b)) = [] \<or>
     slices_sampled (pic (last (outputs cfg (fed (page_decoder b))))) (gl_state (calls (page_gl b)))"
proof -
  let ?d = "Open subs qsize count type True Decoder"
  have new: "called_back ?d = (if has_cb ?d then outputs cfg (fed ?d) else [])" "fed ?d = []" "\<not> from_key_frame ?d"
    by (simp_all add: Open_def Decoder_def outputs_def)
  obtain fs d' where dec: "Decode_all cfg msgs ?d = Return (fs, d')" "fed d' = dropWhile (\<lambda>x. \<not> is_key x) ds"
      "frames_in fs = outputs cfg (fed d')"
    using Decode_all_fed [OF assms(3) _ new(1)] assms(4) new(2,3) by (auto simp: list_all_iff outputs_def image_subset_iff)
  have b': "page_decoder b = d'" "page_gl b = draw_all pic (frames_in fs) (WebGLPlayer genv w h)"
    using receive_all_decoded [of env _ cfg msgs fs d' pic] dec(1) assms(1) textures_ready_new [OF assms(2)]
    by (simp_all add: b)
  then show "fed (page_decoder b) = dropWhile (\<lambda>x. \<not> is_key x) ds"
    "page_gl b = draw_all pic (outputs cfg (fed (page_decoder b))) (WebGLPlayer genv w h)"
    using dec by simp_all
  then show "outputs cfg (fed (page_decoder b)) = [] \<or>
      slices_sampled (pic (last (outputs cfg (fed (page_decoder b))))) (gl_state (calls (page_gl b)))"
    using draw_all_ready(3) [OF textures_ready_new [OF assms(2)]] by metis
qed

end
