(* ===== verification/PageRun.thy ===== *)
theory PageRun imports Page begin

text \<open>
  The life of the page of \<open>ws-wasm-player/index.html\<close>: what its script does when the wasm module is
  ready (\<open>load_page\<close>), and every event that reaches it afterwards, in any order: the user's input
  in its fields, clicks, the answers of the server to its requests for the list of streams, and
  the events of the client's socket.  \<open>page_reachable\<close> is the set of pages this leads to; the
  invariants below hold in all of them.
\<close>

section \<open>Loading and events\<close>

record location =
  url_protocol :: string
  url_hostname :: string
  url_port :: string

text \<open>The elements of the page before the script runs: the values written in the HTML, a canvas of
  the size browsers give it by default, and the object of the client before its constructor.\<close>

definition html_page :: "int \<Rightarrow> page" where
  "html_page now = \<lparr>host = ''127.0.0.1'', port = ''8080'', host_error = False, port_error = False, stream_url = [],
     protocol_http = [], protocol_ws = [], streams = None, streamSelectId = None, select_options = [],
     stream_info = None, message = None, player_name = ''webgl'', canvas = (300, 150), webgl = None,
     gl_player = None, live_players = {}, button = ''Open'', requests = [], alerts = [],
     client = WsClient.fields now 0\<rparr>"

definition fill_address :: "location \<Rightarrow> page \<Rightarrow> page" where
  "fill_address u p = p\<lparr>
     host := (if isIp (JStr (url_hostname u)) then url_hostname u else host p),
     port := (if isPort (JStr (url_port u)) then url_port u else port p)\<rparr>"

definition choose_protocol :: "location \<Rightarrow> page \<Rightarrow> page" where
  "choose_protocol u p =
     (let p = p\<lparr>protocol_http := ''http'', protocol_ws := ''ws''\<rparr> in
      if url_protocol u = ''https:'' then p\<lparr>protocol_http := ''https'', protocol_ws := ''wss''\<rparr> else p)"

definition set_up_page :: "env \<Rightarrow> location \<Rightarrow> unit page_act" where
  "set_up_page env u = js_all
     [on_client (constructor env Map.empty),
      modify resetStreams,
      modify (\<lambda>p. p\<lparr>gl_player := None\<rparr>),
      modify (fill_address u),
      modify (choose_protocol u),
      modify updateStreamUrl]"

definition load_page :: "env \<Rightarrow> location \<Rightarrow> unit page_act" where
  "load_page env u = js_all [set_up_page env u, updateStreamStatus, modify getStreamIds]"

definition btn_refresh_click :: "page \<Rightarrow> page" where
  "btn_refresh_click p = getStreamIds p"

datatype page_event =
    HostInput string | PortInput string
  | SelectChange string                       \<comment> \<open>an option of the list of streams\<close>
  | ChoosePlayer string                       \<comment> \<open>one of the two radio buttons\<close>
  | RefreshClick | OpenClick
  | ListArrives "stream_entry list option" | ListFails
  | SocketEvent WsClient.event

fun page_handler :: "env \<Rightarrow> gl_env \<Rightarrow> page_event \<Rightarrow> unit page_act" where
  "page_handler env gl (HostInput s) = modify (host_input s)"
| "page_handler env gl (PortInput s) = modify (port_input s)"
| "page_handler env gl (SelectChange v) = modify (select_change v)"
| "page_handler env gl (ChoosePlayer n) = modify (\<lambda>p. p\<lparr>player_name := n\<rparr>)"
| "page_handler env gl RefreshClick = modify btn_refresh_click"
| "page_handler env gl OpenClick = btn_open_click env gl"
| "page_handler env gl (ListArrives data) = modify (streams_done data)"
| "page_handler env gl ListFails = modify streams_fail"
| "page_handler env gl (SocketEvent e) = on_client (handle_event env e)"

fun page_enabled :: "page \<Rightarrow> page_event \<Rightarrow> bool" where
  "page_enabled p (SelectChange v) = (v \<in> set (select_options p))"
| "page_enabled p (ChoosePlayer n) = (n = ''webgl'' \<or> n = ''opengl'')"
| "page_enabled p (SocketEvent e) = socket_event e"
| "page_enabled p _ = True"

inductive page_reachable :: "env \<Rightarrow> gl_env \<Rightarrow> page \<Rightarrow> bool" for env gl where
  loaded: "page_reachable env gl (snd (load_page env u (html_page now)))"
| handled: "page_reachable env gl p \<Longrightarrow> page_enabled p e \<Longrightarrow>
    page_reachable env gl (snd (page_handler env gl e p))"

section \<open>What the page keeps\<close>

text \<open>The red frames of the two fields mark exactly the wrong inputs, and without them the URL on
  the page is that of the server it talks to.\<close>

definition address_ok :: "page \<Rightarrow> bool" where
  "address_ok p \<longleftrightarrow>
     host_error p = (\<not> isIp (JStr (host p))) \<and> port_error p = (\<not> isPort (JStr (port p))) \<and>
     (\<not> host_error p \<and> \<not> port_error p \<longrightarrow> stream_url p = getUrl (protocol_ws p) p @ ''/stream/'')"

text \<open>The list on the page is the list of streams, sorted, and the selected stream is one of it; its details are the
  ones on the page.\<close>

definition selection_ok :: "page \<Rightarrow> bool" where
  "selection_ok p \<longleftrightarrow>
     (case streams p of
        None \<Rightarrow> select_options p = [] \<and> streamSelectId p = None
      | Some ss \<Rightarrow> select_options p = List.map stream_id ss \<and> sorted (select_options p) \<and>
          (case streamSelectId p of None \<Rightarrow> ss = [] | Some i \<Rightarrow> i \<in> set (select_options p))) \<and>
     (case getStream p of None \<Rightarrow> True | Some s \<Rightarrow> stream_info p = Some (stream_ref s))"

definition player_ok :: "page \<Rightarrow> bool" where
  "player_ok p \<longleftrightarrow> player_name p = ''webgl'' \<or> player_name p = ''opengl''"

text \<open>The client: its own invariant, and the page never sets its debug option.\<close>

definition plain_client :: "client \<Rightarrow> bool" where
  "plain_client c \<longleftrightarrow> client_ok c \<and> get_prop (options c) ''dbg'' = JBool False"

definition button_ok :: "page \<Rightarrow> bool" where
  "button_ok p \<longleftrightarrow> button p = (if isOpen (client p) then ''Close'' else ''Open'')"

lemmas page_ok_defs = address_ok_def selection_ok_def player_ok_def

text \<open>The fields of the address, the list and the choice of the player are left alone by the
  button and the client.\<close>

definition inputs :: "page \<Rightarrow> _" where
  "inputs p = (host p, port p, host_error p, port_error p, stream_url p, protocol_ws p,
     streams p, streamSelectId p, select_options p, stream_info p, player_name p)"

lemma page_ok_inputs:
  assumes "inputs q = inputs p"
  shows "address_ok q = address_ok p" "selection_ok q = selection_ok p" "player_ok q = player_ok p"
  using assms by (simp_all add: inputs_def page_ok_defs getUrl_def getStream_def cong: option.case_cong)

lemma on_client_eq: "on_client m p = (fst (m (client p)), p\<lparr>client := snd (m (client p))\<rparr>)"
  by (simp add: on_client_def split: prod.split)

lemma keeps_on_client:
  "(\<And>p c. P p \<Longrightarrow> P (p\<lparr>client := c\<rparr>)) \<Longrightarrow> keeps P (on_client m)"
  by (simp add: keeps_iff on_client_eq)

lemma keeps_inputs_click: "keeps (\<lambda>p. inputs p = x) (btn_open_click env gl)"
  by (auto simp: btn_open_click_def delete_player_def new_webgl_player_def new_opengl_player_def
      open_with_def updateStreamStatus_def inputs_def intro!: js_rules keeps_on_client)

lemma keeps_client_on_client: "keeps Q m \<Longrightarrow> keeps (\<lambda>p. Q (client p)) (on_client m)"
  by (simp add: keeps_iff on_client_eq)

section \<open>The client under the page\<close>

lemma plain_options: "get_prop (spread os [''url'' \<mapsto> u, ''stream'' \<mapsto> v, ''player'' \<mapsto> w]) k =
    (if k = ''url'' then u else if k = ''stream'' then v else if k = ''player'' then w else get_prop os k)"
  by (simp add: get_prop_def spread_def)

text \<open>Opening keeps the debug option off and, when it throws, leaves the client closed.\<close>

lemma plain_open:
  assumes "plain_client c" and "ws c = None"
  shows "plain_client (snd (open_ws env [''url'' \<mapsto> u, ''stream'' \<mapsto> v, ''player'' \<mapsto> w] c)) \<and>
    (case fst (open_ws env [''url'' \<mapsto> u, ''stream'' \<mapsto> v, ''player'' \<mapsto> w] c) of
       Inl e \<Rightarrow> ws (snd (open_ws env [''url'' \<mapsto> u, ''stream'' \<mapsto> v, ''player'' \<mapsto> w] c)) = None | Inr _ \<Rightarrow> True)"
proof -
  have "client_ok (snd (open_ws env [''url'' \<mapsto> u, ''stream'' \<mapsto> v, ''player'' \<mapsto> w] c))"
    using keeps_open assms(1) by (auto simp: plain_client_def intro: keepsD)
  then show ?thesis
    using assms by (auto simp: plain_client_def client_simps plain_options split: js_val.split)
qed

lemma plain_close:
  assumes "plain_client c"
  shows "fst (close env c) = Inr () \<and> ws (snd (close env c)) = None \<and> plain_client (snd (close env c))"
proof (cases "ws c")
  case None
  then show ?thesis using assms by (simp add: close_def js_defs)
next
  case (Some n)
  then obtain d where d: "decoder c = Some d" using assms by (auto simp: plain_client_def client_ok_def)
  have "client_ok (snd (close env c))" using assms keeps_close by (auto simp: plain_client_def intro: keepsD)
  moreover have "close env c = (Inr (), WsClient.closed env n d c)"
    using assms by (simp add: close_eq [OF Some d] plain_client_def client_simps)
  ultimately show ?thesis using assms by (simp add: WsClient.closed_def plain_client_def)
qed

text \<open>The events of the socket do not open or close the client.\<close>

lemma keeps_plain_socket:
  assumes "socket_event e"
  shows "keeps (\<lambda>c. plain_client c \<and> ws c = w) (handle_event env e)"
proof -
  have "socket_free (\<lambda>c. get_prop (options c) ''dbg'' = JBool False \<and> ws c = w)" by (simp add: socket_free_def)
  then have "keeps (\<lambda>c. get_prop (options c) ''dbg'' = JBool False \<and> ws c = w) (handle_event env e)"
    using assms by (rule keeps_socket_event)
  then show ?thesis using keeps_handle_event [of env e] by (auto simp: keeps_iff plain_client_def)
qed

section \<open>The click\<close>

definition closed_page :: "page \<Rightarrow> bool" where
  "closed_page p \<longleftrightarrow> plain_client (client p) \<and> ws (client p) = None \<and> button p = ''Open''"

definition told_page :: "page \<Rightarrow> bool" where
  "told_page p \<longleftrightarrow> plain_client (client p) \<and> button_ok p"

lemma status_tells: "triple (\<lambda>p. plain_client (client p)) updateStreamStatus (\<lambda>_. told_page) (\<lambda>_. told_page)"
  by (simp add: triple_def updateStreamStatus_def modify_def told_page_def button_ok_def)

lemma open_with_tells:
  "triple closed_page (open_with env stream v) (\<lambda>_ p. plain_client (client p)) (\<lambda>_. told_page)"
proof (cases stream)
  case None
  then show ?thesis
    by (simp add: open_with_def triple_def throw_def closed_page_def told_page_def button_ok_def isOpen_def)
next
  case (Some s)
  have opened: "\<exists>u. open_with env stream v p = (let r = open_ws env [''url'' \<mapsto> JStr u,
      ''stream'' \<mapsto> JObj (stream_ref s), ''player'' \<mapsto> v] (client p) in (fst r, p\<lparr>client := snd r\<rparr>))" for p
    by (simp add: Some open_with_def js_bind_def gets_def on_client_eq Let_def) blast
  show ?thesis
    unfolding triple_def
  proof (intro allI impI)
    fix p assume p: "closed_page p"
    obtain u where run: "open_with env stream v p = (let r = open_ws env [''url'' \<mapsto> JStr u,
      ''stream'' \<mapsto> JObj (stream_ref s), ''player'' \<mapsto> v] (client p) in (fst r, p\<lparr>client := snd r\<rparr>))"
      using opened by blast
    show "case open_with env stream v p of (Inl e, q) \<Rightarrow> told_page q | (Inr x, q) \<Rightarrow> plain_client (client q)"
      using p plain_open [of "client p" env "JStr u" "JObj (stream_ref s)" v]
      unfolding run Let_def closed_page_def told_page_def button_ok_def isOpen_def
      by (cases "fst (open_ws env [''url'' \<mapsto> JStr u, ''stream'' \<mapsto> JObj (stream_ref s), ''player'' \<mapsto> v] (client p))")
        simp_all
  qed
qed

lemma keeps_closed_page:
  "keeps closed_page (new_webgl_player gl stream)" "keeps closed_page new_opengl_player"
proof -
  have ids: "keeps (\<lambda>c. plain_client c \<and> ws c = None) fresh_id"
    "keeps (\<lambda>c. plain_client c \<and> ws c = None) createOpenGLPlayer"
    by (auto simp: keeps_iff createOpenGLPlayer_def fresh_id_def effect_def js_defs plain_client_def client_ok_def
        less_Suc_eq)
  have client: "keeps closed_page (on_client m)" if "keeps (\<lambda>c. plain_client c \<and> ws c = None) m" for m :: "nat act"
    using that by (simp add: keeps_iff on_client_eq closed_page_def)
  show "keeps closed_page (new_webgl_player gl stream)" "keeps closed_page new_opengl_player"
    by (auto simp: new_webgl_player_def new_opengl_player_def intro!: js_rules client ids)
      (auto simp: closed_page_def)
qed

lemma click_tells:
  assumes "told_page p"
  shows "told_page (snd (btn_open_click env gl p))"
proof (cases "isOpen (client p)")
  case True
  have "fst (delete_player p) = Inr () \<and> client (snd (delete_player p)) = client p"
    by (cases "gl_player p") (simp_all add: delete_player_def js_defs)
  moreover obtain r q where q: "delete_player p = (r, q)" by (rule prod.exhaust)
  moreover obtain r' c where c: "close env (client p) = (r', c)" by (rule prod.exhaust)
  ultimately show ?thesis
    using True assms plain_close [of "client p" env]
    by (simp add: btn_open_click_def js_bind_def gets_def on_client_eq told_page_def button_ok_def isOpen_def
        updateStreamStatus_def modify_def)
next
  case False
  then have closed: "closed_page p" using assms by (simp add: told_page_def closed_page_def button_ok_def isOpen_def)
  have opened: "triple closed_page (js_seq (js_bind m (open_with env stream)) updateStreamStatus)
      (\<lambda>_. told_page) (\<lambda>_. told_page)" if "keeps closed_page m" for m stream
    using that
    by (intro triple_bind [OF _ status_tells] triple_bind_keeps open_with_tells)
      (auto simp: closed_page_def told_page_def button_ok_def isOpen_def)
  show ?thesis
    using False assms triple_snd [OF opened [OF keeps_closed_page(1)] closed]
      triple_snd [OF opened [OF keeps_closed_page(2)] closed]
    by (simp add: btn_open_click_def js_bind_def [of "gets f" for f] gets_def)
      (simp add: modify_def told_page_def button_ok_def)
qed

section \<open>Every page reached\<close>

definition page_ok :: "page \<Rightarrow> bool" where
  "page_ok p \<longleftrightarrow> address_ok p \<and> selection_ok p \<and> player_ok p \<and> told_page p"

lemma page_okI: "inputs q = inputs p \<Longrightarrow> page_ok p \<Longrightarrow> told_page q \<Longrightarrow> page_ok q"
  using page_ok_inputs [of q p] by (simp add: page_ok_def)

lemma info_ok: "case getStream (updateStreamInfo p) of None \<Rightarrow> True
    | Some s \<Rightarrow> stream_info (updateStreamInfo p) = Some (stream_ref s)"
  by (auto simp: updateStreamInfo_def getStream_def split: option.splits)

lemma updateStreamInfo_keeps:
  "streams (updateStreamInfo p) = streams p" "select_options (updateStreamInfo p) = select_options p"
  "streamSelectId (updateStreamInfo p) = streamSelectId p" "client (updateStreamInfo p) = client p"
  "address_ok (updateStreamInfo p) = address_ok p" "player_name (updateStreamInfo p) = player_name p"
  "button (updateStreamInfo p) = button p"
  by (simp_all add: updateStreamInfo_def address_ok_def getUrl_def split: option.split)

lemma getStream_message: "getStream (p\<lparr>message := m\<rparr>) = getStream p" "selection_ok (p\<lparr>message := m\<rparr>) = selection_ok p"
  by (simp_all add: getStream_def selection_ok_def cong: option.case_cong)

lemma streams_done_selects: "selection_ok (streams_done data p)"
proof (cases data)
  case None
  then show ?thesis
    by (simp add: streams_done_def selection_ok_def getStream_def resetStreamUi_def resetStreams_def)
next
  case (Some ss)
  show ?thesis
    using info_ok
    by (simp add: Some streams_done_def Let_def updateErrorMessage_def getStream_message updateStreamIds_def)
      (simp add: selection_ok_def updateStreamInfo_keeps split: list.split)
qed

text \<open>The rest of the page does not see the list change.\<close>

definition rest_of :: "page \<Rightarrow> _" where
  "rest_of p = ((host p, port p, host_error p, port_error p, stream_url p, protocol_ws p), player_name p, button p, client p)"

lemma rest_of_ok:
  assumes "rest_of q = rest_of p"
  shows "address_ok q = address_ok p" "player_ok q = player_ok p" "told_page q = told_page p"
  using assms by (simp_all add: rest_of_def address_ok_def player_ok_def told_page_def button_ok_def getUrl_def)

lemma streams_done_rest: "rest_of (streams_done data p) = rest_of p"
  by (cases data)
    (simp_all add: streams_done_def Let_def updateErrorMessage_def updateStreamIds_def
      resetStreamUi_def resetStreams_def updateStreamInfo_def rest_of_def split: option.split)

lemmas streams_done_keeps = rest_of_ok [OF streams_done_rest]

lemma streams_fail_eq: "streams_fail p = (streams_done None p)\<lparr>message := Some ''stream ids get fail''\<rparr>"
  by (simp add: streams_fail_def streams_done_def updateErrorMessage_def resetStreamUi_def resetStreams_def)

lemma page_ok_message: "page_ok (p\<lparr>message := m\<rparr>) = page_ok p"
  by (simp add: page_ok_def getStream_message address_ok_def player_ok_def told_page_def button_ok_def getUrl_def)

lemma address_input_ok:
  assumes "page_ok p"
  shows "page_ok (host_input s p)" "page_ok (port_input s p)"
  using assms
  by (auto simp: page_ok_def host_input_def port_input_def updateStreamUrl_def address_ok_def getUrl_def Let_def
      selection_ok_def getStream_def player_ok_def told_page_def button_ok_def cong: option.case_cong)

lemma select_change_ok:
  assumes ok: "page_ok p" and v: "v \<in> set (select_options p)"
  shows "page_ok (select_change v p)"
proof -
  have "rest_of (select_change v p) = rest_of p"
    by (simp add: select_change_def updateStreamInfo_def rest_of_def split: option.split)
  moreover obtain ss where ss: "streams p = Some ss" "select_options p = List.map stream_id ss" "sorted (select_options p)"
    using ok v by (cases "streams p") (auto simp: page_ok_def selection_ok_def)
  moreover have "selection_ok (select_change v p)"
    using ss v info_ok [of "p\<lparr>streamSelectId := Some v\<rparr>"]
    by (simp add: select_change_def selection_ok_def updateStreamInfo_keeps)
  ultimately show ?thesis
    using ok rest_of_ok [of "select_change v p" p] by (simp add: page_ok_def)
qed

lemma page_ok_requests: "page_ok p \<Longrightarrow> page_ok (p\<lparr>requests := x\<rparr>)"
  by (rule page_okI [of _ p]) (simp_all add: inputs_def page_ok_def told_page_def button_ok_def)

lemma choose_player_ok:
  assumes "page_ok p" and "n = ''webgl'' \<or> n = ''opengl''"
  shows "page_ok (p\<lparr>player_name := n\<rparr>)"
proof -
  have "selection_ok (p\<lparr>player_name := n\<rparr>) = selection_ok p"
    by (simp add: selection_ok_def getStream_def cong: option.case_cong)
  then show ?thesis
    using assms by (simp add: page_ok_def address_ok_def getUrl_def player_ok_def told_page_def button_ok_def)
qed

lemma page_ok_step:
  assumes ok: "page_ok p" and "page_enabled p e"
  shows "page_ok (snd (page_handler env gl e p))"
proof (cases e)
  case (SelectChange v)
  then show ?thesis using assms by (simp add: modify_def select_change_ok)
next
  case (ChoosePlayer n)
  then show ?thesis using assms by (simp add: modify_def choose_player_ok)
next
  case RefreshClick
  then show ?thesis using assms by (simp add: modify_def btn_refresh_click_def getStreamIds_def page_ok_requests)
next
  case OpenClick
  have "inputs (snd (btn_open_click env gl p)) = inputs p"
    by (rule keepsD [OF keeps_inputs_click]) simp
  then show ?thesis
    using ok OpenClick click_tells [of p env gl] page_okI [of "snd (btn_open_click env gl p)" p]
    by (simp add: page_ok_def)
next
  case (ListArrives data)
  then show ?thesis
    using ok by (simp add: modify_def page_ok_def streams_done_selects streams_done_keeps)
next
  case ListFails
  then show ?thesis
    using ok by (simp add: modify_def streams_fail_eq page_ok_message)
      (simp add: page_ok_def streams_done_selects streams_done_keeps)
next
  case (SocketEvent ev)
  have same: "inputs (snd (on_client (handle_event env ev) p)) = inputs p" by (simp add: on_client_eq inputs_def)
  have "plain_client (snd (handle_event env ev (client p))) \<and>
      ws (snd (handle_event env ev (client p))) = ws (client p)"
    using ok assms(2) SocketEvent
    by (intro keepsD [OF keeps_plain_socket, of ev _ "ws (client p)"]) (auto simp: page_ok_def told_page_def)
  then have "told_page (snd (on_client (handle_event env ev) p))"
    using ok by (simp add: page_ok_def told_page_def button_ok_def isOpen_def on_client_eq)
  then show ?thesis
    using ok SocketEvent same page_okI [of "snd (on_client (handle_event env ev) p)" p] by simp
qed (use assms address_input_ok in \<open>simp_all add: modify_def\<close>)

lemma page_ok_load: "page_ok (snd (load_page env u (html_page now)))"
proof -
  have "isIp (JStr ''127.0.0.1'')" "isPort (JStr ''8080'')" by code_simp+
  moreover have "constructor env Map.empty (WsClient.fields now 0) =
      (Inr (), (WsClient.fields now 0)\<lparr>options := WsClientOptions, trace := [SetV (JNum 0)]\<rparr>)"
    by (simp add: constructor_def client_simps WsClient.fields_def WsClientOptions_def spread_def get_prop_def)
  moreover have "get_prop WsClientOptions ''dbg'' = JBool False" by (simp add: WsClientOptions_def get_prop_def)
  ultimately show ?thesis
    by (auto simp: load_page_def set_up_page_def js_defs on_client_eq html_page_def resetStreams_def fill_address_def
        choose_protocol_def updateStreamUrl_def updateStreamStatus_def getStreamIds_def page_ok_def address_ok_def
        selection_ok_def getStream_def player_ok_def told_page_def button_ok_def plain_client_def client_ok_def
        WsClient.fields_def getUrl_def isOpen_def Let_def)
qed

lemma page_ok_reachable: "page_reachable env gl p \<Longrightarrow> page_ok p"
  by (induction rule: page_reachable.induct) (simp_all add: page_ok_load page_ok_step)

text \<open>The decoders, when the browser accepts every URL and the native module every stream.\<close>

lemma decoders_exact_click:
  assumes env: "\<And>u. accepts_url env u" "\<And>st. accepts_stream env st"
  shows "keeps (\<lambda>p. decoders_exact (client p)) (btn_open_click env gl)"
proof -
  have ids: "keeps decoders_exact fresh_id" "keeps decoders_exact createOpenGLPlayer"
    by (auto simp: keeps_iff createOpenGLPlayer_def fresh_id_def effect_def js_defs decoders_exact_def)
  note client = keeps_client_on_client [where Q = decoders_exact]
  show ?thesis
    by (auto simp: btn_open_click_def delete_player_def new_webgl_player_def new_opengl_player_def
        open_with_def updateStreamStatus_def
        intro!: js_rules client ids decoders_exact_open [OF env] decoders_exact_close)
qed

lemma client_of_inputs:
  "client (host_input s p) = client p" "client (port_input s p) = client p" "client (select_change s p) = client p"
  "client (streams_done data p) = client p" "client (streams_fail p) = client p" "client (getStreamIds p) = client p"
proof -
  show "client (streams_done data p) = client p" for data p
    using streams_done_rest [of data p] by (simp add: rest_of_def)
  then show "client (streams_fail p) = client p" by (simp add: streams_fail_eq)
qed (simp_all add: host_input_def port_input_def updateStreamUrl_def Let_def select_change_def updateStreamInfo_keeps
    getStreamIds_def)

lemma decoders_exact_reachable:
  assumes env: "\<And>u. accepts_url env u" "\<And>st. accepts_stream env st" and "page_reachable env gl p"
  shows "decoders_exact (client p)"
  using assms(3)
proof induction
  case (loaded u now)
  have "keeps decoders_exact (constructor env Map.empty)"
    unfolding constructor_def
    by (rule keeps_all) (auto simp: decoders_exact_def intro!: js_rules decoders_exact_trace_free)
  then have "keeps (\<lambda>p. decoders_exact (client p)) (load_page env u)"
    unfolding load_page_def
    by (intro keeps_all)
      (auto simp: set_up_page_def resetStreams_def fill_address_def choose_protocol_def updateStreamUrl_def Let_def
        updateStreamStatus_def getStreamIds_def intro!: js_rules keeps_all keeps_client_on_client)
  then show ?case
    by (rule keepsD) (simp add: html_page_def WsClient.fields_def decoders_exact_def)
next
  case (handled p e)
  have "keeps decoders_exact (handle_event env ev)" for ev
    by (rule decoders_exact_event [OF env])
  then show ?case
    using handled keepsD [OF decoders_exact_click [OF env]]
    by (cases e) (simp_all add: modify_def client_of_inputs btn_refresh_click_def on_client_eq keepsD)
qed

lemma selected_stream:
  assumes "selection_ok p" and "select_options p \<noteq> []"
  obtains s where "getStream p = Some s" "streamSelectId p = Some (stream_id s)"
    "stream_info p = Some (stream_ref s)"
proof -
  obtain ss i where ss: "streams p = Some ss" "streamSelectId p = Some i" "i \<in> stream_id ` set ss"
    using assms by (auto simp: selection_ok_def split: option.splits)
  then obtain s where s: "find (\<lambda>s. Some (stream_id s) = Some i) ss = Some s"
    by (cases "find (\<lambda>s. Some (stream_id s) = Some i) ss") (auto simp: find_None_iff)
  then have "stream_id s = i" by (auto simp: find_Some_iff)
  moreover have "getStream p = Some s" using ss s by (simp add: getStream_def)
  ultimately show thesis
    using that ss assms(1) by (auto simp: selection_ok_def)
qed

section \<open>Properties\<close>

text \<open>C38.  Whatever happened to the page since it was loaded, the button says what a click will do,
  the two fields are marked exactly when their input is wrong, the stream offered as selected is
  one of the sorted list, and the client has a decoder for every open socket.\<close>

theorem page_tells_the_truth:
  assumes "page_reachable env gl p"
  shows "button p = (if isOpen (client p) then ''Close'' else ''Open'') \<and>
    host_error p = (\<not> isIp (JStr (host p))) \<and> port_error p = (\<not> isPort (JStr (port p))) \<and>
    sorted (select_options p) \<and> set_option (streamSelectId p) \<subseteq> set (select_options p) \<and>
    (streamSelectId p = None) = (select_options p = []) \<and>
    client_ok (client p)"
  using page_ok_reachable [OF assms]
  by (auto simp: page_ok_def address_ok_def selection_ok_def told_page_def button_ok_def plain_client_def
      split: option.splits)

definition accepting_env :: env where
  "accepting_env = sample_env\<lparr>accepts_url := \<lambda>_. True\<rparr>"

definition sample_location :: location where
  "sample_location = \<lparr>url_protocol = ''https:'', url_hostname = ''10.0.0.1'', url_port = []\<rparr>"

definition loaded_page :: page where
  "loaded_page = snd (load_page accepting_env sample_location (html_page 0))"

definition listed_page :: page where
  "listed_page = snd (page_handler accepting_env sample_gl (ListArrives (Some
     [\<lparr>stream_id = ''b'', video_size = None, stream_ref = 5\<rparr>, \<lparr>stream_id = ''a'', video_size = Some (4, 2), stream_ref = 2\<rparr>]))
     loaded_page)"

lemma listed_page_reachable: "page_reachable accepting_env sample_gl listed_page"
  unfolding listed_page_def loaded_page_def by (intro page_reachable.intros) simp

theorem page_tells_the_truth_witness:
  "let p = listed_page in
   button p = (if isOpen (client p) then ''Close'' else ''Open'') \<and>
    host_error p = (\<not> isIp (JStr (host p))) \<and> port_error p = (\<not> isPort (JStr (port p))) \<and>
    sorted (select_options p) \<and> set_option (streamSelectId p) \<subseteq> set (select_options p) \<and>
    (streamSelectId p = None) = (select_options p = []) \<and>
    client_ok (client p)"
  unfolding Let_def by (rule page_tells_the_truth [OF listed_page_reachable])

text \<open>C37.  The page opens what it shows.  Whatever happened since it was loaded, when the button says
  \<open>Open\<close>, no field is marked and the list is not empty, a click opens the client on the URL shown
  followed by the selected id, with the stream whose details are shown and a WebGL player ready to
  draw, and the button says \<open>Close\<close>; a second click closes it and leaves no native decoder.\<close>

theorem page_opens_what_it_shows:
  assumes reached: "page_reachable env gl p" and button: "button p = ''Open''"
    and fields: "\<not> host_error p" "\<not> port_error p" and list: "select_options p \<noteq> []" and player: "player_name p = ''webgl''"
    and env: "\<And>u. accepts_url env u" "\<And>st. accepts_stream env st" and gl: "context_available gl"
  shows "let q = snd (page_handler env gl OpenClick p); r = snd (page_handler env gl OpenClick q) in
    isOpen (client q) \<and> button q = ''Close'' \<and>
    (\<exists>i k. streamSelectId p = Some i \<and> stream_info p = Some k \<and>
      get_prop (options (client q)) ''url'' = JStr (stream_url p @ i) \<and>
      get_prop (options (client q)) ''stream'' = JObj k) \<and>
    (\<exists>g. webgl q = Some g \<and> textures_ready g) \<and>
    \<not> isOpen (client r) \<and> button r = ''Open'' \<and> live_decoders (client r) = {}"
proof -
  have ok: "page_ok p" by (rule page_ok_reachable [OF reached])
  obtain s where s: "getStream p = Some s" "streamSelectId p = Some (stream_id s)" "stream_info p = Some (stream_ref s)"
    using selected_stream ok list by (auto simp: page_ok_def)
  have closed: "ws (client p) = None" "get_prop (options (client p)) ''dbg'' = JBool False"
    using ok button by (auto simp: page_ok_def told_page_def button_ok_def isOpen_def plain_client_def split: if_splits)
  have url: "stream_url p = getUrl (protocol_ws p) p @ ''/stream/''"
    using ok fields by (simp add: page_ok_def address_ok_def)
  show ?thesis
    using open_click_then_close_click [OF s(1) player closed(1) decoders_exact_reachable [OF env reached] closed(2)
        env gl refl refl] s url
    by simp
qed

theorem page_opens_what_it_shows_witness:
  "let p = listed_page; q = snd (page_handler accepting_env sample_gl OpenClick p);
     r = snd (page_handler accepting_env sample_gl OpenClick q) in
    isOpen (client q) \<and> button q = ''Close'' \<and>
    (\<exists>i k. streamSelectId p = Some i \<and> stream_info p = Some k \<and>
      get_prop (options (client q)) ''url'' = JStr (stream_url p @ i) \<and>
      get_prop (options (client q)) ''stream'' = JObj k) \<and>
    (\<exists>g. webgl q = Some g \<and> textures_ready g) \<and>
    \<not> isOpen (client r) \<and> button r = ''Open'' \<and> live_decoders (client r) = {}"
proof -
  have page: "button listed_page = ''Open'' \<and> \<not> host_error listed_page \<and> \<not> port_error listed_page \<and>
      select_options listed_page \<noteq> [] \<and> player_name listed_page = ''webgl''"
    by code_simp
  show ?thesis
    unfolding Let_def
    by (rule page_opens_what_it_shows [unfolded Let_def, OF listed_page_reachable])
      (use page in \<open>simp_all add: accepting_env_def sample_env_def sample_gl_def\<close>)
qed

end
