(* ===== verification/NativeView.thy ===== *)
theory NativeView imports NativePlayer Glfw "HOL-Library.Sublist" begin

text \<open>
  The native player as a whole: the network thread of \<open>ws-local-player/ws_stream_client.cc\<close> (theory
  \<open>NativePlayer\<close>), which parses the messages, and the thread \<open>Run\<close> with the window it makes, opens, draws
  and closes (theories \<open>Glfw\<close> and \<open>NativeGl\<close>).  A schedule is a list of turns of the two threads.
\<close>

section \<open>The two threads\<close>

text \<open>\<open>pic n\<close> is the picture of the frame number \<open>n\<close> of the codec.  \<open>v_window\<close> is \<open>*ui_\<close> once \<open>ui_\<close> is set.\<close>

record view =
  v_player :: native_player
  v_params :: init_params                   \<comment> \<open>\<open>ui_params_\<close>\<close>
  v_lib :: glfw
  v_window :: glfw_window

definition view_start :: "player_options \<Rightarrow> view" where
  "view_start opts = \<lparr>v_player = WsStreamClient opts, v_params = \<lparr>param_width = 0, param_height = 0, param_title = []\<rparr>,
     v_lib = no_glfw, v_window = GlfwBase (OpenGLPlayer 0 [])\<rparr>"

text \<open>The first frame sets \<open>ui_ok_\<close> and gives its size to the window.\<close>

definition frame_params :: "(nat \<Rightarrow> frame) \<Rightarrow> string \<Rightarrow> nat \<Rightarrow> init_params" where
  "frame_params pic name n =
     \<lparr>param_width = frame_width (pic n), param_height = frame_height (pic n), param_title = name\<rparr>"

definition params_after :: "config \<Rightarrow> (nat \<Rightarrow> frame) \<Rightarrow> string \<Rightarrow> native_player \<Rightarrow> native_player \<Rightarrow> init_params \<Rightarrow> init_params" where
  "params_after cfg pic name p p' params =
     (case codec cfg (decoded p') of
        GotFrame n \<Rightarrow> if ui_ok p' \<and> \<not> ui_ok p then frame_params pic name n else params
      | _ \<Rightarrow> params)"

text \<open>A message: \<open>FromBytes\<close>, whose status is not looked at, and the rest of the handler.\<close>

definition view_recv :: "config \<Rightarrow> (nat \<Rightarrow> frame) \<Rightarrow> string \<Rightarrow> byte list \<Rightarrow> view \<Rightarrow> view option outcome" where
  "view_recv cfg pic name bytes v =
     (if ioc_stopped (v_player v) then Return (Some v)
      else bind_outcome (FromBytes (av cfg) (wide cfg) bytes Data) (\<lambda>(st, data).
        bind_outcome (OnEventRecv cfg data (v_player v)) (\<lambda>r.
          Return (map_option (\<lambda>p. v\<lparr>v_player := p, v_params := params_after cfg pic name (v_player v) p (v_params v)\<rparr>) r))))"

text \<open>What \<open>ui_->Update\<close> has left in the window: the last frame shown.\<close>

definition current_frame :: "(nat \<Rightarrow> frame) \<Rightarrow> native_player \<Rightarrow> frame option" where
  "current_frame pic p = (if shown p = [] then None else Some (pic (last (shown p))))"

text \<open>A turn of the window's thread; \<open>closing\<close>: the user has closed the window.\<close>

definition window_turn ::
  "(nat \<Rightarrow> frame) \<Rightarrow> glfw_env \<Rightarrow> native_env \<Rightarrow> player_options \<Rightarrow> bool \<Rightarrow> view \<Rightarrow> view outcome" where
  "window_turn pic genv nenv opts closing v =
     (let p = v_player v; b = v_window v in
      case ui_at p of
        UiMake \<Rightarrow> Return (v\<lparr>v_player := ui_step opts p, v_window := GlfwBase (OpenGLPlayer 0 [])\<rparr>)
      | UiRun \<Rightarrow>
          if exit_code b \<noteq> None then Return (v\<lparr>v_player := ui_step opts p\<rparr>)
          else bind_outcome
            (run_action genv (frame_hooks nenv) False
              (if win b = None then OpenWindow (v_params v) else if closing then CloseWindow
               else DrawTurn (current_frame pic p)) (v_lib v, b))
            (\<lambda>(lib, b). Return (v\<lparr>v_lib := lib, v_window := b\<rparr>))
      | _ \<Rightarrow> Return (v\<lparr>v_player := ui_step opts p\<rparr>))"

datatype view_event = Received "byte list" | WindowTurn bool

fun view_step :: "config \<Rightarrow> (nat \<Rightarrow> frame) \<Rightarrow> glfw_env \<Rightarrow> native_env \<Rightarrow> string \<Rightarrow> player_options \<Rightarrow> view_event \<Rightarrow> view \<Rightarrow>
    view option outcome" where
  "view_step cfg pic genv nenv name opts (Received bytes) v = view_recv cfg pic name bytes v"
| "view_step cfg pic genv nenv name opts (WindowTurn closing) v =
     bind_outcome (window_turn pic genv nenv opts closing v) (\<lambda>v. Return (Some v))"

text \<open>A schedule; an exception that leaves a handler ends the program.\<close>

fun view_run :: "config \<Rightarrow> (nat \<Rightarrow> frame) \<Rightarrow> glfw_env \<Rightarrow> native_env \<Rightarrow> string \<Rightarrow> player_options \<Rightarrow> view_event list \<Rightarrow> view \<Rightarrow>
    view option outcome" where
  "view_run cfg pic genv nenv name opts [] v = Return (Some v)"
| "view_run cfg pic genv nenv name opts (e # es) v =
     bind_outcome (view_step cfg pic genv nenv name opts e v) (\<lambda>r.
       case r of None \<Rightarrow> Return None | Some v \<Rightarrow> view_run cfg pic genv nenv name opts es v)"

fun bytes_of :: "view_event list \<Rightarrow> byte list list" where
  "bytes_of [] = []"
| "bytes_of (Received bytes # es) = bytes # bytes_of es"
| "bytes_of (WindowTurn closing # es) = bytes_of es"

section \<open>The player's part\<close>

text \<open>What the network thread has done with the messages \<open>ds\<close> it has handled.\<close>

definition fed_ok :: "config \<Rightarrow> net_data list \<Rightarrow> native_player \<Rightarrow> bool" where
  "fed_ok cfg ds p \<longleftrightarrow>
     decoded p = dropWhile (\<lambda>x. \<not> is_key x) ds \<and> recv_from_key_frame p = (decoded p \<noteq> []) \<and>
     ui_ok p = (outputs cfg (decoded p) \<noteq> []) \<and> shown p = tl (outputs cfg (decoded p))"

lemma dropWhile_snoc: "dropWhile P (xs @ [x]) = (if dropWhile P xs = [] then (if P x then [] else [x]) else dropWhile P xs @ [x])"
  by (induction xs) auto

lemma OnEventRecv_fed:
  assumes "fed_ok cfg ds p" and "only_video (ops p)" and "OnEventRecv cfg data p = Return (Some p')"
  shows "fed_ok cfg (ds @ [data]) p' \<and> ops p' = ops p \<and> ui_at p' = ui_at p \<and> ui p' = ui p \<and> ioc_stopped p' = ioc_stopped p"
proof (cases "recv_from_key_frame p \<or> is_key data")
  case False
  then have "p' = p" using assms(3) by (simp add: OnEventRecv_def)
  moreover have "decoded p = []" using assms(1) False unfolding fed_ok_def by metis
  moreover have "dropWhile (\<lambda>x. \<not> is_key x) (ds @ [data]) = []"
    using assms(1) False unfolding fed_ok_def by (metis dropWhile_snoc)
  ultimately show ?thesis using assms(1) False by (simp add: fed_ok_def)
next
  case True
  then obtain op where op: "ops p (media data) = Some op"
    using assms(3) by (auto simp: OnEventRecv_def Let_def split: option.splits)
  then have video: "media data = AVMEDIA_TYPE_VIDEO" using assms(2) by (auto simp: only_video_def)
  have dec: "dropWhile (\<lambda>x. \<not> is_key x) (ds @ [data]) = decoded p @ [data]"
    using assms(1) True by (auto simp: fed_ok_def dropWhile_snoc)
  show ?thesis
    using assms True op video unfolding fed_ok_def dec
    by (auto simp: OnEventRecv_def Let_def outputs_snoc tl_append split: if_splits frame_result.splits list.splits)
qed

section \<open>The window's part\<close>

text \<open>The frame a drawing finds when \<open>n\<close> frames have been shown.\<close>

definition frame_at :: "(nat \<Rightarrow> frame) \<Rightarrow> nat list \<Rightarrow> nat \<Rightarrow> frame option" where
  "frame_at pic xs n = (if n = 0 then None else Some (pic (xs ! (n - 1))))"

lemma current_frame_at: "current_frame pic p = frame_at pic (shown p) (length (shown p))"
  by (cases "shown p" rule: rev_cases) (simp_all add: current_frame_def frame_at_def)

lemma frame_at_append: "n \<le> length xs \<Longrightarrow> frame_at pic (xs @ ys) n = frame_at pic xs n"
  by (simp add: frame_at_def nth_append)

text \<open>The drawings so far found ever later frames, and every frame found was uploaded.\<close>

definition drawn_ok :: "(nat \<Rightarrow> frame) \<Rightarrow> nat list \<Rightarrow> glfw_window \<Rightarrow> bool" where
  "drawn_ok pic xs b \<longleftrightarrow> (\<exists>ns. sorted ns \<and> (\<forall>n \<in> set ns. n \<le> length xs) \<and>
     uploads (gl_calls (gl b)) = planes_of (map (frame_at pic xs) ns))"

lemma drawn_ok_append:
  assumes "drawn_ok pic xs b"
  shows "drawn_ok pic (xs @ ys) b"
proof -
  obtain ns where ns: "sorted ns" "\<forall>n \<in> set ns. n \<le> length xs"
      "uploads (gl_calls (gl b)) = planes_of (map (frame_at pic xs) ns)"
    using assms by (auto simp: drawn_ok_def)
  moreover have "map (frame_at pic (xs @ ys)) ns = map (frame_at pic xs) ns"
    using ns(2) by (simp add: frame_at_append)
  ultimately show ?thesis
    unfolding drawn_ok_def by (intro exI [of _ ns]) (auto simp del: map_eq_conv)
qed

text \<open>A window in its loop.\<close>

definition loop_ready :: "glfw \<Rightarrow> glfw_window \<Rightarrow> bool" where
  "loop_ready lib b \<longleftrightarrow> (\<forall>w. win b = Some w \<longrightarrow> w \<in> open_windows lib \<and> native_ready (gl b) \<and> shader (gl b) \<noteq> None)"

definition window_inv :: "(nat \<Rightarrow> frame) \<Rightarrow> nat list \<Rightarrow> glfw \<Rightarrow> glfw_window \<Rightarrow> bool" where
  "window_inv pic xs lib b \<longleftrightarrow> glfw_window.callback b = None \<and> drawn_ok pic xs b \<and>
     (win b = None \<longrightarrow> exit_code b \<noteq> None \<or> gl b = OpenGLPlayer 0 [] \<and> window_events b = []) \<and> loop_ready lib b"

lemma planes_of_append: "planes_of (fs @ gs) = planes_of fs @ planes_of gs"
  by (induction fs rule: planes_of.induct) simp_all

text \<open>One drawing: the frame found is uploaded, and read by the shader.\<close>

lemma draw_turn:
  assumes "native_ready p" and "drawable f"
  shows "\<exists>q. OnDraw (emit (draw_prelude b) (Update f p)) = Return q \<and> native_ready q \<and> shader q = shader p \<and>
    uploads (gl_calls q) = uploads (gl_calls p) @ planes_of [f] \<and>
    (case f of None \<Rightarrow> True | Some x \<Rightarrow> shader_reads ''RED'' x q)"
proof -
  obtain y u v where tex: "textures_are p y u v" "units_ready y u v (gl_state (gl_calls p))"
    using assms(1) by (auto simp: native_ready_def)
  define p1 where "p1 = emit (draw_prelude b) (Update f p)"
  have p1: "textures_are p1 y u v" "units_ready y u v (gl_state (gl_calls p1))" "frame_ptr p1 = f" "vao p1 = vao p" "shader p1 = shader p"
    and up: "uploads (gl_calls p1) = uploads (gl_calls p)"
    using tex by (cases "clear_color b"; simp add: p1_def draw_prelude_def Update_def textures_are_def)+
  let ?tail = "[BindVertexArray (vao p), DrawArrays ''TRIANGLE_STRIP'' 0 4]"
  show ?thesis
  proof (cases f)
    case None
    then have "OnDraw p1 = Return (emit ?tail p1)" using p1(3,4) by (simp add: OnDraw_def OnDraw_seen_def)
    then show ?thesis
      using p1 up None unfolding p1_def [symmetric]
      by (intro exI [of _ "emit ?tail p1"]) (auto simp: native_ready_def textures_are_def)
  next
    case (Some x)
    have x: "aligned x" using assms(2) Some by (simp add: drawable_def)
    define q where "q = emit (plane_calls ''RED'' x y u v @ ?tail) p1"
    have "OnDraw p1 = Return q" using OnDraw_aligned [OF p1(1) x] p1(3,4) Some by (simp add: q_def)
    moreover have "native_ready q"
      using p1(1) plane_calls_run(3) [OF p1(2)]
      by (auto simp: native_ready_def q_def textures_are_def intro!: exI [of _ y] exI [of _ u] exI [of _ v])
    moreover have "shader_reads ''RED'' x q"
      using plane_calls_sampled [OF p1(2), of "''RED''" x] by (subst shader_reads_cong) (auto simp: q_def)
    ultimately show ?thesis
      using Some p1(5) up unfolding p1_def [symmetric] by (intro exI [of _ q]) (simp add: q_def plane_calls_run)
  qed
qed

text \<open>Where GLFW and GLEW work and the pictures are drawn within their bounds.\<close>

definition window_works :: "glfw_env \<Rightarrow> native_env \<Rightarrow> (nat \<Rightarrow> frame) \<Rightarrow> bool" where
  "window_works genv nenv pic \<longleftrightarrow> init_ok genv \<and> create_ok genv \<and> glew_ok nenv \<and> (\<forall>n. aligned (pic n))"

lemma drawable_at: "window_works genv nenv pic \<Longrightarrow> drawable (frame_at pic xs n)"
  by (simp add: window_works_def drawable_def frame_at_def)

lemma open_ok:
  assumes works: "window_works genv nenv pic"
    and ok: "window_inv pic xs lib b" and closed: "win b = None" "exit_code b = None"
    and run: "run_action genv (frame_hooks nenv) False (OpenWindow params) (lib, b) = Return (lib', b')"
  shows "window_inv pic xs lib' b' \<and> win b' \<noteq> None \<and> exit_code b' = None \<and>
    window_events b' = opening_events params (next_window lib)"
proof -
  have b: "glfw_window.callback b = None" "gl b = OpenGLPlayer 0 []" "drawn_ok pic xs b" "window_events b = []"
    using ok closed by (auto simp: window_inv_def)
  have opens: "init_ok genv" "create_ok genv" "glew_ok nenv" using works by (simp_all add: window_works_def)
  obtain cs where cs: "OnInit nenv (gl b) = (OpenGLPlayer 0 [])\<lparr>shader := Some 2, vao := 3, vbo := 4, texture_y := Some 5,
      texture_u := Some 6, texture_v := Some 7, fresh_name := 8, gl_calls := cs\<rparr>"
      "\<forall>s. units_ready 5 6 7 (fold gl_exec cs s)" "uploads cs = []"
    using set_up_run [of nenv frame_vertex_source frame_fragment_source "OpenGLPlayer 0 []"] opens(3)
    by (auto simp: OnInit_def b(2) OpenGLPlayer_def)
  define p where "p = OnInit nenv (gl b)"
  have ready: "native_ready p" "shader p = Some 2" and none: "uploads (gl_calls p) = uploads (gl_calls (gl b))"
    using cs by (auto simp: p_def native_ready_def textures_are_def gl_state_def b(2) OpenGLPlayer_def)
  have "lib' = lib\<lparr>glfw_initialised := True, open_windows := insert (next_window lib) (open_windows lib),
        next_window := Suc (next_window lib)\<rparr>"
      "b' = b\<lparr>win := Some (next_window lib), glsl_version := ''#version 130'', gl := p,
        window_events := opening_events params (next_window lib)\<rparr>"
    using b(4) run [unfolded Open_run [OF opens(1,2) closed(1) b(1)]] by (simp_all add: frame_hooks_def p_def)
  then show ?thesis
    using b ready none closed(2) by (simp add: window_inv_def loop_ready_def drawn_ok_def)
qed

lemma draw_ok:
  assumes works: "window_works genv nenv pic"
    and ok: "window_inv pic xs lib b" and opened: "win b = Some w"
  shows "\<exists>b'. run_action genv (frame_hooks nenv) False (DrawTurn (frame_at pic xs (length xs))) (lib, b) = Return (lib, b') \<and>
    window_inv pic xs lib b' \<and> win b' = win b \<and> exit_code b' = exit_code b \<and>
    (\<exists>es. window_events b' = window_events b @ es) \<and>
    (case frame_at pic xs (length xs) of None \<Rightarrow> True | Some x \<Rightarrow> shader_reads ''RED'' x (gl b'))"
proof -
  have b: "glfw_window.callback b = None" "w \<in> open_windows lib" "native_ready (gl b)" "shader (gl b) \<noteq> None"
    using ok opened by (auto simp: window_inv_def loop_ready_def)
  obtain ns where ns: "sorted ns" "\<forall>n \<in> set ns. n \<le> length xs"
      "uploads (gl_calls (gl b)) = planes_of (map (frame_at pic xs) ns)"
    using ok by (auto simp: window_inv_def drawn_ok_def)
  obtain q where q: "OnDraw (emit (draw_prelude b) (Update (frame_at pic xs (length xs)) (gl b))) = Return q" "native_ready q" "shader q = shader (gl b)"
      "uploads (gl_calls q) = uploads (gl_calls (gl b)) @ planes_of [frame_at pic xs (length xs)]"
      "case frame_at pic xs (length xs) of None \<Rightarrow> True | Some x \<Rightarrow> shader_reads ''RED'' x q"
    using draw_turn [OF b(3) drawable_at [OF works], of b xs "length xs"] by (elim exE conjE)
  define b' where "b' = b\<lparr>gl := q, window_events := window_events b @ turn_events False w\<rparr>"
  have "run_action genv (frame_hooks nenv) False (DrawTurn (frame_at pic xs (length xs))) (lib, b) = Return (lib, b')"
    using q(1) by (simp add: Turn_run [OF opened b(2,1)] frame_hooks_def b'_def)
  moreover have "drawn_ok pic xs b'"
    unfolding drawn_ok_def using ns q(4)
    by (intro exI [of _ "ns @ [length xs]"]) (simp add: b'_def sorted_append planes_of_append)
  ultimately show ?thesis
    using ok opened b(2,4) q(2,3,5)
    by (intro exI [of _ b']) (simp add: b'_def window_inv_def loop_ready_def cong: option.case_cong)
qed

lemma close_ok:
  assumes ok: "window_inv pic xs lib b" and opened: "win b = Some w"
    and run: "run_action genv (frame_hooks nenv) False CloseWindow (lib, b) = Return (lib', b')"
  shows "window_inv pic xs lib' b' \<and> win b' = None \<and> exit_code b' = Some 0 \<and> (\<exists>es. window_events b' = window_events b @ es)"
proof -
  have b: "glfw_window.callback b = None" "w \<in> open_windows lib"
    using ok opened by (auto simp: window_inv_def loop_ready_def)
  obtain q where q: "OnDestroy (gl b) = Return q"
      "b' = b\<lparr>gl := q, win := None, window_events := window_events b @ [GlfwDestroyWindow w, GlfwTerminate], exit_code := Some 0\<rparr>"
    using run by (auto simp: Close_run [OF opened b(2,1)] frame_hooks_def bind_outcome_eq_Return)
  then have "uploads (gl_calls q) = uploads (gl_calls (gl b))"
    by (auto simp: OnDestroy_def delete_at_def bind_outcome_eq_Return split: option.splits)
  then show ?thesis
    using ok q(2) by (simp add: window_inv_def loop_ready_def drawn_ok_def)
qed

section \<open>The whole program\<close>

definition view_inv :: "config \<Rightarrow> (nat \<Rightarrow> frame) \<Rightarrow> string \<Rightarrow> player_options \<Rightarrow> net_data list \<Rightarrow> view \<Rightarrow> bool" where
  "view_inv cfg pic name opts ds v \<longleftrightarrow>
     (let p = v_player v; b = v_window v; params = frame_params pic name (hd (outputs cfg (decoded p))) in
      ninv opts p \<and> fed_ok cfg ds p \<and> window_inv pic (shown p) (v_lib v) b \<and>
      (ui_ok p \<longrightarrow> v_params v = params) \<and>
      (win b \<noteq> None \<longrightarrow> ui_ok p \<and> ui_at p = UiRun \<and> exit_code b = None \<and>
        (\<exists>w es. window_events b = opening_events params w @ es)))"

lemma only_video_ops: "ninv opts p \<Longrightarrow> only_video (ops p)"
  using player_ops_only_video [of Map.empty opts "info_subs opts"] by (simp add: ninv_def only_video_def)

lemma view_inv_recv:
  assumes inv: "view_inv cfg pic name opts ds v" and "OnEventRecv cfg data (v_player v) = Return (Some p')"
  shows "view_inv cfg pic name opts (ds @ [data])
    (v\<lparr>v_player := p', v_params := params_after cfg pic name (v_player v) p' (v_params v)\<rparr>)"
proof -
  let ?p = "v_player v"
  have p: "ninv opts ?p" "fed_ok cfg ds ?p" using inv by (simp_all add: view_inv_def Let_def)
  note fed = OnEventRecv_fed [OF p(2) only_video_ops [OF p(1)] assms(2)]
  have "ninv opts p'" by (rule OnEventRecv_ninv [OF assms(2) p(1)])
  moreover obtain zs where out: "outputs cfg (decoded p') = outputs cfg (decoded ?p) @ zs"
  proof -
    have "decoded p' = decoded ?p \<or> decoded p' = decoded ?p @ [data]"
      using assms(2) by (auto simp: OnEventRecv_def Let_def split: if_splits option.splits frame_result.splits)
    then show thesis using that by (auto simp: outputs_snoc)
  qed
  moreover have grown: "\<exists>ys. shown p' = shown ?p @ ys"
    using fed p(2) out by (cases "outputs cfg (decoded ?p)") (auto simp: fed_ok_def)
  moreover have kept: "ui_ok ?p \<Longrightarrow> ui_ok p' \<and> hd (outputs cfg (decoded p')) = hd (outputs cfg (decoded ?p))"
    using fed p(2) out by (auto simp: fed_ok_def)
  moreover have params: "params_after cfg pic name ?p p' (v_params v) = frame_params pic name (hd (outputs cfg (decoded p')))"
    if ok: "ui_ok p'"
  proof (cases "ui_ok ?p")
    case True
    then have "v_params v = frame_params pic name (hd (outputs cfg (decoded ?p)))"
      using inv by (simp add: view_inv_def Let_def)
    then show ?thesis using True kept by (simp add: params_after_def split: frame_result.split)
  next
    case False
    then have "\<exists>n. codec cfg (decoded p') = GotFrame n \<and> hd (outputs cfg (decoded p')) = n"
      using ok assms(2) p(2)
      by (auto simp: OnEventRecv_def Let_def fed_ok_def outputs_snoc split: if_splits option.splits frame_result.splits)
    then show ?thesis using ok False by (auto simp: params_after_def)
  qed
  moreover have "window_inv pic (shown p') (v_lib v) (v_window v)"
    using inv grown by (auto simp: view_inv_def Let_def window_inv_def drawn_ok_append)
  moreover have "win (v_window v) \<noteq> None \<Longrightarrow> ui_ok ?p \<and> ui_at ?p = UiRun \<and> exit_code (v_window v) = None \<and>
      (\<exists>w es. window_events (v_window v) = opening_events (frame_params pic name (hd (outputs cfg (decoded ?p)))) w @ es)"
    using inv by (simp add: view_inv_def Let_def)
  ultimately show ?thesis
    using fed unfolding view_inv_def Let_def by simp
qed

lemma view_inv_turn:
  assumes inv: "view_inv cfg pic name opts ds v" and works: "window_works genv nenv pic"
    and run: "window_turn pic genv nenv opts closing v = Return v'"
  shows "view_inv cfg pic name opts ds v' \<and> decoded (v_player v') = decoded (v_player v) \<and> shown (v_player v') = shown (v_player v)"
proof -
  let ?p = "v_player v" and ?b = "v_window v"
  let ?params = "frame_params pic name (hd (outputs cfg (decoded ?p)))"
  have ok: "ninv opts ?p" "fed_ok cfg ds ?p" "window_inv pic (shown ?p) (v_lib v) ?b" "ui_ok ?p \<longrightarrow> v_params v = ?params"
    and opened: "win ?b \<noteq> None \<longrightarrow> ui_ok ?p \<and> ui_at ?p = UiRun \<and> exit_code ?b = None \<and>
      (\<exists>w es. window_events ?b = opening_events ?params w @ es)"
    using inv by (simp_all add: view_inv_def Let_def)
  have step: "ninv opts (ui_step opts ?p)" by (rule ui_step_ninv [OF ok(1)])
  have same: "fed_ok cfg ds (ui_step opts ?p)" "decoded (ui_step opts ?p) = decoded ?p" "shown (ui_step opts ?p) = shown ?p"
    "ui_ok (ui_step opts ?p) = ui_ok ?p"
    using ok(2) by (auto simp: ui_step_def ui_over_def fed_ok_def split: ui_pc.split nat.split)
  have fresh: "window_inv pic xs lib (GlfwBase (OpenGLPlayer 0 []))" for xs lib
    by (auto simp: window_inv_def loop_ready_def drawn_ok_def GlfwBase_def OpenGLPlayer_def intro: exI [of _ "[]"])
  show ?thesis
  proof (cases "ui_at ?p = UiRun \<and> exit_code ?b = None")
    case True
    then have ui: "ui_ok ?p" using ok(1) by (simp add: ninv_def)
    let ?act = "if win ?b = None then OpenWindow (v_params v) else if closing then CloseWindow else DrawTurn (current_frame pic ?p)"
    obtain lib b where r: "run_action genv (frame_hooks nenv) False ?act (v_lib v, ?b) = Return (lib, b)"
        "v' = v\<lparr>v_lib := lib, v_window := b\<rparr>"
      using run True by (auto simp: window_turn_def Let_def bind_outcome_eq_Return)
    have "window_inv pic (shown ?p) lib b \<and> (win b \<noteq> None \<longrightarrow> exit_code b = None \<and>
        (\<exists>w es. window_events b = opening_events ?params w @ es))"
    proof (cases "win ?b")
      case None
      then show ?thesis
        using open_ok [OF works ok(3) None] True r(1) ok(4) ui
        by fastforce
    next
      case (Some w)
      show ?thesis
      proof (cases closing)
        case True
        then show ?thesis using close_ok [OF ok(3) Some] r(1) Some by auto
      next
        case False
        then obtain es where drawn: "window_inv pic (shown ?p) lib b" "exit_code b = exit_code ?b" "window_events b = window_events ?b @ es"
          using draw_ok [OF works ok(3) Some] r(1) Some by (auto simp: current_frame_at)
        obtain w' es' where "window_events ?b = opening_events ?params w' @ es'" "exit_code ?b = None" using opened Some by auto
        then show ?thesis using drawn by auto
      qed
    qed
    then show ?thesis using ok ui True r(2) by (simp add: view_inv_def Let_def)
  next
    case False
    then have closed: "win ?b = None" using opened by blast
    have "v' = v\<lparr>v_player := ui_step opts ?p\<rparr> \<or>
        v' = v\<lparr>v_player := ui_step opts ?p, v_window := GlfwBase (OpenGLPlayer 0 [])\<rparr>"
      using run False by (auto simp: window_turn_def Let_def split: ui_pc.splits)
    then show ?thesis
      using ok step same closed fresh by (auto simp: view_inv_def Let_def GlfwBase_def)
  qed
qed

lemma view_run_append:
  "view_run cfg pic genv nenv name opts (es @ fs) v =
     bind_outcome (view_run cfg pic genv nenv name opts es v) (\<lambda>r.
       case r of None \<Rightarrow> Return None | Some v \<Rightarrow> view_run cfg pic genv nenv name opts fs v)"
proof (induction es arbitrary: v)
  case (Cons e es)
  show ?case
    by (cases "view_step cfg pic genv nenv name opts e v") (auto simp: Cons bind_outcome_assoc split: option.split)
qed simp

lemma view_inv_start: "view_inv cfg pic name opts [] (view_start opts)"
proof -
  have "ninv opts (WsStreamClient opts)" by (simp add: WsStreamClient_def ninv_def)
  then show ?thesis
    by (auto simp: view_inv_def view_start_def fed_ok_def WsStreamClient_def outputs_def window_inv_def loop_ready_def
        drawn_ok_def GlfwBase_def OpenGLPlayer_def intro: exI [of _ "[]"])
qed

text \<open>In a schedule that ends without a crash the player has handled the first of the messages it received,
  up to the point where its network was stopped.\<close>

lemma view_run_inv:
  assumes "view_inv cfg pic name opts ds v" and "window_works genv nenv pic"
    and "view_run cfg pic genv nenv name opts es v = Return (Some v')"
    and "parse_all cfg (bytes_of es) = Return ds'"
  shows "\<exists>hs. prefix hs ds' \<and> view_inv cfg pic name opts (ds @ hs) v' \<and> (ioc_stopped (v_player v) \<longrightarrow> hs = [])"
  using assms
proof (induction es arbitrary: ds v ds')
  case Nil
  then show ?case by (auto intro!: exI [of _ "[]"])
next
  case (Cons e es)
  obtain u where u: "view_step cfg pic genv nenv name opts e v = Return (Some u)"
      "view_run cfg pic genv nenv name opts es u = Return (Some v')"
    using Cons.prems(3) by (auto simp: bind_outcome_eq_Return split: option.splits)
  show ?case
  proof (cases e)
    case (WindowTurn closing)
    then have turn: "window_turn pic genv nenv opts closing v = Return u" and bytes: "parse_all cfg (bytes_of es) = Return ds'"
      using u(1) Cons.prems(4) by (auto simp: bind_outcome_eq_Return)
    have "view_inv cfg pic name opts ds u" using view_inv_turn [OF Cons.prems(1,2) turn] by blast
    from Cons.IH [OF this Cons.prems(2) u(2) bytes] obtain hs where
      hs: "prefix hs ds'" "view_inv cfg pic name opts (ds @ hs) v'" "ioc_stopped (v_player u) \<longrightarrow> hs = []" by blast
    moreover have "ioc_stopped (v_player v) \<longrightarrow> ioc_stopped (v_player u)"
      using turn by (auto simp: window_turn_def Let_def ui_step_def ui_over_def bind_outcome_eq_Return
          split: ui_pc.splits nat.splits if_splits)
    ultimately show ?thesis by blast
  next
    case (Received bytes)
    obtain st data ds2 where parsed: "FromBytes (av cfg) (wide cfg) bytes Data = Return (st, data)"
        "parse_all cfg (bytes_of es) = Return ds2" "ds' = data # ds2"
      using Cons.prems(4) Received by (auto simp: bind_outcome_eq_Return)
    show ?thesis
    proof (cases "ioc_stopped (v_player v)")
      case True
      then have "u = v" using u(1) Received by (simp add: view_recv_def)
      with Cons.IH [OF Cons.prems(1,2) _ parsed(2)] u(2) True show ?thesis by fastforce
    next
      case False
      obtain p where p: "OnEventRecv cfg data (v_player v) = Return (Some p)"
          "u = v\<lparr>v_player := p, v_params := params_after cfg pic name (v_player v) p (v_params v)\<rparr>"
        using u(1) Received False parsed(1) by (auto simp: view_recv_def bind_outcome_eq_Return)
      from Cons.IH [OF view_inv_recv [OF Cons.prems(1) p(1), folded p(2)] Cons.prems(2) u(2) parsed(2)] obtain hs where
        "prefix hs ds2" "view_inv cfg pic name opts ((ds @ [data]) @ hs) v'" by blast
      then show ?thesis using False parsed(3) by (intro exI [of _ "data # hs"]) simp
    qed
  qed
qed

text \<open>The window's thread never crashes.\<close>

lemma window_turn_returns:
  assumes inv: "view_inv cfg pic name opts ds v" and works: "window_works genv nenv pic"
  shows "\<exists>v'. window_turn pic genv nenv opts closing v = Return v'"
proof (cases "ui_at (v_player v) = UiRun \<and> exit_code (v_window v) = None")
  case True
  let ?b = "v_window v"
  have ok: "window_inv pic (shown (v_player v)) (v_lib v) ?b" using inv by (simp add: view_inv_def Let_def)
  then have cb: "glfw_window.callback ?b = None" by (simp add: window_inv_def)
  show ?thesis
  proof (cases "win ?b")
    case None
    then show ?thesis
      using True works Open_run [OF _ _ None cb] by (simp add: window_turn_def Let_def frame_hooks_def window_works_def)
  next
    case (Some w)
    have w: "w \<in> open_windows (v_lib v)" "shader (gl ?b) \<noteq> None" using ok Some by (auto simp: window_inv_def loop_ready_def)
    show ?thesis
    proof (cases closing)
      case True
      then show ?thesis
        using w(2) \<open>ui_at (v_player v) = UiRun \<and> exit_code (v_window v) = None\<close> Close_run [OF Some w(1) cb] Some
        by (auto simp: window_turn_def Let_def frame_hooks_def OnDestroy_def delete_at_def)
    next
      case False
      obtain b' where "run_action genv (frame_hooks nenv) False
          (DrawTurn (frame_at pic (shown (v_player v)) (length (shown (v_player v))))) (v_lib v, ?b) = Return (v_lib v, b')"
        using draw_ok [OF works ok Some] by (elim exE conjE)
      then show ?thesis using True False Some by (simp add: window_turn_def Let_def current_frame_at)
    qed
  qed
qed (auto simp: window_turn_def Let_def split: ui_pc.split)

text \<open>Exactly when the next message crashes the player: one that passes the key-frame gate while the network runs, and
  whose media type has no decoder, or which gives a frame after the first before the window is made.\<close>

lemma view_recv_crashes_iff:
  assumes inv: "view_inv cfg pic name opts ds v" and parsed: "FromBytes (av cfg) (wide cfg) bytes Data = Return (st, data)"
  shows "view_recv cfg pic name bytes v = OutOfBounds \<longleftrightarrow>
    \<not> ioc_stopped (v_player v) \<and> (decoded (v_player v) \<noteq> [] \<or> is_key data) \<and>
    (media data \<notin> dom (ops (v_player v)) \<or>
     outputs cfg (decoded (v_player v)) \<noteq> [] \<and> \<not> ui (v_player v) \<and>
     (\<exists>n. codec cfg (decoded (v_player v) @ [data]) = GotFrame n))"
proof -
  let ?p = "v_player v"
  have p: "ninv opts ?p" "recv_from_key_frame ?p = (decoded ?p \<noteq> [])" "ui_ok ?p = (outputs cfg (decoded ?p) \<noteq> [])"
    using inv by (simp_all add: view_inv_def Let_def fed_ok_def)
  have "view_recv cfg pic name bytes v = OutOfBounds \<longleftrightarrow> \<not> ioc_stopped ?p \<and> OnEventRecv cfg data ?p = OutOfBounds"
    using parsed by (cases "OnEventRecv cfg data ?p") (simp_all add: view_recv_def)
  also have "OnEventRecv cfg data ?p = OutOfBounds \<longleftrightarrow> (decoded ?p \<noteq> [] \<or> is_key data) \<and>
     (media data \<notin> dom (ops ?p) \<or> outputs cfg (decoded ?p) \<noteq> [] \<and> \<not> ui ?p \<and>
      (\<exists>n. codec cfg (decoded ?p @ [data]) = GotFrame n))"
  proof (cases "ops ?p (media data)")
    case None
    then show ?thesis using p(2) by (auto simp: OnEventRecv_def Let_def domIff)
  next
    case (Some op)
    then have "media data = AVMEDIA_TYPE_VIDEO" using ops_video [OF p(1)] by auto
    then show ?thesis using Some p(2,3) by (auto simp: OnEventRecv_def Let_def domIff split: frame_result.splits)
  qed
  finally show ?thesis .
qed

text \<open>The next drawing of an open window: the shader reads the last frame shown.\<close>

lemma next_drawing:
  assumes inv: "view_inv cfg pic name opts ds v" and works: "window_works genv nenv pic"
    and "win (v_window v) = Some w" and "shown (v_player v) \<noteq> []"
  shows "\<exists>v'. window_turn pic genv nenv opts False v = Return v' \<and> v_player v' = v_player v \<and>
    shader_reads ''RED'' (pic (last (shown (v_player v)))) (gl (v_window v'))"
proof -
  let ?p = "v_player v"
  have ok: "window_inv pic (shown ?p) (v_lib v) (v_window v)" "ui_at ?p = UiRun" "exit_code (v_window v) = None"
    using inv assms(3) by (simp_all add: view_inv_def Let_def)
  have last: "frame_at pic (shown ?p) (length (shown ?p)) = Some (pic (last (shown ?p)))"
    using assms(4) current_frame_at [of pic ?p] by (simp add: current_frame_def)
  obtain b' where "run_action genv (frame_hooks nenv) False (DrawTurn (frame_at pic (shown ?p) (length (shown ?p)))) (v_lib v, v_window v) =
      Return (v_lib v, b')" "shader_reads ''RED'' (pic (last (shown ?p))) (gl b')"
    using draw_ok [OF works ok(1) assms(3)] by (auto simp: last)
  then show ?thesis using ok assms(3) by (simp add: window_turn_def Let_def current_frame_at)
qed

end
