(* ===== verification/VideoEncoder.thy ===== *)
theory VideoEncoder imports StreamHandler begin

text \<open>
  The other operations of \<open>rtsp-ws-proxy/stream_video_encoder.cc\<close>: \<open>Send\<close>, \<open>Recv\<close>, \<open>Encode\<close>, \<open>Flush\<close> and
  \<open>Free\<close> (its creation is in theory \<open>StreamFilter\<close>).  \<open>Encode\<close> is the loop that the transcoding filter and the handler
  share out between them; the lemmas show that it gives the same packets.  Passing no frame to the encoder is the
  parameter \<open>flush\<close>.
\<close>

section \<open>The encoder\<close>

record 'e video_encoder =
  encoder_ctx :: "'e option"
  has_packet :: bool                       \<comment> \<open>\<open>packet_\<close> is not null\<close>

definition made_encoder :: "'e \<Rightarrow> 'e video_encoder" where
  "made_encoder e = \<lparr>encoder_ctx = Some e, has_packet = False\<rparr>"

text \<open>A null context is \<open>LOG_IF(FATAL, \<dots>)\<close>.\<close>

definition encoder_Send :: "('e, 'p) enc_api \<Rightarrow> ('e \<Rightarrow> int \<times> 'e) \<Rightarrow> 'p av_frame option \<Rightarrow> 'e video_encoder \<Rightarrow>
    int call \<times> 'e video_encoder" where
  "encoder_Send api flush frame enc =
     (case encoder_ctx enc of
        None \<Rightarrow> (Undefined, enc)
      | Some e \<Rightarrow>
          let (ret, e) = (case frame of Some f \<Rightarrow> encoder_send api e f | None \<Rightarrow> flush e) in
          (Ok ret, enc\<lparr>encoder_ctx := Some e\<rparr>))"

definition encoder_Recv :: "('e, 'p) enc_api \<Rightarrow> 'e video_encoder \<Rightarrow> (int \<times> av_packet) call \<times> 'e video_encoder" where
  "encoder_Recv api enc =
     (case encoder_ctx enc of
        None \<Rightarrow> (Undefined, enc)
      | Some e \<Rightarrow>
          let (ret, pkt, e) = encoder_receive api e in
          (if has_packet enc then Ok (ret, pkt) else Undefined, enc\<lparr>encoder_ctx := Some e\<rparr>))"

text \<open>The loop; the callback has a state of its own and may throw.\<close>

partial_function (option) encode_loop ::
  "('e, 'p) enc_api \<Rightarrow> ('s \<Rightarrow> av_packet \<Rightarrow> unit call \<times> 's) \<Rightarrow> 'e video_encoder \<Rightarrow> 's \<Rightarrow>
     (unit call \<times> 'e video_encoder \<times> 's) option" where
  "encode_loop api on_recv enc s =
     (case encoder_Recv api enc of (r, enc) \<Rightarrow>
       (case r of
          Ok (ret, pkt) \<Rightarrow>
            if ret = ENC_EAGAIN api \<or> ret = ENC_EOF api then Some (Ok (), enc, s)
            else if ret < 0 then Some (Throw (AvError ret), enc, s)
            else (case on_recv s pkt of (r, s) \<Rightarrow>
              (case r of
                 Ok u \<Rightarrow> encode_loop api on_recv enc s
               | Throw x \<Rightarrow> Some (Throw x, enc, s)
               | Undefined \<Rightarrow> Some (Undefined, enc, s)))
        | Throw x \<Rightarrow> Some (Throw x, enc, s)
        | Undefined \<Rightarrow> Some (Undefined, enc, s)))"

definition Encode :: "('e, 'p) enc_api \<Rightarrow> ('e \<Rightarrow> int \<times> 'e) \<Rightarrow> ('s \<Rightarrow> av_packet \<Rightarrow> unit call \<times> 's) \<Rightarrow> 'p av_frame option \<Rightarrow>
    'e video_encoder \<Rightarrow> 's \<Rightarrow> (unit call \<times> 'e video_encoder \<times> 's) option" where
  "Encode api flush on_recv frame enc s =
     (case encoder_Send api flush frame enc of
        (Ok ret, enc) \<Rightarrow>
          if ret < 0 then Some (Throw (AvError ret), enc, s)
          else encode_loop api on_recv (enc\<lparr>has_packet := True\<rparr>) s
      | (Throw x, enc) \<Rightarrow> Some (Throw x, enc, s)
      | (Undefined, enc) \<Rightarrow> Some (Undefined, enc, s))"

definition Flush :: "('e, 'p) enc_api \<Rightarrow> ('e \<Rightarrow> int \<times> 'e) \<Rightarrow> 'e video_encoder \<Rightarrow> int call \<times> 'e video_encoder" where
  "Flush api flush enc = encoder_Send api flush None enc"

text \<open>What the destructor gives back: the packet and the context, if there are any.\<close>

definition Free :: "'e video_encoder \<Rightarrow> string list \<times> 'e video_encoder" where
  "Free enc =
     ((if has_packet enc then [''av_packet_free''] else []) @
      (if encoder_ctx enc \<noteq> None then [''avcodec_close'', ''avcodec_free_context''] else []),
      \<lparr>encoder_ctx = None, has_packet = False\<rparr>)"

section \<open>The loop returns\<close>

lemma encode_loop_returns:
  assumes "drains api left" and "encoder_ctx enc = Some e" and "has_packet enc"
  shows "\<exists>r enc' s'. encode_loop api on_recv enc s = Some (r, enc', s') \<and> encoder_ctx enc' \<noteq> None \<and> has_packet enc'"
  using assms(2,3)
proof (induction "left e" arbitrary: enc e s rule: less_induct)
  case less
  obtain ret pkt e' where r: "encoder_receive api e = (ret, pkt, e')" by (cases "encoder_receive api e")
  have recv: "encoder_Recv api enc = (Ok (ret, pkt), enc\<lparr>encoder_ctx := Some e'\<rparr>)"
    using less.prems r by (simp add: encoder_Recv_def)
  show ?case
  proof (cases "ret = ENC_EAGAIN api \<or> ret = ENC_EOF api \<or> ret < 0")
    case True
    then show ?thesis using recv less.prems(2) by (subst encode_loop.simps) auto
  next
    case False
    then have smaller: "left e' < left e" using assms(1) r unfolding drains_def by (metis linorder_not_less)
    obtain c s' where c: "on_recv s pkt = (c, s')" by (cases "on_recv s pkt")
    show ?thesis
      using less.hyps [OF smaller, of "enc\<lparr>encoder_ctx := Some e'\<rparr>" s'] False recv c less.prems(2)
      by (subst encode_loop.simps) (cases c; simp)
  qed
qed

lemma Encode_returns:
  assumes "drains api left" and "encoder_ctx enc = Some e"
  shows "\<exists>r enc' s'. Encode api flush on_recv frame enc s = Some (r, enc', s')"
proof -
  define r where "r = (case frame of Some f \<Rightarrow> encoder_send api e f | None \<Rightarrow> flush e)"
  have "encoder_Send api flush frame enc = (Ok (fst r), enc\<lparr>encoder_ctx := Some (snd r)\<rparr>)"
    using assms(2) by (simp add: encoder_Send_def r_def split_beta)
  then show ?thesis
    using encode_loop_returns [OF assms(1), of "enc\<lparr>encoder_ctx := Some (snd r), has_packet := True\<rparr>" "snd r" on_recv s]
    by (fastforce simp: Encode_def)
qed

section \<open>The same packets as the transcoding filter\<close>

text \<open>The callback that keeps the packets.\<close>

definition keep_packet :: "av_packet list \<Rightarrow> av_packet \<Rightarrow> unit call \<times> av_packet list" where
  "keep_packet out pkt = (Ok (), out @ [pkt])"

text \<open>The receiving loop of the handler, on a transcoder at the end of the chain, and the loop of \<open>Encode\<close>: the
  same packets, the same end, the same encoder after it.\<close>

lemma receiving_loops_agree:
  assumes "drains (h_enc env) left" and "i < length fs" and "fs ! i = FilterEnc g" and "encoder g = Some e"
    and "encoder_ctx enc = Some e" and "has_packet enc"
  shows "\<exists>r e' out'. encode_loop (h_enc env) keep_packet enc out = Some (r, enc\<lparr>encoder_ctx := Some e'\<rparr>, out @ out') \<and>
    recv_loop (RecvPacket env) i (DoFilter (SendPacket env) (RecvPacket env) 0) fs =
      Some (r, fs[i := FilterEnc (g\<lparr>encoder := Some e'\<rparr>)], out')"
  using assms(2-)
proof (induction "left e" arbitrary: enc e fs g out rule: less_induct)
  case less
  obtain ret pkt e' where r: "encoder_receive (h_enc env) e = (ret, pkt, e')" by (cases "encoder_receive (h_enc env) e")
  let ?enc = "enc\<lparr>encoder_ctx := Some e'\<rparr>" and ?g = "g\<lparr>encoder := Some e'\<rparr>"
  have recv: "encoder_Recv (h_enc env) enc = (Ok (ret, pkt), ?enc)"
    using less.prems r by (simp add: encoder_Recv_def)
  have filter: "RecvPacket env (fs ! i) =
      (if ret = ENC_EAGAIN (h_enc env) \<or> ret = ENC_EOF (h_enc env) then Ok (STATUS_BREAK, av_packet_alloc)
       else if ret < 0 then Throw (AvError ret) else Ok (STATUS_AGAIN, pkt), FilterEnc ?g)"
    using less.prems r by (simp add: enc_RecvPacket_def)
  show ?case
  proof (cases "ret = ENC_EAGAIN (h_enc env) \<or> ret = ENC_EOF (h_enc env) \<or> ret < 0")
    case True
    then show ?thesis
      using recv filter by (subst encode_loop.simps, subst recv_loop.simps) (auto intro!: exI [of _ e'])
  next
    case False
    then have "left e' < left e" using assms(1) r unfolding drains_def by (metis linorder_not_less)
    from less.hyps [OF this, of "fs[i := FilterEnc ?g]" ?g ?enc "out @ [pkt]"] less.prems obtain r' e'' out' where
      "encode_loop (h_enc env) keep_packet ?enc (out @ [pkt]) = Some (r', enc\<lparr>encoder_ctx := Some e''\<rparr>, out @ pkt # out')"
      "recv_loop (RecvPacket env) i (DoFilter (SendPacket env) (RecvPacket env) 0) (fs[i := FilterEnc ?g]) =
        Some (r', fs[i := FilterEnc (g\<lparr>encoder := Some e''\<rparr>)], out')"
      by auto
    then show ?thesis
      using False recv filter
      by (subst encode_loop.simps, subst recv_loop.simps) (auto simp: keep_packet_def intro!: exI [of _ e''])
  qed
qed

text \<open>A packet through a transcoder alone is \<open>Encode\<close> of the frame that the filter makes of it.\<close>

lemma transcoding_is_Encode:
  assumes "drains (h_enc env) left" and "encoder f = Some e" and "encode_frame f = Some (w, h)"
    and "frame_width frame \<le> w" "frame_height frame \<le> h"
    and "fr = \<lparr>frame_fmt = AV_PIX_FMT_YUV420P, frame_width = w, frame_height = h, frame_pts = encode_frame_pts f,
      picture = image_copy (h_enc env) (picture frame)\<rparr>"
    and "enc_encode (h_enc env) frame f = (Ok st, g)"
  shows "\<exists>r e' out. Encode (h_enc env) flush keep_packet (Some fr) (made_encoder e) [] =
      Some (r, \<lparr>encoder_ctx = Some e', has_packet = True\<rparr>, out) \<and>
    recv_loop (RecvPacket env) 0 (DoFilter (SendPacket env) (RecvPacket env) 0) [FilterEnc g] =
      Some (r, [FilterEnc (g\<lparr>encoder := Some e'\<rparr>)], out)"
proof -
  obtain ret e1 where s: "encoder_send (h_enc env) e fr = (ret, e1)" by (cases "encoder_send (h_enc env) e fr")
  have ok: "\<not> ret < 0" "encoder g = Some e1"
    using assms(2-7) s by (auto simp: enc_encode_def Let_def split: if_splits)
  have "\<exists>r e' out'. encode_loop (h_enc env) keep_packet \<lparr>encoder_ctx = Some e1, has_packet = True\<rparr> [] =
        Some (r, \<lparr>encoder_ctx = Some e1, has_packet = True\<rparr>\<lparr>encoder_ctx := Some e'\<rparr>, [] @ out') \<and>
      recv_loop (RecvPacket env) 0 (DoFilter (SendPacket env) (RecvPacket env) 0) [FilterEnc g] =
        Some (r, [FilterEnc g][0 := FilterEnc (g\<lparr>encoder := Some e'\<rparr>)], out')"
    using ok(2) by (intro receiving_loops_agree [OF assms(1)]) simp_all
  then show ?thesis
    using s ok(1) by (simp add: Encode_def encoder_Send_def made_encoder_def)
qed

end
