(* ===== verification/ProxyStart.thy ===== *)
theory ProxyStart imports Config ProxyMain begin

text \<open>
  The beginning of \<open>main\<close> in \<open>rtsp-ws-proxy/main.cc\<close>: from the configuration that \<open>LoadConfig\<close> has read to the
  threads of the streams and of the proxy's own windows.
\<close>

section \<open>Starting the streams\<close>

text \<open>A stream that was started: its handler is the state \<open>user\<close> of its thread, and its player, if it has one, is where
  \<open>StreamPlayer.Start\<close> leaves it: the thread of the window waits for a first frame.\<close>

record ('b, 'c, 'e, 'p) started_stream =
  started_id :: string
  stream_thread :: "('c, ('b, 'c, 'e) handler, 'p) thread"
  own_player :: "('c, 'p) stream_player option"

text \<open>\<open>stream_filters_options[id]\<close> makes an empty list for an identifier it does not have.\<close>

definition filters_of :: "proxy_config \<Rightarrow> string \<Rightarrow> filter_options list" where
  "filters_of c i = (case cfg_filters c i of None \<Rightarrow> [] | Some fs \<Rightarrow> fs)"

definition start_stream :: "proxy_config \<Rightarrow> string \<times> stream_options \<Rightarrow> unit call \<times> ('b, 'c, 'e, 'p) started_stream" where
  "start_stream c entry =
     (case entry of (i, opts) \<Rightarrow>
      case handler_Start opts (get_frequency c) (StreamHandler (filters_of c i) True) of
        (r, t) \<Rightarrow> (r, \<lparr>started_id = i, stream_thread = t,
          own_player = (if ui_enable c then Some (StreamPlayer i) else None)\<rparr>))"

text \<open>The loop over \<open>config.stream_options\<close>, a \<open>std::map\<close>: \<open>ordered\<close> are its elements in order.  An exception leaves
  \<open>main\<close>, which terminates the program.\<close>

fun start_streams :: "proxy_config \<Rightarrow> (string \<times> stream_options) list \<Rightarrow> unit call \<times> ('b, 'c, 'e, 'p) started_stream list" where
  "start_streams c [] = (Ok (), [])"
| "start_streams c (entry # ordered) =
     (case start_stream c entry of
        (Ok _, s) \<Rightarrow> (case start_streams c ordered of (r, ss) \<Rightarrow> (r, s # ss))
      | (Throw e, s) \<Rightarrow> (Throw e, [])
      | (Undefined, s) \<Rightarrow> (Undefined, []))"

definition entries_of :: "(string \<rightharpoonup> 'a) \<Rightarrow> (string \<times> 'a) list \<Rightarrow> bool" where
  "entries_of m es \<longleftrightarrow> sorted (map fst es) \<and> distinct (map fst es) \<and> map_of es = m"

section \<open>Lemmas\<close>

text \<open>The thread of a stream that was started, about to open it.\<close>

definition opening_thread :: "proxy_config \<Rightarrow> string \<times> stream_options \<Rightarrow> ('c, ('b, 'c, 'e) handler, 'p) thread" where
  "opening_thread c entry =
     \<lparr>is_running = True, th_options = snd entry, frequency = get_frequency c, pc = AtOpen, opens = 0, events = [],
      user = StreamHandler (filters_of c (fst entry)) True, leaked = 0\<rparr>"

definition running_stream :: "proxy_config \<Rightarrow> string \<times> stream_options \<Rightarrow> ('b, 'c, 'e, 'p) started_stream" where
  "running_stream c entry = \<lparr>started_id = fst entry, stream_thread = opening_thread c entry,
     own_player = (if ui_enable c then Some (StreamPlayer (fst entry)) else None)\<rparr>"

lemma start_stream_eq: "0 < get_frequency c \<Longrightarrow> start_stream c entry = (Ok (), running_stream c entry)"
  by (cases entry) (simp add: start_stream_def handler_Start_def thread_Start_def StreamThread_def running_stream_def
      opening_thread_def)

lemma start_streams_all: "0 < get_frequency c \<Longrightarrow> start_streams c es = (Ok (), map (running_stream c) es)"
  by (induction es) (simp_all add: start_stream_eq)

lemma start_streams_none:
  assumes "get_frequency c \<le> 0" and "es \<noteq> []"
  shows "start_streams c es = (Throw (StreamMsg ''Process frequency must > 0''), [])"
proof (cases es)
  case (Cons e rest)
  then show ?thesis using assms(1) by (cases e) (simp add: start_stream_def handler_Start_def thread_Start_def)
qed (use assms(2) in simp)

section \<open>Properties\<close>

text \<open>C28.  From the configuration file to the threads.  For a configuration that loads, \<open>main\<close> starts one thread for
  each identifier of the list under \<open>streams\<close>, in the order of the identifiers, with the options and the filters
  of the last entry that has it, and each with a window of its own if those are enabled; unless the frequency is not
  positive: then it starts none and the program is terminated by an exception.\<close>

theorem proxy_starts_the_configured_streams:
  assumes "LoadConfig y ff (Some n) = Some c" and "entries_of (cfg_streams c) ordered"
  shows "\<exists>list es. child y n ''streams'' = Some (Some list) \<and> map (load_stream y ff) (items y list) = map Some es \<and>
    set (map fst ordered) = set (map fst es) \<and> ordered \<noteq> [] \<and>
    (\<lambda>i. map_option (\<lambda>opts. (opts, filters_of c i)) (map_of ordered i)) = map_of (rev es) \<and>
    start_streams c ordered =
      (if 0 < get_frequency c then (Ok (), map (running_stream c) ordered)
       else (Throw (StreamMsg ''Process frequency must > 0''), []))"
proof -
  obtain list es where es: "child y n ''streams'' = Some (Some list)" "map (load_stream y ff) (items y list) = map Some es"
      "es \<noteq> []" "cfg_streams c = map_of (rev (map (\<lambda>(i, opts, fs). (i, opts)) es))"
      "cfg_filters c = map_of (rev (map (\<lambda>(i, opts, fs). (i, fs)) es))"
    using loaded_streams [OF assms(1)] by blast
  have split: "map_of (rev (map (\<lambda>(i, opts, fs). (i, opts)) xs)) i = map_option fst (map_of (rev xs) i)"
    "map_of (rev (map (\<lambda>(i, opts, fs). (i, fs)) xs)) i = map_option snd (map_of (rev xs) i)"
    for i and xs :: "(string \<times> stream_options \<times> filter_options list) list"
    by (induction xs rule: rev_induct) auto
  have ordered: "map_of ordered i = map_option fst (map_of (rev es) i)" for i
    using assms(2) es(4) split(1) by (simp add: entries_of_def)
  have "(\<lambda>i. map_option (\<lambda>opts. (opts, filters_of c i)) (map_of ordered i)) = map_of (rev es)"
  proof
    fix i
    show "map_option (\<lambda>opts. (opts, filters_of c i)) (map_of ordered i) = map_of (rev es) i"
      using ordered [of i] split(2) [of es i] es(5) by (cases "map_of (rev es) i") (simp_all add: filters_of_def)
  qed
  moreover have same: "set (map fst ordered) = set (map fst es)"
  proof -
    have "dom (map_of ordered) = dom (map_of (rev es))" using ordered by (auto simp: dom_def)
    then show ?thesis by (simp add: dom_map_of_conv_image_fst)
  qed
  moreover have "ordered \<noteq> []" using same es(3) by auto
  ultimately show ?thesis using es(1,2) start_streams_all start_streams_none [of c ordered] by auto
qed

definition loaded_config :: proxy_config where
  "loaded_config = default_config
     \<lparr>cfg_streams := [''a'' \<mapsto> default_stream\<lparr>opt_method := STREAM_METHOD_FILE, input_url := ''y''\<rparr>],
      cfg_filters := [''a'' \<mapsto> []]\<rparr>"

definition loaded_streams_in_order :: "(string \<times> stream_options) list" where
  "loaded_streams_in_order = [(''a'', default_stream\<lparr>opt_method := STREAM_METHOD_FILE, input_url := ''y''\<rparr>)]"

theorem proxy_starts_the_configured_streams_witness:
  "\<exists>list es. child sample_yaml sample_config ''streams'' = Some (Some list) \<and>
    map (load_stream sample_yaml sample_names) (items sample_yaml list) = map Some es \<and>
    set (map fst loaded_streams_in_order) = set (map fst es) \<and>
    (\<lambda>i. map_option (\<lambda>opts. (opts, filters_of loaded_config i)) (map_of loaded_streams_in_order i)) = map_of (rev es) \<and>
    start_streams loaded_config loaded_streams_in_order = (Ok (), map (running_stream loaded_config) loaded_streams_in_order)"
proof -
  have e: "entries_of (cfg_streams loaded_config) loaded_streams_in_order"
    by (simp add: entries_of_def loaded_config_def loaded_streams_in_order_def)
  have f: "(0 < get_frequency loaded_config) = True" by (simp add: loaded_config_def default_config_def)
  show ?thesis
    using proxy_starts_the_configured_streams [OF sample_loaded [folded loaded_config_def] e]
    unfolding f if_True by blast
qed

end
