(* ===== verification/UiStart.thy ===== *)
theory UiStart imports UiMain Config begin

text \<open>
  The beginning of \<open>main\<close> in \<open>rtsp-local-player/main_ui_with_opengl.cc\<close>: from the configuration file to the thread of
  the stream.  The nodes of the file are read with the conversions of theory \<open>Config\<close>.
\<close>

section \<open>Configuration\<close>

text \<open>The \<open>try\<close> block; \<open>None\<close> is an exception, which is caught.\<close>

definition ui_load :: "'n yaml \<Rightarrow> pix_names \<Rightarrow> 'n option \<Rightarrow> ('n \<times> stream_options) option" where
  "ui_load y ff file =
     Option.bind file (\<lambda>n.
     Option.bind (child y n ''log'') (\<lambda>log.
     Option.bind (InitLoggingFlags y log) (\<lambda>_.
     Option.bind (child y n ''stream'') (\<lambda>v. case v of
         None \<Rightarrow> None
       | Some v \<Rightarrow> map_option (\<lambda>opts. (n, opts)) (decode_stream y ff v default_stream)))))"

text \<open>The frequency and the seconds to wait for a first frame; these are read after the \<open>try\<close> block, and nothing
  catches an exception.\<close>

definition ui_settings :: "'n yaml \<Rightarrow> 'n \<Rightarrow> (int \<times> int) option" where
  "ui_settings y n =
     if_child y n ''ui_gl'' (\<lambda>v. if_children y v
       [(''stream_get_frequency'', get_as (as_int y) (\<lambda>x (freq, secs). (x, secs))),
        (''frame_first_wait_secs'', get_as (as_int y) (\<lambda>x (freq, secs). (freq, x)))]) (20, 5)"

section \<open>main, until the wait\<close>

text \<open>\<open>main\<close> returns a code, is terminated by an exception, or waits so many seconds for a frame of its thread.\<close>

datatype ('c, 'u, 'p) ui_begun =
  UiExit int | UiTerminated | UiWaits int "('c, 'u, 'p) thread"

definition ui_begin :: "'n yaml \<Rightarrow> pix_names \<Rightarrow> 'n option \<Rightarrow> 'u \<Rightarrow> ('c, 'u, 'p) ui_begun" where
  "ui_begin y ff file u =
     (case ui_load y ff file of
        None \<Rightarrow> UiExit 1
      | Some (n, opts) \<Rightarrow>
          let opts = opts\<lparr>video := ui_video_options (video opts)\<rparr> in
          (case ui_settings y n of
             None \<Rightarrow> UiTerminated
           | Some (freq, secs) \<Rightarrow>
               (case thread_Start opts freq (StreamThread default_stream u) of
                  (Ok _, t) \<Rightarrow> UiWaits secs t
                | _ \<Rightarrow> UiTerminated)))"

section \<open>Lemmas\<close>

lemma ui_video_options_yuv:
  "sws_enable (ui_video_options opts)"
  "sws_dst_pix_fmt (ui_video_options opts) \<in> {AV_PIX_FMT_YUV420P, AV_PIX_FMT_YUVJ420P}"
  by (auto simp: ui_video_options_def Let_def)

lemma ui_video_options_keeps:
  "sws_enable opts \<Longrightarrow> sws_dst_pix_fmt opts \<in> {AV_PIX_FMT_YUV420P, AV_PIX_FMT_YUVJ420P} \<Longrightarrow> ui_video_options opts = opts"
  by (auto simp: ui_video_options_def)

lemma ui_thread_Start:
  "thread_Start opts freq (StreamThread o' u) =
     (if freq \<le> 0 then (Throw (StreamMsg ''Process frequency must > 0''), StreamThread o' u)
      else (Ok (), \<lparr>is_running = True, th_options = opts, frequency = freq, pc = AtOpen, opens = 0, events = [], user = u,
        leaked = 0\<rparr>))"
  by (simp add: thread_Start_def StreamThread_def)

text \<open>The three ends.  A file that does not parse is reported; a wrong number under \<open>ui_gl\<close>, or a frequency that is not
  positive, terminates the program.\<close>

lemma ui_begin_exits: "ui_begin y ff file u = UiExit r \<longleftrightarrow> r = 1 \<and> ui_load y ff file = None"
  by (auto simp: ui_begin_def ui_thread_Start Let_def split: option.splits prod.splits)

lemma ui_begin_terminated:
  "ui_begin y ff file u = UiTerminated \<longleftrightarrow>
     (\<exists>n opts. ui_load y ff file = Some (n, opts) \<and>
       (case ui_settings y n of None \<Rightarrow> True | Some (freq, secs) \<Rightarrow> freq \<le> 0))"
  by (auto simp: ui_begin_def ui_thread_Start Let_def split: option.splits prod.splits)

text \<open>Otherwise the thread is started, with the options of the file except that its scaler is on and makes a format
  that the window can draw.\<close>

lemma ui_begin_waits:
  assumes "ui_begin y ff file u = UiWaits secs t"
  obtains n opts where "ui_load y ff file = Some (n, opts)" and "ui_settings y n = Some (frequency t, secs)"
    and "0 < frequency t" and "th_options t = opts\<lparr>video := ui_video_options (video opts)\<rparr>"
    and "is_running t" and "pc t = AtOpen" and "events t = []"
proof -
  from assms obtain n opts freq where
    "ui_load y ff file = Some (n, opts)" "ui_settings y n = Some (freq, secs)" "\<not> freq \<le> 0"
    "t = \<lparr>is_running = True, th_options = opts\<lparr>video := ui_video_options (video opts)\<rparr>, frequency = freq, pc = AtOpen,
      opens = 0, events = [], user = u, leaked = 0\<rparr>"
    by (auto simp: ui_begin_def ui_thread_Start Let_def split: option.splits prod.splits if_splits)
  then show ?thesis by (intro that) auto
qed

text \<open>Without \<open>ui_gl\<close> in the file: 20 turns a second, and 5 seconds to wait.\<close>

lemma ui_settings_default: "child y n ''ui_gl'' = Some None \<Longrightarrow> ui_settings y n = Some (20, 5)"
  by (simp add: ui_settings_def if_child_def)

text \<open>A file whose stream is read and whose \<open>ui_gl\<close> has a text for the frequency: no error is logged.\<close>

lemma text_for_a_number_terminates:
  "ui_begin sample_yaml sample_names (Some (YMap [(''stream'', YMap [(''method'', YStr ''file''), (''input_url'', YStr ''x'')]),
     (''ui_gl'', YMap [(''stream_get_frequency'', YStr ''fast'')])])) u = UiTerminated"
  by (simp add: ui_begin_terminated ui_load_def ui_settings_def sample_yaml_def InitLoggingFlags_def if_child_def
      child_string_def decode_stream_def StreamMethodFromString_def get_as_def)

end
