(* ===== verification/Spec2Isabelle.thy ===== *)
theory Spec2Isabelle imports Page NativePlayer ProxyMain LocalPlayer UiMain Delivery Browser PageRun NativeView VideoEncoder ProxyStart UiStart begin

text \<open>
  RTSP Wasm Player: a verification library.

  The program.  A proxy (\<open>src/rtsp-ws-proxy\<close>) opens cameras, files and RTSP inputs with FFmpeg, reads
  their packets and sends each, serialised, over WebSocket to the clients that watch the stream.  The
  clients are a web page (\<open>src/ws-wasm-player\<close>: JavaScript, with a decoder compiled to WebAssembly) and a
  native player (\<open>src/ws-local-player\<close>).  A client asks \<open>/streams\<close> for the list of streams, opens
  \<open>/stream/<id>\<close>, decodes each message and draws the frame.  \<open>src/common\<close> holds what the programs share.

  The theories, in the order in which a packet travels, with the files they model (below \<open>src/\<close>):

  \<^item> \<open>Prelude\<close>: bytes, the C integer types, code that may abort or leave its buffer (\<open>outcome\<close>), reads and
    writes in buffers; the collections \<open>buffer_simps\<close> and \<open>outcome_simps\<close>.  \<open>OrderedMap\<close>: \<open>std::map\<close>.
  \<^item> \<open>Config\<close>: \<open>rtsp-ws-proxy/main.cc\<close> (\<open>LoadConfig\<close>, \<open>LoadFiltersOptions\<close>) and \<open>common/util/config.h\<close>.
  \<^item> \<open>VideoOp\<close>: \<open>common/media/stream_def.*\<close>, \<open>stream_video.*\<close>; record \<open>video_op\<close>, \<open>GetFrame\<close>.
  \<^item> \<open>MediaStream\<close>: \<open>common/media/stream.*\<close>; record \<open>stream\<close>, \<open>stream_Open\<close>, \<open>GetPacket\<close>, \<open>stream_GetFrame\<close>.
  \<^item> \<open>StreamThread\<close>: \<open>common/media/stream_thread.*\<close>; owner and thread interleave in \<open>tstep\<close>.
  \<^item> \<open>StreamFilter\<close>: \<open>rtsp-ws-proxy/stream_filter.*\<close> and the creation of the encoder in
    \<open>stream_video_encoder.cc\<close>; records \<open>bsf_filter\<close> and \<open>enc_filter\<close>.  \<open>VideoEncoder\<close>: its other operations, and that
    \<open>Encode\<close> gives the packets that the transcoding filter and the handler's loop give.
  \<^item> \<open>StreamHandler\<close>: \<open>rtsp-ws-proxy/stream_handler.*\<close>; \<open>OnRunning\<close> and the loops of \<open>DoFilter\<close>.
  \<^item> \<open>StreamPlayer\<close>: \<open>rtsp-ws-proxy/stream_player.*\<close>, the proxy's own window; steps \<open>pstep\<close>.
  \<^item> \<open>Bytes\<close> and \<open>Packet\<close>: \<open>common/util/bytes.h\<close>, \<open>common/net/packet.h\<close>; \<open>ToBytes\<close> and \<open>FromBytes\<close>.
  \<^item> \<open>Session\<close>: \<open>common/util/event.h\<close>, \<open>common/net/event.h\<close>, \<open>rtsp-ws-proxy/ws_session.h\<close>,
    \<open>ws-local-player/ws_client.h\<close>; record \<open>conn\<close>, one operation per method and completion handler.
  \<^item> \<open>Http\<close>: \<open>common/net/cors.h\<close>, \<open>common/net/ext.h\<close>.  \<open>Server\<close>: \<open>ws_stream_room.cc\<close>, \<open>ws_stream_session.cc\<close>,
    \<open>ws_stream_server.cc\<close> and the request loop of \<open>ws_server_plain.cc\<close>.  \<open>Delivery\<close>: runs of the server as lists of
    events, and what a session gets of its stream.  \<open>Listener\<close>: accepting connections, \<open>ws_server_ssl.cc\<close> and the
    echo session.  \<open>ProxyMain\<close>: \<open>WsServer::Run\<close>, and the packet callback and the end of \<open>rtsp-ws-proxy/main.cc\<close>.
    \<open>ProxyStart\<close>: the beginning of that \<open>main\<close>, from the configuration to the threads of the streams.
  \<^item> \<open>StreamJson\<close>: \<open>common/net/json.h\<close>, the list of streams as the server writes it and a client reads it.
  \<^item> \<open>Js\<close>: the JavaScript the page uses, and a Hoare logic for code that throws.  \<open>WsClient\<close>, \<open>WebGL\<close>, \<open>Page\<close>:
    \<open>ws-wasm-player/lib/ws_client.js\<close>, \<open>lib/webgl.js\<close>, the functions of \<open>index.html\<close>.  \<open>PageRun\<close>: the page from
    its loading on, under every order of the user's, the server's and the socket's events.
  \<^item> \<open>Decoder\<close>: \<open>ws-wasm-player/src/decoder.h\<close>; \<open>Decode\<close>, and for asynchronous decoding the interleaving
    \<open>dstep\<close> of the page's thread and the worker.  \<open>PageFrame\<close>: \<open>src/frame.h\<close> over a store, where frames share memory.
    \<open>Browser\<close>: client, decoder and player of a page, message by message.
  \<^item> \<open>NativeGl\<close>: \<open>common/gl/shader.h\<close>, \<open>texture.h\<close>, \<open>glfw_frame.h\<close> and \<open>ws-wasm-player/src/player.h\<close>, the GL objects and
    uploads of the players in C++.  \<open>Glfw\<close>: \<open>common/gl/glfw_base.cc\<close>, one window and several.  \<open>UiMain\<close>:
    \<open>rtsp-local-player/main_ui_with_opengl.cc\<close>, whose beginning is \<open>UiStart\<close>.  \<open>NativePlayer\<close>: \<open>ws-local-player/ws_stream_client.cc\<close>, its two
    threads.  \<open>NativeView\<close>: the same with the window that the second thread makes, opens, draws and closes.
  \<^item> \<open>LocalPlayer\<close>: \<open>ws-local-player/main.cc\<close> and \<open>http_client.cc\<close>, up to the opening of the WebSocket.
  \<^item> \<open>Util\<close>: \<open>common/util/blocking_queue.h\<close>, \<open>logext.h\<close> (with the line \<open>TimeRecord::Log\<close> writes), \<open>rate.h\<close>.

  How they interact.  \<open>StreamHandler.OnRunning\<close> is the callback that \<open>StreamThread\<close> runs, on a \<open>MediaStream\<close>;
  its packets go to \<open>Server.Send\<close>, which posts their bytes (\<open>Packet\<close>) to the sessions of the room (\<open>Session\<close>);
  the messages that a page receives go through \<open>WsClient.onmessage\<close> to \<open>Decoder\<close> and its frames to \<open>WebGL\<close>
  (\<open>Browser.receive\<close>).  This theory composes them: \<open>camera_reaches_the_screen\<close> follows the packets of a camera to
  the textures of the page; \<open>page_shows_its_stream\<close> and \<open>native_player_shows_its_stream\<close> say what a page and a
  native player show after an arbitrary run of the server.

  What the lemmas show.  Wire format and lists: round trips, what is lost in them, writes within their
  buffer, rejection of short messages.  Page: ownership of decoders, frames and buffers on every path,
  exceptions included; what the shader reads; invariants over every order of the page's events, and what a click
  opens.  Decoder, threads and players:
  invariants over all interleavings, refinement of a protocol of events, order of the frames, bounds of the
  queue, when a thread ends, when a null pointer is dereferenced; GL objects made and deleted, pixels read
  within their frame, windows that outlive their library.  Server: what each session is given of its stream, in
  which order, under every schedule of one I/O thread or several.  Proxy: termination of the filter loops,
  sizes in the transcoder, membership of the rooms, order of the writes, which files are served, what a
  configuration means.  Several theorems prove that the code does not do what it means to.

  Interfaces.  \<open>scalar_codec\<close> (\<open>Bytes\<close>) is what the packet format needs of a written number, with an
  interpretation for each width; \<open>serial_writer\<close> and its extension \<open>lossless_writer\<close> (\<open>Session\<close>) are what a
  send queue promises, interpreted on the server's session and the native client; \<open>packet_filter\<close> and
  \<open>single_filter\<close> (\<open>StreamHandler\<close>) are what the handler needs of a filter, interpreted on the bitstream filter;
  \<open>delivery\<close> (\<open>Delivery\<close>) is a relation between what was sent and what a session was given, interpreted for calls that
  run in order and for calls that run in any order.

  Parameters.  Code that is not in the repository is an argument: FFmpeg (\<open>av_api\<close>, \<open>codec\<close>, \<open>av_codec\<close>,
  \<open>av_format\<close>, \<open>bsf_api\<close>, \<open>enc_api\<close>, \<open>pix_names\<close>, the names of the media types), \<open>yaml-cpp\<close> (\<open>yaml\<close>), \<open>dump\<close> and
  \<open>parse\<close> of \<open>nlohmann::json\<close> (whose values are a datatype), the file system, regular expressions, TLS, the
  readings of the clock, the browser (\<open>env\<close>), the answers of SDL, GLEW, GLFW and the shader compiler, and the value a target computes for a shift by more than the
  width of \<open>int\<close> (\<open>wide\<close>).  Hypotheses on them (\<open>av_contract\<close>, \<open>reads_written\<close>, \<open>names_media\<close>, and \<open>parse\<close>
  after \<open>dump\<close> on well-formed values) state documented behaviour.  Boost's asynchronous operations are
  recorded when they are started, and their completions are steps.

  Loops.  No definition needs fuel.  Loops over data are structural; the loops of \<open>DoFilter\<close>, which may not
  end, are \<open>partial_function (option)\<close>, and \<open>filtering_returns\<close> shows when they do.  Threads are step
  relations; a function that runs \<open>n\<close> steps of one thread only states how many steps suffice.

  Not modelled: logging and the formatting of times and strings (glue over glog and the standard library), the uniforms
  of \<open>Shader\<close> that nothing sets, the OpenCV and the triangle demonstrations, and the module emscripten generates.
  Thread interleavings are at the granularity of sections under a mutex; data races on single variables are
  modelled where the code tests one outside its mutex (\<open>StreamPlayer\<close>, \<open>NativeGl.OnDraw_seen\<close>).  GL calls are recorded; what
  they do is defined for texture units, uploads and the life of objects (\<open>gl_exec\<close>, \<open>unpack\<close>, \<open>track\<close>).
\<close>

section \<open>From the server to the page\<close>

text \<open>The packet callback that \<open>main\<close> gives to a stream without a window, while the server runs: every packet is
  broadcast.\<close>

lemma callback_is_broadcast:
  assumes "ctx \<noteq> Gone"
  shows "packet_callback ff ctx i stream s type pkt (sv, None) =
    bind_outcome (on_event (Broadcast i stream type pkt) sv) (\<lambda>sv. Return (Ok (), sv, None))"
  using assms by (simp add: packet_callback_def server_Send_def Send_eq split: prod.splits)

text \<open>A packet as the reader of a message reads it: its 64-bit fields as \<open>as_read\<close> says, all else unchanged.\<close>

definition received :: "wide_shl \<Rightarrow> cint \<times> av_packet \<Rightarrow> net_data" where
  "received shl tp = as_read shl \<lparr>media = fst tp, packet = snd tp\<rparr>"

lemma parse_all_encoded:
  assumes "av_contract (av cfg)" and "list_all (\<lambda>tp. transmissible \<lparr>media = fst tp, packet = snd tp\<rparr>) tps"
  shows "parse_all cfg (map encoded tps) = Return (map (received (wide cfg)) tps)"
  using assms(2)
proof (induction tps)
  case (Cons tp tps)
  then show ?case using FromBytes_encoded [OF assms(1), of "\<lparr>media = fst tp, packet = snd tp\<rparr>" "wide cfg" "[]"]
    by (simp add: encoded_def received_def)
qed simp

text \<open>A page that was just opened, with the decoder of its stream and a WebGL player.\<close>

definition opened_page :: "client \<Rightarrow> decoder \<Rightarrow> gl_env \<Rightarrow> int \<Rightarrow> int \<Rightarrow> browser" where
  "opened_page c d genv w h = \<lparr>page_client = c, page_decoder = d, page_gl = WebGLPlayer genv w h\<rparr>"

text \<open>What the shader of the page reads, once every message was drawn.\<close>

lemma last_frame_sampled:
  assumes "out = [] \<or> slices_sampled (pic (last out)) s"
  shows "out = [] \<or> \<not> packed (pic (last out)) \<or> (planes_sampled (pic (last out)) s \<longleftrightarrow> even_frame (pic (last out)))"
  using assms slices_are_planes by blast

text \<open>C1.  From the camera to the screen.  Let the thread of an unfiltered stream turn \<open>n\<close> times, with packets \<open>vids\<close> of
  the stream's video that the format can carry (\<open>transmissible\<close>), and let the packets it gives its callback be
  broadcast in any run of the server with one I/O thread, from a state in which the session of a page has just
  joined the stream's room, amid whatever the other streams and sessions do.  While no operation of the session fails and it never has
  more than its maximum queued behind a write that completes, nothing is lost on the way: what it has written, what
  is queued behind the write under way and what is posted to it are together all of \<open>vids\<close>, and the messages
  written are the first of them, in order.  The page that receives these messages feeds its codec all of them
  from the first key packet on, as the reader reads them (timestamps as \<open>bytes::from<int64_t>\<close> gives them), and draws
  the frames the codec gives, one after the other.  If the last one has FFmpeg's packed layout, then at the end the
  shader reads its three planes exactly if its width and height are even.\<close>

theorem camera_reaches_the_screen:
  fixes cam :: "'c stream"
  assumes "turns env n (StreamHandler [] True) cam = Some (h', cam')"
    and "format_ctx cam = OpenedInput input" and "stream_subs cam AVMEDIA_TYPE_VIDEO = Some sub"
    and "vids = filter (is_video sub) (read_packets input (read_count cam) n)"
    and "av_contract (av cfg)" and "list_all (\<lambda>p. transmissible \<lparr>media = AVMEDIA_TYPE_VIDEO, packet = p\<rparr>) vids"
    and "server_run es (WsStreamServer sopts) = Return sv" and "sessions sv k = Some s"
    and "in_room k (session_id s) sv" and "given_to k sv = []"
    and "server_run fs sv = Return sv'" and "sessions sv' k = Some s'" and "packets_of (session_id s) fs = packets_out h'"
    and "within_threads 1 fs" and "list_all (\<lambda>e. \<not> fails_session k e) fs" and "keeps_up k fs sv"
    and "AVMEDIA_TYPE_VIDEO \<in> dom (stream_ops (Open subs qsize n_threads t_type True Decoder))"
    and "plays env' c" and "context_available genv"
    and "b = receive_all env' cfg pic (written (session s')) (opened_page c (Open subs qsize n_threads t_type True Decoder) genv w h)"
    and "out = outputs cfg (fed (page_decoder b))"
  shows "length (written (session s')) + length (tl (send_queue (session s'))) + length (messages_for k (posted sv')) = length vids \<and>
    fed (page_decoder b) = dropWhile (\<lambda>x. \<not> is_key x)
      (map (\<lambda>p. received (wide cfg) (AVMEDIA_TYPE_VIDEO, p)) (take (length (written (session s'))) vids)) \<and>
    page_gl b = draw_all pic out (WebGLPlayer genv w h) \<and>
    (out = [] \<or> \<not> packed (pic (last out)) \<or>
     (planes_sampled (pic (last out)) (gl_state (calls (page_gl b))) \<longleftrightarrow> even_frame (pic (last out))))"
proof -
  define tps where "tps = map (Pair AVMEDIA_TYPE_VIDEO) vids"
  define got where "got = take (length (written (session s'))) tps"
  have out: "packets_out h' = tps"
    using turns_unfiltered [OF assms(1) _ _ assms(2,3)] by (simp add: StreamHandler_def tps_def assms(4))
  have "given_to k sv' = given_to k sv @ map encoded (packets_of (session_id s) fs)"
    using assms(14) unfolding within_one_thread
    by (rule given_to_run [OF rooms_ok_run [OF assms(7) rooms_ok_new] assms(8) refl assms(9,11,15,16)])
  then have given: "written (session s') @ tl (send_queue (session s')) @ messages_for k (posted sv') = map encoded tps"
    using assms(10,12,13) out by (simp add: given_to_def)
  then have "length (written (session s') @ tl (send_queue (session s')) @ messages_for k (posted sv')) = length tps" by simp
  then have all: "length (written (session s')) + length (tl (send_queue (session s'))) + length (messages_for k (posted sv')) = length vids"
    by (simp add: tps_def)
  have written: "written (session s') = map encoded got"
    using arg_cong [OF given, of "take (length (written (session s')))"] by (simp add: got_def take_map)
  have parsed: "parse_all cfg (map encoded got) = Return (map (received (wide cfg)) got)"
    using assms(6) by (intro parse_all_encoded [OF assms(5)]) (auto simp: got_def tps_def take_map list_all_iff dest!: in_set_takeD)
  have known: "set (map media (map (received (wide cfg)) got)) \<subseteq> dom (stream_ops (Open subs qsize n_threads t_type True Decoder))"
    using assms(17) by (auto simp: received_def got_def tps_def dest!: in_set_takeD)
  have b: "b = receive_all env' cfg pic (map encoded got)
      \<lparr>page_client = c, page_decoder = Open subs qsize n_threads t_type True Decoder, page_gl = WebGLPlayer genv w h\<rparr>"
    using assms(20) by (simp add: opened_page_def written)
  note drawn = received_messages_are_drawn [OF assms(18,19) parsed known b, folded assms(21)]
  have "map (received (wide cfg)) got = map (\<lambda>p. received (wide cfg) (AVMEDIA_TYPE_VIDEO, p)) (take (length (written (session s'))) vids)"
    by (simp add: got_def tps_def take_map o_def)
  with all drawn(1,2) last_frame_sampled [where pic = pic and out = out, OF drawn(3)] show ?thesis by simp
qed

definition sample_sub :: "int list sub" where
  "sample_sub = \<lparr>sub_index = 1, sub_op = StreamVideoOp sample_video_options\<rparr>"

definition sample_packet :: "cint \<Rightarrow> av_packet" where
  "sample_packet i = av_packet_alloc\<lparr>stream_index := i, flags := 1, pts := 0, dts := 0\<rparr>"

lemma sample_read: "read_packets sample_input 0 4 = [sample_packet 0, sample_packet 1, sample_packet 0, sample_packet 1]"
proof -
  have "read_packets sample_input 0 (Suc (Suc (Suc (Suc 0)))) =
      [sample_packet 0, sample_packet 1, sample_packet 0, sample_packet 1]"
    by (simp add: sample_input_def sample_packet_def)
  then show ?thesis by (simp add: numeral_eq_Suc)
qed

lemma sample_packet_transmissible: "transmissible \<lparr>media = AVMEDIA_TYPE_VIDEO, packet = sample_packet i\<rparr>"
  by (simp add: sample_packet_def av_packet_alloc_def transmissible_def GetByteSize_def AVMEDIA_TYPE_VIDEO_def)

lemma playing_client_plays: "plays sample_env playing_client"
  by (simp add: plays_def playing_client_def fields_def sample_env_def sample_options_def WsClientOptions_def spread_def
      get_prop_def)

lemma sample_decoder_video: "AVMEDIA_TYPE_VIDEO \<in> dom (stream_ops (Open [(AVMEDIA_TYPE_VIDEO,
    \<lparr>format = AV_PIX_FMT_YUV420P, par_color_range = OtherRange 0\<rparr>)] 10 0 0 True Decoder))"
  by (simp add: Open_def Decoder_def)

lemma sample_contract: "av_contract (av sample_cfg)"
  by (simp add: sample_cfg_def av_reference_contract)

text \<open>Two packets of the camera reach session 0, which writes each before the next comes.\<close>

definition sample_posts :: "server_event list" where
  "sample_posts = concat (replicate 2 [Broadcast ''a'' 7 AVMEDIA_TYPE_VIDEO (sample_packet 1), CallRuns 0 0, WriteDone 0 Success])"

lemma sample_posts_run:
  "\<exists>sv s sv' s'. server_run (joining sample_server_options (sample_request Get) ''a'' 7 (AVMEDIA_TYPE_VIDEO, sample_packet 0))
      (WsStreamServer sample_server_options) = Return sv \<and> sessions sv 0 = Some s \<and> session_id s = ''a'' \<and>
    in_room 0 ''a'' sv \<and> given_to 0 sv = [] \<and> server_run sample_posts sv = Return sv' \<and> sessions sv' 0 = Some s' \<and>
    keeps_up 0 sample_posts sv \<and> length (written (session s')) = 2"
proof -
  obtain sv c where "server_run (joining sample_server_options (sample_request Get) ''a'' 7 (AVMEDIA_TYPE_VIDEO, sample_packet 0))
      (WsStreamServer sample_server_options) = Return sv"
    and sv: "sessions sv = [0 \<mapsto> \<lparr>session_id = ''a'', session = c\<rparr>]" "room sv = [''a'' \<mapsto> [0]]" "posted sv = []"
      "send_queue c = []" "silent_send c" "written c = []"
    by (rule joining_runs)
  moreover have "\<exists>sv' s'. server_run sample_posts sv = Return sv' \<and> sessions sv' 0 = Some s' \<and> keeps_up 0 sample_posts sv \<and>
      length (written (session s')) = 2"
    using sv by (simp add: sample_posts_def numeral_2_eq_2 running_simps write_under_way_def OnWrite_def session_OnWrite_def)
  ultimately show ?thesis by (simp add: in_room_def given_to_def messages_for_def)
qed

theorem camera_reaches_the_screen_witness:
  "\<exists>h' cam' sv s sv' s' b. turns sample_handler_env 4 (StreamHandler [] True) sample_stream = Some (h', cam') \<and>
    server_run (joining sample_server_options (sample_request Get) ''a'' 7 (AVMEDIA_TYPE_VIDEO, sample_packet 0))
      (WsStreamServer sample_server_options) = Return sv \<and> sessions sv 0 = Some s \<and>
    server_run sample_posts sv = Return sv' \<and> sessions sv' 0 = Some s' \<and> packets_of (session_id s) sample_posts = packets_out h' \<and>
    length (written (session s')) = 2 \<and>
    b = receive_all sample_env sample_cfg (\<lambda>_. sample_frame) (written (session s'))
      (opened_page playing_client (Open [(AVMEDIA_TYPE_VIDEO, \<lparr>format = AV_PIX_FMT_YUV420P, par_color_range = OtherRange 0\<rparr>)]
        10 0 0 True Decoder) sample_gl 2 2) \<and>
    fed (page_decoder b) = replicate 2 (received (wide sample_cfg) (AVMEDIA_TYPE_VIDEO, sample_packet 1)) \<and>
    page_gl b = draw_all (\<lambda>_. sample_frame) (outputs sample_cfg (fed (page_decoder b))) (WebGLPlayer sample_gl 2 2) \<and>
    (outputs sample_cfg (fed (page_decoder b)) = [] \<or> planes_sampled sample_frame (gl_state (calls (page_gl b))))"
proof -
  let ?vids = "replicate 2 (sample_packet 1)"
  obtain h' cam' where t: "turns sample_handler_env 4 (StreamHandler [] True) sample_stream = Some (h', cam')"
    using sample_turns by blast
  have vids: "?vids = filter (is_video sample_sub) (read_packets sample_input (read_count sample_stream) 4)"
    by (simp add: sample_stream_state sample_read is_video_def sample_sub_def sample_packet_def numeral_2_eq_2)
  have out: "packets_out h' = map (Pair AVMEDIA_TYPE_VIDEO) ?vids"
    using turns_unfiltered [OF t _ _ sample_stream_state(1,3)] vids by (simp add: StreamHandler_def sample_sub_def)
  obtain sv s sv' s' where run: "server_run (joining sample_server_options (sample_request Get) ''a'' 7 (AVMEDIA_TYPE_VIDEO, sample_packet 0))
      (WsStreamServer sample_server_options) = Return sv" "sessions sv 0 = Some s" "server_run sample_posts sv = Return sv'"
      "sessions sv' 0 = Some s'"
    and a: "session_id s = ''a''" "in_room 0 (session_id s) sv" "given_to 0 sv = []" "keeps_up 0 sample_posts sv" "length (written (session s')) = 2"
    using sample_posts_run by auto
  have posts: "packets_of (session_id s) sample_posts = packets_out h'" "within_threads 1 sample_posts"
    "list_all (\<lambda>e. \<not> fails_session 0 e) sample_posts"
    by (simp_all add: a(1) out sample_posts_def within_threads_def numeral_2_eq_2)
  have key: "is_key (received (wide sample_cfg) (AVMEDIA_TYPE_VIDEO, sample_packet 1))"
    by (simp add: is_key_def received_def sample_packet_def AV_PKT_FLAG_KEY_def)
  have fits: "list_all (\<lambda>p. transmissible \<lparr>media = AVMEDIA_TYPE_VIDEO, packet = p\<rparr>) ?vids"
    by (simp add: sample_packet_transmissible numeral_2_eq_2)
  have ctx: "context_available sample_gl" by (simp add: sample_gl_def)
  note screen = camera_reaches_the_screen [OF t sample_stream_state(1,3) vids [unfolded sample_sub_def] sample_contract fits run(1,2) a(2,3)
      run(3,4) posts a(4) sample_decoder_video playing_client_plays ctx refl refl, where pic = "\<lambda>_. sample_frame" and w = 2 and h = 2]
  show ?thesis
    by (rule exI [of _ h'], rule exI [of _ cam'], rule exI [of _ sv], rule exI [of _ s], rule exI [of _ sv'], rule exI [of _ s'])
      (use screen t run posts(1) a(5) key sample_frame_packed in \<open>auto simp: numeral_2_eq_2\<close>)
qed

section \<open>What a page makes of an arbitrary run\<close>

lemma subseq_of_map: "subseq xs (map f ys) \<Longrightarrow> \<exists>zs. xs = map f zs \<and> subseq zs ys"
proof (induction ys arbitrary: xs)
  case (Cons y ys)
  show ?case
  proof (cases xs)
    case (Cons x xs')
    show ?thesis
    proof (cases "x = f y \<and> subseq xs' (map f ys)")
      case True
      then obtain zs where "xs' = map f zs" "subseq zs ys" using Cons.IH by blast
      then show ?thesis using True \<open>xs = x # xs'\<close> by (intro exI [of _ "y # zs"]) simp
    next
      case False
      then have "subseq xs (map f ys)" using Cons.prems \<open>xs = x # xs'\<close> by (auto split: if_splits)
      then show ?thesis using Cons.IH by (meson list_emb_Cons)
    qed
  qed (intro exI [of _ "[]"], simp)
qed (auto dest: list_emb_Nil2)

lemma subseq_dropWhile: "subseq (dropWhile P xs) xs"
  by (metis list_emb_append2 subseq_order.order_refl takeWhile_dropWhile_id)

lemma subseq_list_all: "subseq xs ys \<Longrightarrow> list_all P ys \<Longrightarrow> list_all P xs"
  by (induction rule: list_emb.induct) auto

text \<open>C2.  What a page shows of an arbitrary run.  Let a server with one I/O thread be run in any way whose packets on
  the page's stream the format can carry (\<open>transmissible\<close>: a size below \<open>INT_MAX\<close> and the padding, one-byte types,
  distinct side data types).  A page that receives what its session has written feeds its codec a
  subsequence of the packets sent on its own stream, as the reader reads them (each with the timestamps that
  \<open>bytes::from<int64_t>\<close> makes of those sent, which are the same for those that survive, and the duration as its
  \<open>pos\<close>), that starts with a key packet.  If the last frame the codec gave for them has FFmpeg's packed layout, the shader
  reads its three planes exactly if its width and height are even.\<close>

theorem page_shows_its_stream:
  assumes "server_run es (WsStreamServer opts) = Return sv" and "within_threads 1 es" and "sessions sv k = Some s"
    and "av_contract (av cfg)"
    and "list_all (\<lambda>tp. transmissible \<lparr>media = fst tp, packet = snd tp\<rparr>) (packets_of (session_id s) es)"
    and "set (map fst (packets_of (session_id s) es)) \<subseteq> dom (stream_ops (Open subs qsize n_threads t_type True Decoder))"
    and "plays env c" and "context_available genv"
    and "b = receive_all env cfg pic (written (session s)) (opened_page c (Open subs qsize n_threads t_type True Decoder) genv w h)"
    and "out = outputs cfg (fed (page_decoder b))"
  shows "subseq (fed (page_decoder b)) (map (received (wide cfg)) (packets_of (session_id s) es)) \<and>
    (fed (page_decoder b) = [] \<or> is_key (hd (fed (page_decoder b)))) \<and>
    (out = [] \<or> \<not> packed (pic (last out)) \<or>
     (planes_sampled (pic (last out)) (gl_state (calls (page_gl b))) \<longleftrightarrow> even_frame (pic (last out))))"
proof -
  let ?sent = "packets_of (session_id s) es"
  have "subseq (written (session s)) (map encoded ?sent)"
    using written_in_order [OF assms(1-3)] .
  then obtain tps where tps: "written (session s) = map encoded tps" "subseq tps ?sent" using subseq_of_map by blast
  have parsed: "parse_all cfg (map encoded tps) = Return (map (received (wide cfg)) tps)"
    using assms(5) tps(2) by (intro parse_all_encoded [OF assms(4)]) (rule subseq_list_all)
  have "list_all (\<lambda>tp. fst tp \<in> dom (stream_ops (Open subs qsize n_threads t_type True Decoder))) tps"
    using assms(6) tps(2) by (intro subseq_list_all [OF tps(2)]) (auto simp: list_all_iff)
  then have known: "set (map media (map (received (wide cfg)) tps)) \<subseteq> dom (stream_ops (Open subs qsize n_threads t_type True Decoder))"
    by (auto simp: received_def list_all_iff)
  have b: "b = receive_all env cfg pic (map encoded tps)
      \<lparr>page_client = c, page_decoder = Open subs qsize n_threads t_type True Decoder, page_gl = WebGLPlayer genv w h\<rparr>"
    using assms(9) by (simp add: opened_page_def tps(1))
  note drawn = received_messages_are_drawn [OF assms(7,8) parsed known b, folded assms(10)]
  have "subseq (map (received (wide cfg)) tps) (map (received (wide cfg)) ?sent)" using tps(2) by (rule subseq_map)
  then have "subseq (fed (page_decoder b)) (map (received (wide cfg)) ?sent)"
    unfolding drawn(1) using subseq_dropWhile by (rule subseq_order.trans [rotated])
  moreover have "fed (page_decoder b) = [] \<or> is_key (hd (fed (page_decoder b)))"
    unfolding drawn(1) using hd_dropWhile by blast
  ultimately show ?thesis using last_frame_sampled [where pic = pic and out = out, OF drawn(3)] by blast
qed

definition sample_run :: "server_event list" where
  "sample_run = joining sample_server_options (sample_request Get) ''a'' 7 (AVMEDIA_TYPE_VIDEO, sample_packet 0) @
     [Broadcast ''a'' 7 AVMEDIA_TYPE_VIDEO (sample_packet 1), CallRuns 0 0]"

lemma sample_run_returns:
  "\<exists>sv s. server_run sample_run (WsStreamServer sample_server_options) = Return sv \<and> sessions sv 0 = Some s \<and>
     session_id s = ''a''"
proof -
  obtain sv c where "server_run (joining sample_server_options (sample_request Get) ''a'' 7 (AVMEDIA_TYPE_VIDEO, sample_packet 0))
      (WsStreamServer sample_server_options) = Return sv"
    and sv: "sessions sv = [0 \<mapsto> \<lparr>session_id = ''a'', session = c\<rparr>]" "room sv = [''a'' \<mapsto> [0]]" "posted sv = []"
      "send_queue c = []" "silent_send c"
    by (rule joining_runs)
  moreover have "\<exists>sv' s. server_run [Broadcast ''a'' 7 AVMEDIA_TYPE_VIDEO (sample_packet 1), CallRuns 0 0] sv = Return sv' \<and>
      sessions sv' 0 = Some s \<and> session_id s = ''a''"
    using sv by (simp add: running_simps)
  ultimately show ?thesis unfolding sample_run_def server_run_append by simp
qed

theorem page_shows_its_stream_witness:
  "\<exists>sv s b. server_run sample_run (WsStreamServer sample_server_options) = Return sv \<and> sessions sv 0 = Some s \<and>
    b = receive_all sample_env sample_cfg (\<lambda>_. sample_frame) (written (session s))
      (opened_page playing_client (Open [(AVMEDIA_TYPE_VIDEO, \<lparr>format = AV_PIX_FMT_YUV420P, par_color_range = OtherRange 0\<rparr>)]
        10 0 0 True Decoder) sample_gl 2 2) \<and>
    subseq (fed (page_decoder b)) (map (received (wide sample_cfg)) (packets_of (session_id s) sample_run)) \<and>
    (fed (page_decoder b) = [] \<or> is_key (hd (fed (page_decoder b)))) \<and>
    (outputs sample_cfg (fed (page_decoder b)) = [] \<or> planes_sampled sample_frame (gl_state (calls (page_gl b))))"
proof -
  obtain sv s where run: "server_run sample_run (WsStreamServer sample_server_options) = Return sv" "sessions sv 0 = Some s"
    and a: "session_id s = ''a''"
    using sample_run_returns by blast
  have "within_threads 1 sample_run" by (simp add: within_threads_def sample_run_def joining_def)
  moreover have packets: "packets_of (session_id s) sample_run = [(AVMEDIA_TYPE_VIDEO, sample_packet 0), (AVMEDIA_TYPE_VIDEO, sample_packet 1)]"
    by (simp add: a sample_run_def joining_def)
  moreover have "context_available sample_gl" by (simp add: sample_gl_def)
  ultimately show ?thesis
    using page_shows_its_stream [OF run(1) _ run(2) sample_contract _ _ playing_client_plays _ refl, where
        subs = "[(AVMEDIA_TYPE_VIDEO, \<lparr>format = AV_PIX_FMT_YUV420P, par_color_range = OtherRange 0\<rparr>)]" and qsize = 10
        and n_threads = 0 and t_type = 0 and pic = "\<lambda>_. sample_frame" and w = 2 and h = 2 and genv = sample_gl]
      run sample_packet_transmissible sample_decoder_video sample_frame_packed by auto
qed

section \<open>What a native player makes of an arbitrary run\<close>

text \<open>C3.  What a native player shows of an arbitrary run.  Assume that GLFW and GLEW work, that every picture of the codec is
  one the player draws within its bounds (packed, a width that is a multiple of 8, an even height), and that the
  packets of the stream are ones the format can carry.  However a server with one I/O thread was run and however the two threads of the
  player interleave: at every point of a schedule that has so far ended neither in a crash nor in an
  exception, the player has decoded a subsequence of the packets sent on its own stream, as the reader reads
  them, that starts with a key packet; its window has the size of the first frame and has drawn only later
  frames of the codec, in their order; the next turn of the window's thread does not crash, and if it draws, its
  shader reads the last frame of the codec.  The next message does crash the player exactly if the network still runs, it
  passes the key-frame gate, and its media type has no decoder or it gives a frame after the first before
  the window is made.\<close>

theorem native_player_shows_its_stream:
  assumes "server_run es (WsStreamServer sopts) = Return sv" and "within_threads 1 es" and "sessions sv k = Some s"
    and "av_contract (av cfg)"
    and "list_all (\<lambda>tp. transmissible \<lparr>media = fst tp, packet = snd tp\<rparr>) (packets_of (session_id s) es)"
    and "prefix (bytes_of sched) (written (session s))" and "window_works genv nenv pic"
    and "view_run cfg pic genv nenv name opts sched (view_start opts) = Return (Some v)"
    and "transmissible \<lparr>media = fst tp, packet = snd tp\<rparr>" and "data = received (wide cfg) tp"
    and "p = v_player v" and "b = v_window v" and "out = outputs cfg (decoded p)"
  shows "subseq (decoded p) (map (received (wide cfg)) (packets_of (session_id s) es)) \<and>
    (decoded p = [] \<or> is_key (hd (decoded p))) \<and>
    (\<exists>ns. sorted ns \<and> set ns \<subseteq> {..length (tl out)} \<and> uploads (gl_calls (gl b)) = planes_of (map (frame_at pic (tl out)) ns)) \<and>
    (win b = None \<or> (\<exists>w rest. window_events b = opening_events (frame_params pic name (hd out)) w @ rest)) \<and>
    (\<exists>v'. window_turn pic genv nenv opts closing v = Return v') \<and>
    (win b = None \<or> tl out = [] \<or> (\<exists>v'. window_turn pic genv nenv opts False v = Return v' \<and>
       shader_reads ''RED'' (pic (last out)) (gl (v_window v')))) \<and>
    (view_recv cfg pic name (encoded tp) v = OutOfBounds \<longleftrightarrow>
       \<not> ioc_stopped p \<and> (decoded p \<noteq> [] \<or> is_key data) \<and>
       (fst tp \<notin> dom (ops p) \<or> out \<noteq> [] \<and> \<not> ui p \<and> (\<exists>n. codec cfg (decoded p @ [data]) = GotFrame n)))"
proof -
  let ?sent = "packets_of (session_id s) es"
  have "subseq (written (session s)) (map encoded ?sent)"
    using written_in_order [OF assms(1-3)] .
  moreover have "subseq (bytes_of sched) (written (session s))" using assms(6) by (rule prefix_imp_subseq)
  ultimately have "subseq (bytes_of sched) (map encoded ?sent)" by (rule subseq_order.trans [rotated])
  then obtain tps where tps: "bytes_of sched = map encoded tps" "subseq tps ?sent" using subseq_of_map by blast
  have parsed: "parse_all cfg (bytes_of sched) = Return (map (received (wide cfg)) tps)"
    unfolding tps(1) using assms(5) tps(2) by (intro parse_all_encoded [OF assms(4)]) (rule subseq_list_all)
  obtain hs where hs: "prefix hs (map (received (wide cfg)) tps)" and inv: "view_inv cfg pic name opts hs v"
    using view_run_inv [OF view_inv_start assms(7,8) parsed] by auto
  have p: "fed_ok cfg hs p" "window_inv pic (shown p) (v_lib v) b"
    "win b \<noteq> None \<longrightarrow> (\<exists>w rest. window_events b = opening_events (frame_params pic name (hd out)) w @ rest)"
    using inv by (simp_all add: view_inv_def Let_def assms(11-13))
  have fed: "decoded p = dropWhile (\<lambda>x. \<not> is_key x) hs" "shown p = tl out"
    using p(1) by (simp_all add: fed_ok_def assms(13))
  have "subseq (decoded p) hs" unfolding fed(1) by (rule subseq_dropWhile)
  also have "subseq hs (map (received (wide cfg)) tps)" using hs by (rule prefix_imp_subseq)
  also have "subseq (map (received (wide cfg)) tps) (map (received (wide cfg)) ?sent)" using tps(2) by (rule subseq_map)
  finally have "subseq (decoded p) (map (received (wide cfg)) ?sent)" .
  moreover have "decoded p = [] \<or> is_key (hd (decoded p))" unfolding fed(1) using hd_dropWhile by blast
  moreover have "\<exists>ns. sorted ns \<and> set ns \<subseteq> {..length (tl out)} \<and> uploads (gl_calls (gl b)) = planes_of (map (frame_at pic (tl out)) ns)"
    using p(2) by (auto simp: window_inv_def drawn_ok_def fed(2))
  moreover have "win b = None \<or> tl out = [] \<or> (\<exists>v'. window_turn pic genv nenv opts False v = Return v' \<and>
      shader_reads ''RED'' (pic (last out)) (gl (v_window v')))"
    using next_drawing [OF inv assms(7)] assms(11,12) fed(2) last_tl [of out] by force
  moreover have "FromBytes (av cfg) (wide cfg) (encoded tp) Data = Return (OK, data)"
    using FromBytes_encoded [OF assms(4,9), of "wide cfg" "[]"] by (simp add: encoded_def received_def assms(10))
  from view_recv_crashes_iff [OF inv this]
  have "view_recv cfg pic name (encoded tp) v = OutOfBounds \<longleftrightarrow>
      \<not> ioc_stopped p \<and> (decoded p \<noteq> [] \<or> is_key data) \<and>
      (fst tp \<notin> dom (ops p) \<or> out \<noteq> [] \<and> \<not> ui p \<and> (\<exists>n. codec cfg (decoded p @ [data]) = GotFrame n))"
    by (simp add: assms(10,11,13) received_def)
  ultimately show ?thesis using p(3) window_turn_returns [OF inv assms(7)] by blast
qed

text \<open>Three packets are written to the session; the player makes its window after the second, the first that
  gives a frame, and opens and draws it after the third.\<close>

definition three_packets :: "server_event list" where
  "three_packets = concat (replicate 3 [Broadcast ''a'' 7 AVMEDIA_TYPE_VIDEO (sample_packet 1), CallRuns 0 0, WriteDone 0 Success])"

definition native_run :: "server_event list" where
  "native_run = joining sample_server_options (sample_request Get) ''a'' 7 (AVMEDIA_TYPE_VIDEO, sample_packet 0) @ three_packets"

lemma native_run_returns:
  "\<exists>sv s. server_run native_run (WsStreamServer sample_server_options) = Return sv \<and> sessions sv 0 = Some s \<and>
     session_id s = ''a'' \<and> written (session s) = replicate 3 (encoded (AVMEDIA_TYPE_VIDEO, sample_packet 1))"
proof -
  obtain sv c where "server_run (joining sample_server_options (sample_request Get) ''a'' 7 (AVMEDIA_TYPE_VIDEO, sample_packet 0))
      (WsStreamServer sample_server_options) = Return sv"
    and sv: "sessions sv = [0 \<mapsto> \<lparr>session_id = ''a'', session = c\<rparr>]" "room sv = [''a'' \<mapsto> [0]]" "posted sv = []"
      "send_queue c = []" "silent_send c" "written c = []"
    by (rule joining_runs)
  moreover have "\<exists>sv' s. server_run three_packets sv = Return sv' \<and> sessions sv' 0 = Some s \<and> session_id s = ''a'' \<and>
      written (session s) = replicate 3 (encoded (AVMEDIA_TYPE_VIDEO, sample_packet 1))"
    using sv by (simp add: three_packets_def numeral_3_eq_3 running_simps write_under_way_def OnWrite_def session_OnWrite_def)
  ultimately show ?thesis unfolding native_run_def server_run_append by simp
qed

definition native_schedule :: "view_event list" where
  "native_schedule =
     (let b = encoded (AVMEDIA_TYPE_VIDEO, sample_packet 1) in
      [Received b, Received b, WindowTurn False, WindowTurn False, Received b])"

definition native_view :: view where
  "native_view = (view_start sample_player_options)\<lparr>
     v_player := (WsStreamClient sample_player_options)\<lparr>recv_from_key_frame := True, ui_ok := True, ui := True, ui_at := UiRun,
       decoded := replicate 3 (received (wide sample_cfg) (AVMEDIA_TYPE_VIDEO, sample_packet 1)), shown := [3]\<rparr>,
     v_params := frame_params (\<lambda>_. wide_frame) ''a'' 2\<rparr>"

lemma native_schedule_runs:
  "view_run sample_cfg (\<lambda>_. wide_frame) sample_glfw_env sample_native_env ''a'' sample_player_options native_schedule
     (view_start sample_player_options) = Return (Some native_view)"
proof -
  have "FromBytes (av sample_cfg) (wide sample_cfg) (encoded (AVMEDIA_TYPE_VIDEO, sample_packet 1)) Data =
      Return (OK, received (wide sample_cfg) (AVMEDIA_TYPE_VIDEO, sample_packet 1))"
    using FromBytes_encoded [OF sample_contract sample_packet_transmissible [of 1], of "wide sample_cfg" "[]"]
    by (simp add: encoded_def received_def)
  moreover have "is_key (received (wide sample_cfg) (AVMEDIA_TYPE_VIDEO, sample_packet 1))"
    by (simp add: is_key_def received_def sample_packet_def AV_PKT_FLAG_KEY_def)
  moreover have "media (received (wide sample_cfg) (AVMEDIA_TYPE_VIDEO, sample_packet 1)) = AVMEDIA_TYPE_VIDEO" by (simp add: received_def)
  ultimately show ?thesis
    by (simp add: native_schedule_def view_recv_def view_start_def OnEventRecv_def WsStreamClient_def sample_player_options_def
        AVMEDIA_TYPE_VIDEO_def sample_cfg_def params_after_def window_turn_def NativePlayer.ui_step_def ui_waits_def native_view_def
        numeral_3_eq_3 numeral_2_eq_2 Let_def)
qed

theorem native_player_shows_its_stream_witness:
  "\<exists>sv s v out. server_run native_run (WsStreamServer sample_server_options) = Return sv \<and> sessions sv 0 = Some s \<and>
    view_run sample_cfg (\<lambda>_. wide_frame) sample_glfw_env sample_native_env ''a'' sample_player_options
      (native_schedule @ [WindowTurn False, WindowTurn False]) (view_start sample_player_options) = Return (Some v) \<and>
    out = outputs sample_cfg (decoded (v_player v)) \<and>
    subseq (decoded (v_player v)) (map (received (wide sample_cfg)) (packets_of (session_id s) native_run)) \<and>
    (decoded (v_player v) = [] \<or> is_key (hd (decoded (v_player v)))) \<and>
    (\<exists>ns. sorted ns \<and> set ns \<subseteq> {..length (tl out)} \<and>
       uploads (gl_calls (gl (v_window v))) = planes_of (map (frame_at (\<lambda>_. wide_frame) (tl out)) ns)) \<and>
    (win (v_window v) = None \<or> (\<exists>w rest. window_events (v_window v) =
       opening_events (frame_params (\<lambda>_. wide_frame) ''a'' (hd out)) w @ rest)) \<and>
    (\<exists>v'. window_turn (\<lambda>_. wide_frame) sample_glfw_env sample_native_env sample_player_options True v = Return v') \<and>
    (win (v_window v) = None \<or> tl out = [] \<or>
      (\<exists>v'. window_turn (\<lambda>_. wide_frame) sample_glfw_env sample_native_env sample_player_options False v = Return v' \<and>
        shader_reads ''RED'' wide_frame (gl (v_window v')))) \<and>
    (view_recv sample_cfg (\<lambda>_. wide_frame) ''a'' (encoded (AVMEDIA_TYPE_VIDEO, sample_packet 1)) v = OutOfBounds \<longleftrightarrow>
       \<not> ioc_stopped (v_player v) \<and>
       (decoded (v_player v) \<noteq> [] \<or> is_key (received (wide sample_cfg) (AVMEDIA_TYPE_VIDEO, sample_packet 1))) \<and>
       (AVMEDIA_TYPE_VIDEO \<notin> dom (ops (v_player v)) \<or> out \<noteq> [] \<and> \<not> ui (v_player v) \<and>
        (\<exists>n. codec sample_cfg (decoded (v_player v) @ [received (wide sample_cfg) (AVMEDIA_TYPE_VIDEO, sample_packet 1)]) = GotFrame n)))"
proof -
  let ?turn = "window_turn (\<lambda>_. wide_frame) sample_glfw_env sample_native_env sample_player_options False"
  obtain sv s where run: "server_run native_run (WsStreamServer sample_server_options) = Return sv" "sessions sv 0 = Some s"
    and s: "session_id s = ''a''" "written (session s) = replicate 3 (encoded (AVMEDIA_TYPE_VIDEO, sample_packet 1))"
    using native_run_returns by blast
  have works: "window_works sample_glfw_env sample_native_env (\<lambda>_. wide_frame)"
    by (simp add: window_works_def sample_glfw_env_def sample_native_env_def wide_frame_aligned)
  have bytes: "bytes_of (native_schedule @ [WindowTurn False, WindowTurn False]) = written (session s)"
    by (simp add: s(2) native_schedule_def Let_def numeral_3_eq_3)
  have packets: "packets_of (session_id s) native_run = (AVMEDIA_TYPE_VIDEO, sample_packet 0) # replicate 3 (AVMEDIA_TYPE_VIDEO, sample_packet 1)"
    by (simp add: s(1) native_run_def joining_def three_packets_def numeral_3_eq_3)
  have within: "within_threads 1 native_run"
    by (simp add: within_threads_def native_run_def joining_def three_packets_def numeral_3_eq_3)
  have "\<exists>ds. parse_all sample_cfg (bytes_of native_schedule) = Return ds"
    using parse_all_encoded [OF sample_contract, of "replicate 3 (AVMEDIA_TYPE_VIDEO, sample_packet 1)"]
    by (auto simp: native_schedule_def Let_def numeral_3_eq_3 sample_packet_transmissible)
  then obtain ds where "parse_all sample_cfg (bytes_of native_schedule) = Return ds" by blast
  from view_run_inv [OF view_inv_start works native_schedule_runs this] obtain hs where
    inv: "view_inv sample_cfg (\<lambda>_. wide_frame) ''a'' sample_player_options hs native_view" by auto
  obtain v1 where v1: "?turn native_view = Return v1" using window_turn_returns [OF inv works] by blast
  obtain v where v: "?turn v1 = Return v"
    using window_turn_returns [OF conjunct1 [OF view_inv_turn [OF inv works v1]] works] by blast
  have sched: "view_run sample_cfg (\<lambda>_. wide_frame) sample_glfw_env sample_native_env ''a'' sample_player_options
      (native_schedule @ [WindowTurn False, WindowTurn False]) (view_start sample_player_options) = Return (Some v)"
    using native_schedule_runs v1 v by (simp add: view_run_append)
  have pre: "prefix (bytes_of (native_schedule @ [WindowTurn False, WindowTurn False])) (written (session s))"
    unfolding bytes by simp
  have transmitted: "list_all (\<lambda>tp. transmissible \<lparr>media = fst tp, packet = snd tp\<rparr>)
      (packets_of (session_id s) native_run)"
    unfolding packets by (simp add: sample_packet_transmissible numeral_3_eq_3)
  have next_packet: "transmissible \<lparr>media = fst (AVMEDIA_TYPE_VIDEO, sample_packet 1), packet = snd (AVMEDIA_TYPE_VIDEO, sample_packet 1)\<rparr>"
    by (simp add: sample_packet_transmissible)
  note shows_it = native_player_shows_its_stream [OF run(1) within run(2) sample_contract transmitted pre works sched next_packet refl refl refl refl,
      where closing = True, unfolded fst_conv]
  show ?thesis
    by (rule exI [of _ sv], rule exI [of _ s], rule exI [of _ v], rule exI [of _ "outputs sample_cfg (decoded (v_player v))"])
      (rule conjI [OF run(1) conjI [OF run(2) conjI [OF sched conjI [OF refl shows_it]]]])
qed

end
